(* ===== verification/Prelude.thy ===== *)
theory Prelude
  imports Main
begin

text \<open>
  Shared vocabulary of the development: the JavaScript values a data row holds, the
  JavaScript string primitives the merge engine calls (\<open>trim\<close>, \<open>toLowerCase\<close>,
  \<open>String(v)\<close>, the \<open>||\<close> fallback, the regular-expression class \<open>\s\<close>), decimal
  printing of indices, and insertion-ordered sets (\<open>Array.from(new Set(..))\<close>).
  Strings are \<open>char list\<close>s whose characters are bytes; the JavaScript whitespace and
  case tables are modelled on their ASCII part.
\<close>

named_theorems js_simps "evaluation rules of the modelled JavaScript primitives"

section \<open>Values of a data row\<close>

text \<open>
  \<open>DataRow\<close> (src/types/template.ts) maps field names to \<open>string | number\<close>.
  Numbers are modelled by their integral values.
\<close>

datatype js_value = JStr string | JNum int

type_synonym data_row = "string \<rightharpoonup> js_value"

section \<open>Characters\<close>

text \<open>The ASCII part of the JavaScript \<open>WhiteSpace\<close> and \<open>LineTerminator\<close> classes
  (\<open>\s\<close> in a regular expression, the characters \<open>trim\<close> removes).\<close>

definition is_js_space :: "char \<Rightarrow> bool" where
  "is_js_space c \<longleftrightarrow> (let n = (of_char c :: nat) in n = 32 \<or> (9 \<le> n \<and> n \<le> 13))"

definition js_trim :: "string \<Rightarrow> string" where
  "js_trim s = rev (dropWhile is_js_space (rev (dropWhile is_js_space s)))"

definition ascii_lower :: "char \<Rightarrow> char" where
  "ascii_lower c =
     (let n = (of_char c :: nat) in
      if 65 \<le> n \<and> n \<le> 90 then ''abcdefghijklmnopqrstuvwxyz'' ! (n - 65) else c)"

definition js_to_lower :: "string \<Rightarrow> string" where
  "js_to_lower s = map ascii_lower s"

definition ascii_upper :: "char \<Rightarrow> char" where
  "ascii_upper c =
     (let n = (of_char c :: nat) in
      if 97 \<le> n \<and> n \<le> 122 then ''ABCDEFGHIJKLMNOPQRSTUVWXYZ'' ! (n - 97) else c)"

definition js_to_upper :: "string \<Rightarrow> string" where
  "js_to_upper s = map ascii_upper s"

text \<open>\<open>s.split(c)\<close> for a one-character separator: the pieces between the
  occurrences of \<open>c\<close>, empty pieces included, and always at least one; and
  \<open>xs.join(c)\<close>.\<close>

fun js_split :: "char \<Rightarrow> string \<Rightarrow> string list" where
  "js_split c [] = [[]]"
| "js_split c (x # xs) = (let ws = js_split c xs in if x = c then [] # ws else (x # hd ws) # tl ws)"

fun js_join :: "char \<Rightarrow> string list \<Rightarrow> string" where
  "js_join c [] = []"
| "js_join c [w] = w"
| "js_join c (w # ws) = w @ c # js_join c ws"

text \<open>\<open>s.endsWith(x)\<close> and \<open>s.includes(x)\<close>.\<close>

definition js_ends_with :: "string \<Rightarrow> string \<Rightarrow> bool" where
  "js_ends_with s x \<longleftrightarrow> length x \<le> length s \<and> drop (length s - length x) s = x"

definition js_includes :: "string \<Rightarrow> string \<Rightarrow> bool" where
  "js_includes s x \<longleftrightarrow> list_ex (\<lambda>i. take (length x) (drop i s) = x) [0..<Suc (length s)]"

section \<open>Decimal printing\<close>

definition digit_char :: "nat \<Rightarrow> char" where
  "digit_char k = ''0123456789'' ! k"

fun string_of_nat :: "nat \<Rightarrow> string" where
  "string_of_nat n =
     (if n < 10 then [digit_char n]
      else string_of_nat (n div 10) @ [digit_char (n mod 10)])"

definition string_of_int :: "int \<Rightarrow> string" where
  "string_of_int i = (if i < 0 then CHR ''-'' # string_of_nat (nat (- i)) else string_of_nat (nat i))"

definition nat_of_digits :: "string \<Rightarrow> nat" where
  "nat_of_digits s = foldl (\<lambda>acc c. 10 * acc + (of_char c - 48)) 0 s"

section \<open>String(v) and the || fallback\<close>

fun js_to_string :: "js_value \<Rightarrow> string" where
  "js_to_string (JStr s) = s"
| "js_to_string (JNum i) = string_of_int i"

fun js_falsy :: "js_value \<Rightarrow> bool" where
  "js_falsy (JStr s) \<longleftrightarrow> s = []"
| "js_falsy (JNum i) \<longleftrightarrow> i = 0"

text \<open>\<open>rowData[field] || ''''\<close>: a missing key reads as \<open>undefined\<close>, which is falsy.\<close>

definition row_value :: "data_row \<Rightarrow> string \<Rightarrow> js_value" where
  "row_value row f =
     (case row f of None \<Rightarrow> JStr [] | Some v \<Rightarrow> if js_falsy v then JStr [] else v)"

section \<open>Insertion-ordered sets\<close>

text \<open>\<open>Set.add\<close> keeps the first insertion; \<open>Array.from\<close> lists in insertion order.\<close>

definition set_add :: "'a list \<Rightarrow> 'a \<Rightarrow> 'a list" where
  "set_add xs x = (if x \<in> set xs then xs else xs @ [x])"

definition ordered_set :: "'a list \<Rightarrow> 'a list" where
  "ordered_set xs = foldl set_add [] xs"

section \<open>Lemmas\<close>

lemma is_js_space_ascii [js_simps]:
  "is_js_space (CHR '' '')" "is_js_space (CHR 0x09)" "is_js_space (CHR 0x0A)"
  "is_js_space (CHR 0x0D)"
  "\<not> is_js_space (CHR ''{'')" "\<not> is_js_space (CHR ''}'')" "\<not> is_js_space (CHR ''$'')"
  by (simp_all add: is_js_space_def)

lemma row_value_None [simp]: "row f = None \<Longrightarrow> row_value row f = JStr []"
  by (simp add: row_value_def)

lemma row_value_Some [simp]:
  "row f = Some v \<Longrightarrow> row_value row f = (if js_falsy v then JStr [] else v)"
  by (simp add: row_value_def)

lemma row_value_not_falsy_or_empty:
  "row_value row f = JStr [] \<or> \<not> js_falsy (row_value row f)"
  by (auto simp: row_value_def split: option.splits)

lemma dropWhile_id: "xs = [] \<or> \<not> P (hd xs) \<Longrightarrow> dropWhile P xs = xs"
  by (cases xs) auto

lemma dropWhile_trimmed_right:
  "dropWhile P (rev (dropWhile P (rev (dropWhile P xs)))) = rev (dropWhile P (rev (dropWhile P xs)))"
  by (metis Nil_is_rev_conv dropWhile_id dropWhile_eq_Nil_conv dropWhile_last hd_dropWhile
      last_rev rev_rev_ident)

lemma js_trim_idem [simp]: "js_trim (js_trim s) = js_trim s"
  by (simp add: js_trim_def dropWhile_trimmed_right)

lemma set_js_trim: "set (js_trim s) \<subseteq> set s"
  unfolding js_trim_def by (metis set_dropWhileD set_rev subsetI)

lemma of_char_digit_char: "k < 10 \<Longrightarrow> of_char (digit_char k) = (48 + k :: nat)"
proof -
  assume "k < 10"
  then have "k \<in> {0, 1, 2, 3, 4, 5, 6, 7, 8, 9}" by auto
  then show ?thesis by (auto simp: digit_char_def)
qed

declare string_of_nat.simps [simp del]

lemma string_of_nat_small [js_simps]: "n < 10 \<Longrightarrow> string_of_nat n = [digit_char n]"
  by (simp add: string_of_nat.simps)

lemma string_of_nat_Cons: "string_of_nat n \<noteq> []"
  by (simp add: string_of_nat.simps)

lemma nat_of_digits_snoc:
  "nat_of_digits (s @ [c]) = 10 * nat_of_digits s + (of_char c - 48)"
  by (simp add: nat_of_digits_def)

lemma nat_of_digits_string_of_nat [simp]: "nat_of_digits (string_of_nat n) = n"
proof (induction n rule: string_of_nat.induct)
  case (1 n)
  show ?case
  proof (cases "n < 10")
    case True
    then show ?thesis
      by (simp add: string_of_nat.simps nat_of_digits_def of_char_digit_char)
  next
    case False
    with "1.IH" show ?thesis
      by (simp add: string_of_nat.simps [of n] nat_of_digits_snoc of_char_digit_char)
  qed
qed

lemma string_of_nat_inj [simp]: "string_of_nat m = string_of_nat n \<longleftrightarrow> m = n"
  by (metis nat_of_digits_string_of_nat)

lemma js_ends_with_append [simp]: "js_ends_with (s @ x) x"
  by (simp add: js_ends_with_def)

lemma js_ends_with_split: "js_ends_with s x \<longleftrightarrow> (\<exists>p. s = p @ x)"
proof
  assume "js_ends_with s x"
  then have "s = take (length s - length x) s @ x"
    by (metis append_take_drop_id js_ends_with_def)
  then show "\<exists>p. s = p @ x" ..
qed auto

lemma js_includes_Nil [simp]: "js_includes s []"
  by (simp add: js_includes_def)

lemma set_ordered_set_aux: "set (foldl set_add acc xs) = set acc \<union> set xs"
  by (induction xs arbitrary: acc) (auto simp: set_add_def)

lemma distinct_ordered_set_aux: "distinct acc \<Longrightarrow> distinct (foldl set_add acc xs)"
  by (induction xs arbitrary: acc) (auto simp: set_add_def)

lemma set_ordered_set [simp]: "set (ordered_set xs) = set xs"
  by (simp add: ordered_set_def set_ordered_set_aux)

lemma distinct_ordered_set [simp]: "distinct (ordered_set xs)"
  by (simp add: ordered_set_def distinct_ordered_set_aux)

lemma ordered_set_distinct_id_aux:
  "distinct (acc @ xs) \<Longrightarrow> foldl set_add acc xs = acc @ xs"
  by (induction xs arbitrary: acc) (auto simp: set_add_def)

lemma ordered_set_distinct_id: "distinct xs \<Longrightarrow> ordered_set xs = xs"
  using ordered_set_distinct_id_aux [of "[]" xs] by (simp add: ordered_set_def)

text \<open>Removing the \<open>i\<close>-th element of a list of callbacks in flight.\<close>

lemma set_remove_nth_subset: "set (take i xs @ drop (Suc i) xs) \<subseteq> set xs"
  by (auto dest: in_set_takeD in_set_dropD)

text \<open>Splitting a joined list gives the list back when no piece holds the separator.\<close>

lemma js_split_Nil [simp]: "js_split c s \<noteq> []"
  by (induction s) (simp_all add: Let_def)

lemma js_split_append_sep:
  "c \<notin> set w \<Longrightarrow> js_split c (w @ c # rest) = w # js_split c rest"
  by (induction w) (auto simp: Let_def)

lemma js_split_no_sep: "c \<notin> set w \<Longrightarrow> js_split c w = [w]"
  by (induction w) (auto simp: Let_def)

lemma js_split_join:
  "ws \<noteq> [] \<Longrightarrow> \<forall>w \<in> set ws. c \<notin> set w \<Longrightarrow> js_split c (js_join c ws) = ws"
proof (induction c ws rule: js_join.induct)
  case (3 c w v vs)
  then show ?case by (simp add: js_split_append_sep)
qed (simp_all add: js_split_no_sep)

end
