(* ===== verification/Template_Types.thy ===== *)
theory Template_Types
  imports Prelude
begin

text \<open>
  The data model of src/types/template.ts: \<open>Template\<close>, \<open>FieldMapping\<close> and
  \<open>MergedDocument\<close> as records (\<open>DataRow\<close> is \<open>data_row\<close> of the prelude).
  Optional TypeScript fields are \<open>option\<close>s. The template's \<open>id\<close> is
  \<open>template_id\<close> and the document's \<open>id\<close>/\<open>content\<close> are \<open>doc_id\<close>/\<open>doc_content\<close>,
  since record fields share one name space.
\<close>

record template =
  template_id :: string
  name :: string
  content :: string
  placeholders :: "string list"
  createdAt :: string
  updatedAt :: string
  wordDocumentData :: "string option"
  isWordTemplate :: "bool option"

record field_mapping =
  placeholder :: string
  dataField :: string

record merged_document =
  doc_id :: string
  doc_content :: string
  rowData :: data_row

text \<open>A template with the given content and no other data, used to state properties
  of the merge, which reads \<open>content\<close> only.\<close>

definition plain_template :: "string \<Rightarrow> template" where
  "plain_template s =
     \<lparr>template_id = [], name = [], content = s, placeholders = [], createdAt = [],
      updatedAt = [], wordDocumentData = None, isWordTemplate = None\<rparr>"

lemma content_plain_template [simp]: "content (plain_template s) = s"
  by (simp add: plain_template_def)

end
