(* ===== verification/Extractor.thy ===== *)
theory Extractor
  imports Prelude
begin

text \<open>
  The Placeholder Extractor: \<open>extractPlaceholders\<close> (src/lib/templateUtils.ts) scans
  plain-text template content with \<open>/\{\{([^}]+)\}\}/g\<close>; the Word path
  (\<open>extractPlaceholdersFromWord\<close>, src/lib/wordDocumentUtils.ts) scans the document's
  flattened text with \<open>/\{([^}]+)\}/g\<close>. Both trim each captured name and collect the
  names in a \<open>Set\<close>, returned in insertion order. The flattening of the .docx container
  (\<open>PizZip\<close>, \<open>Docxtemplater.getFullText\<close>) is external: the Word extractor is
  modelled on the text it returns.
\<close>

section \<open>One match of the placeholder expression\<close>

text \<open>
  \<open>match_braces op cl s\<close> tries the expression with opening delimiter \<open>op\<close> and
  closing delimiter \<open>cl\<close> at the start of \<open>s\<close> (\<open>''{{''\<close> and \<open>''}}''\<close> for
  \<open>\{\{([^}]+)\}\}\<close>, \<open>''{''\<close> and \<open>''}''\<close> for \<open>\{([^}]+)\}\<close>). The group
  \<open>[^}]+\<close> is greedy; backtracking into it cannot succeed, since a shorter run is
  followed by a character that is not \<open>}\<close>. The result is the captured group and the
  text after the match.
\<close>

definition not_close :: "char \<Rightarrow> bool" where
  "not_close c \<longleftrightarrow> c \<noteq> CHR ''}''"

definition match_braces :: "string \<Rightarrow> string \<Rightarrow> string \<Rightarrow> (string \<times> string) option" where
  "match_braces op cl s =
     (if take (length op) s = op then
        (let body = drop (length op) s; grp = takeWhile not_close body;
             rest = dropWhile not_close body in
         if grp \<noteq> [] \<and> take (length cl) rest = cl then Some (grp, drop (length cl) rest)
         else None)
      else None)"

lemma match_braces_shorter:
  "match_braces op cl s = Some (g, r) \<Longrightarrow> length r < length s"
proof -
  assume m: "match_braces op cl s = Some (g, r)"
  let ?body = "drop (length op) s"
  from m have g: "g = takeWhile not_close ?body" and ne: "g \<noteq> []"
    and r: "r = drop (length cl) (dropWhile not_close ?body)"
    by (auto simp: match_braces_def Let_def split: if_splits)
  have len: "length ?body = length g + length (dropWhile not_close ?body)"
    using g takeWhile_dropWhile_id [of not_close ?body] by (metis length_append)
  from ne have pos: "0 < length g" by simp
  have "length r \<le> length (dropWhile not_close ?body)" using r by simp
  moreover have "length (dropWhile not_close ?body) < length ?body" using len pos by linarith
  moreover have "length ?body \<le> length s" by simp
  ultimately show ?thesis by linarith
qed

section \<open>The exec loop\<close>

text \<open>
  \<open>while ((match = regex.exec(content)) !== null)\<close>: each \<open>exec\<close> tries the positions
  from \<open>lastIndex\<close> on and returns the leftmost match; \<open>lastIndex\<close> moves to the end
  of that match. \<open>scan_braces\<close> lists the captured groups in order.
\<close>

function scan_braces :: "string \<Rightarrow> string \<Rightarrow> string \<Rightarrow> string list" where
  "scan_braces op cl [] = []"
| "scan_braces op cl (c # cs) =
     (case match_braces op cl (c # cs) of
        Some (grp, rest) \<Rightarrow> grp # scan_braces op cl rest
      | None \<Rightarrow> scan_braces op cl cs)"
  by pat_completeness auto
termination
  by (relation "measure (\<lambda>(op, cl, s). length s)") (auto dest: match_braces_shorter)

text \<open>
  The loop as the code runs it: \<open>find_match\<close> is one call of \<open>exec\<close> from
  \<open>lastIndex = i\<close>, returning the group and the new \<open>lastIndex\<close> (the end of the
  match); \<open>exec_loop\<close> repeats it until \<open>exec\<close> returns \<open>null\<close>, with a fuel
  bound on the number of iterations (\<open>None\<close>: the fuel ran out).
\<close>

function find_match :: "string \<Rightarrow> string \<Rightarrow> string \<Rightarrow> nat \<Rightarrow> (string \<times> nat) option" where
  "find_match op cl s i =
     (if length s \<le> i then None
      else (case match_braces op cl (drop i s) of
              Some (grp, rest) \<Rightarrow> Some (grp, length s - length rest)
            | None \<Rightarrow> find_match op cl s (Suc i)))"
  by pat_completeness auto
termination
  by (relation "measure (\<lambda>(op, cl, s, i). length s - i)") auto

declare find_match.simps [simp del]

fun exec_loop :: "nat \<Rightarrow> string \<Rightarrow> string \<Rightarrow> string \<Rightarrow> nat \<Rightarrow> string list option" where
  "exec_loop 0 op cl s i = None"
| "exec_loop (Suc fuel) op cl s i =
     (case find_match op cl s i of
        None \<Rightarrow> Some []
      | Some (grp, j) \<Rightarrow> map_option (Cons grp) (exec_loop fuel op cl s j))"

section \<open>The two extractors\<close>

definition extract_placeholders :: "string \<Rightarrow> string list" where
  "extract_placeholders content = ordered_set (map js_trim (scan_braces ''{{'' ''}}'' content))"

definition extract_placeholders_from_text :: "string \<Rightarrow> string list" where
  "extract_placeholders_from_text text = ordered_set (map js_trim (scan_braces ''{'' ''}'' text))"

section \<open>Lemmas\<close>

text \<open>The delimiters of both expressions: a non-empty run of \<open>{\<close> and of \<open>}\<close>.\<close>

definition braces :: "string \<Rightarrow> string \<Rightarrow> bool" where
  "braces op cl \<longleftrightarrow> op \<noteq> [] \<and> set op = {CHR ''{''} \<and> cl \<noteq> [] \<and> set cl = {CHR ''}''}"

lemma braces_double [simp]: "braces ''{{'' ''}}''" and braces_single [simp]: "braces ''{'' ''}''"
  by (auto simp: braces_def)

lemma scan_braces_Cons_match:
  "s \<noteq> [] \<Longrightarrow> match_braces op cl s = Some (g, r) \<Longrightarrow> scan_braces op cl s = g # scan_braces op cl r"
  by (cases s) auto

lemma match_braces_no_open:
  "braces op cl \<Longrightarrow> c \<noteq> CHR ''{'' \<Longrightarrow> match_braces op cl (c # s) = None"
  by (cases op) (auto simp: match_braces_def braces_def)

lemma scan_braces_skip:
  "braces op cl \<Longrightarrow> CHR ''{'' \<notin> set a \<Longrightarrow> scan_braces op cl (a @ s) = scan_braces op cl s"
  by (induction a) (auto simp: match_braces_no_open)

lemma match_braces_slot:
  assumes "braces op cl" "CHR ''}'' \<notin> set x" "x \<noteq> []"
  shows "match_braces op cl (op @ x @ cl @ b) = Some (x, b)"
proof -
  have all: "\<And>c. c \<in> set x \<Longrightarrow> not_close c" using assms(2) by (auto simp: not_close_def)
  obtain c cs where cl: "cl = c # cs" and c: "c = CHR ''}''"
    using assms(1) by (cases cl) (auto simp: braces_def)
  have stop: "\<not> not_close c" by (simp add: not_close_def c)
  have tw: "takeWhile not_close (x @ cl @ b) = x"
    using all stop cl by simp
  have dw: "dropWhile not_close (x @ cl @ b) = cl @ b"
    using all stop cl by simp
  show ?thesis using assms tw dw by (simp add: match_braces_def Let_def)
qed

lemma scan_braces_slot:
  assumes "braces op cl" "CHR ''{'' \<notin> set a" "CHR ''}'' \<notin> set x" "x \<noteq> []"
  shows "scan_braces op cl (a @ op @ x @ cl @ b) = x # scan_braces op cl b"
proof -
  have "op @ x @ cl @ b \<noteq> []" using assms by simp
  then show ?thesis
    using assms by (simp add: scan_braces_skip scan_braces_Cons_match match_braces_slot)
qed

lemma scan_braces_groups:
  "g \<in> set (scan_braces op cl s) \<Longrightarrow> g \<noteq> [] \<and> CHR ''}'' \<notin> set g"
proof (induction op cl s rule: scan_braces.induct)
  case (1 op cl)
  then show ?case by simp
next
  case (2 op cl c cs)
  then show ?case
    by (auto simp: match_braces_def Let_def not_close_def split: if_splits option.splits
        dest: set_takeWhileD)
qed

lemma count_list_distinct: "distinct xs \<Longrightarrow> x \<in> set xs \<Longrightarrow> count_list xs x = 1"
  by (induction xs) auto

lemma extract_placeholders_scan:
  "set (extract_placeholders s) = js_trim ` set (scan_braces ''{{'' ''}}'' s)"
  by (simp add: extract_placeholders_def)

lemma extract_placeholders_member:
  "p \<in> set (extract_placeholders s) \<Longrightarrow> \<exists>g \<in> set (scan_braces ''{{'' ''}}'' s). p = js_trim g"
  by (simp add: extract_placeholders_scan image_iff)

text \<open>The exec loop consumes the text: each match ends past the position it starts from.\<close>

lemma match_braces_suffix:
  "match_braces op cl t = Some (g, r) \<Longrightarrow> \<exists>k. r = drop k t"
proof -
  assume m: "match_braces op cl t = Some (g, r)"
  then have "r = drop (length cl) (dropWhile not_close (drop (length op) t))"
    by (auto simp: match_braces_def Let_def split: if_splits)
  also have "dropWhile not_close (drop (length op) t) =
             drop (length (takeWhile not_close (drop (length op) t))) (drop (length op) t)"
    by (simp add: dropWhile_eq_drop)
  finally show ?thesis by (auto simp: add.commute)
qed

lemma find_match_scan:
  "find_match op cl s i = None \<Longrightarrow> scan_braces op cl (drop i s) = []"
  "find_match op cl s i = Some (g, j) \<Longrightarrow>
     scan_braces op cl (drop i s) = g # scan_braces op cl (drop j s) \<and> i < j"
proof (induction op cl s i arbitrary: g j rule: find_match.induct)
  case (1 op cl s i)
  note fm = find_match.simps [of op cl s i]
  { case 1
    show ?case
    proof (cases "length s \<le> i")
      case True
      then show ?thesis by simp
    next
      case False
      then have d: "drop i s = s ! i # drop (Suc i) s" by (simp add: Cons_nth_drop_Suc)
      from False "1.prems" fm have "match_braces op cl (drop i s) = None" "find_match op cl s (Suc i) = None"
        by (auto split: option.splits)
      with "1.IH"(1) [OF False] d show ?thesis by simp
    qed
  next
    case 2
    from "2" fm have lt: "i < length s" by (auto split: if_splits)
    then have d: "drop i s = s ! i # drop (Suc i) s" by (simp add: Cons_nth_drop_Suc)
    show ?case
    proof (cases "match_braces op cl (drop i s)")
      case None
      with "2" lt fm have "find_match op cl s (Suc i) = Some (g, j)" by simp
      with "1.IH"(2) lt None d show ?thesis by simp
    next
      case (Some gr)
      obtain g' r where gr: "gr = (g', r)" by (cases gr)
      with Some "2" lt fm have gj: "g = g'" "j = length s - length r" by auto
      from Some gr obtain k where r: "r = drop k (drop i s)" using match_braces_suffix by blast
      from Some gr have short: "length r < length (drop i s)" using match_braces_shorter by blast
      then have "drop j s = r" using r gj by (cases "i + k \<le> length s") (simp_all add: add.commute)
      moreover have "i < j" using short gj lt by simp
      ultimately show ?thesis using Some gr gj d by simp
    qed }
qed

lemma exec_loop_scan:
  "length s - i < fuel \<Longrightarrow> exec_loop fuel op cl s i = Some (scan_braces op cl (drop i s))"
proof (induction fuel arbitrary: i)
  case 0
  then show ?case by simp
next
  case (Suc fuel)
  show ?case
  proof (cases "find_match op cl s i")
    case None
    then show ?thesis by (simp add: find_match_scan(1))
  next
    case (Some gj)
    obtain g j where gj: "gj = (g, j)" by (cases gj)
    with Some have sc: "scan_braces op cl (drop i s) = g # scan_braces op cl (drop j s)" and ij: "i < j"
      using find_match_scan(2) by blast+
    from Some gj have "i < length s" by (auto simp: find_match.simps [of op cl s i] split: if_splits)
    with ij Suc.prems have "length s - j < fuel" by linarith
    from Suc.IH [OF this] Some gj sc show ?thesis by simp
  qed
qed

lemma match_braces_length:
  "match_braces op cl t = Some (g, r) \<Longrightarrow> length r + length op + length cl + 1 \<le> length t"
proof -
  assume m: "match_braces op cl t = Some (g, r)"
  let ?body = "drop (length op) t"
  from m have pre: "take (length op) t = op" and g: "g = takeWhile not_close ?body" and ne: "g \<noteq> []"
    and cl: "take (length cl) (dropWhile not_close ?body) = cl"
    and r: "r = drop (length cl) (dropWhile not_close ?body)"
    by (auto simp: match_braces_def Let_def split: if_splits)
  have lo: "length op \<le> length t" using pre by (metis length_take min.absorb_iff1 min.commute)
  have lc: "length cl \<le> length (dropWhile not_close ?body)"
    using cl by (metis length_take min.absorb_iff1 min.commute)
  have len: "length ?body = length g + length (dropWhile not_close ?body)"
    using g takeWhile_dropWhile_id [of not_close ?body] by (metis length_append)
  from ne have pos: "0 < length g" by simp
  have lb: "length ?body = length t - length op" by simp
  have lr: "length r = length (dropWhile not_close ?body) - length cl" using r by simp
  from len lc lo pos lb lr show ?thesis by linarith
qed

lemma scan_braces_length:
  "length (scan_braces op cl s) * (length op + length cl + 1) \<le> length s"
proof (induction op cl s rule: scan_braces.induct)
  case (1 op cl)
  then show ?case by simp
next
  case (2 op cl c cs)
  let ?k = "length op + length cl + 1"
  show ?case
  proof (cases "match_braces op cl (c # cs)")
    case None
    then have "scan_braces op cl (c # cs) = scan_braces op cl cs" by simp
    with "2.IH"(1) [OF None] show ?thesis by (metis le_SucI length_Cons)
  next
    case (Some gr)
    obtain g r where gr: "gr = (g, r)" by (cases gr)
    with Some have l: "length r + ?k \<le> length (c # cs)"
      using match_braces_length by fastforce
    from Some gr have e: "length (scan_braces op cl (c # cs)) * ?k = ?k + length (scan_braces op cl r) * ?k"
      by simp
    from "2.IH"(2) [OF Some gr [symmetric]] have "length (scan_braces op cl r) * ?k \<le> length r" .
    with e l show ?thesis by linarith
  qed
qed

lemma length_ordered_set: "length (ordered_set xs) \<le> length xs"
  by (metis card_length distinct_card distinct_ordered_set set_ordered_set)

lemmas extract_eval = extract_placeholders_def extract_placeholders_from_text_def
  match_braces_def not_close_def js_trim_def is_js_space_def ordered_set_def set_add_def

section \<open>Properties\<close>

text \<open>
  C34. A well-formed placeholder \<open>{{X}}\<close> (\<open>X\<close> non-empty, without \<open>}\<close>) preceded by
  text without \<open>{\<close> is extracted, trimmed, exactly once, however often it recurs.
\<close>

theorem extract_placeholders_exactly_once:
  assumes "CHR ''{'' \<notin> set a" "CHR ''}'' \<notin> set x" "x \<noteq> []"
  shows "count_list (extract_placeholders (a @ ''{{'' @ x @ ''}}'' @ b)) (js_trim x) = 1"
proof -
  have "scan_braces ''{{'' ''}}'' (a @ ''{{'' @ x @ ''}}'' @ b) = x # scan_braces ''{{'' ''}}'' b"
    using assms scan_braces_slot [of "''{{''" "''}}''" a x b] by simp
  then have "js_trim x \<in> set (extract_placeholders (a @ ''{{'' @ x @ ''}}'' @ b))"
    by (simp add: extract_placeholders_scan)
  then show ?thesis by (simp add: extract_placeholders_def count_list_distinct)
qed

theorem extract_placeholders_exactly_once_witness:
  "CHR ''{'' \<notin> set ''Dear '' \<and> CHR ''}'' \<notin> set '' Name '' \<and> '' Name '' \<noteq> [] \<and>
   count_list (extract_placeholders (''Dear '' @ ''{{'' @ '' Name '' @ ''}}'' @ '', {{Name}}!''))
     (js_trim '' Name '') = 1"
proof -
  have h: "CHR ''{'' \<notin> set ''Dear ''" "CHR ''}'' \<notin> set '' Name ''" "'' Name '' \<noteq> []" by simp_all
  show ?thesis using h extract_placeholders_exactly_once [OF h, of "'', {{Name}}!''"] by blast
qed

text \<open>
  The extracted list is duplicate-free and every name in it is trimmed and contains
  no \<open>}\<close>.
\<close>

theorem extract_placeholders_names:
  "distinct (extract_placeholders s) \<and>
   (\<forall>p \<in> set (extract_placeholders s). js_trim p = p \<and> CHR ''}'' \<notin> set p)"
proof -
  have "js_trim p = p \<and> CHR ''}'' \<notin> set p" if "p \<in> set (extract_placeholders s)" for p
  proof -
    from that obtain g where g: "g \<in> set (scan_braces ''{{'' ''}}'' s)" and p: "p = js_trim g"
      using extract_placeholders_member by blast
    from g have "CHR ''}'' \<notin> set g" using scan_braces_groups by blast
    with p show ?thesis using set_js_trim [of g] by auto
  qed
  moreover have "distinct (extract_placeholders s)" by (simp add: extract_placeholders_def)
  ultimately show ?thesis by blast
qed

theorem extract_placeholders_names_witness:
  "extract_placeholders ''{{ a }}{{b}}{{a}}'' = [''a'', ''b''] \<and>
   distinct (extract_placeholders ''{{ a }}{{b}}{{a}}'') \<and>
   js_trim ''a'' = ''a'' \<and> CHR ''}'' \<notin> set ''a'' \<and> js_trim ''b'' = ''b'' \<and> CHR ''}'' \<notin> set ''b''"
proof -
  have e: "extract_placeholders ''{{ a }}{{b}}{{a}}'' = [''a'', ''b'']" by (simp add: extract_eval)
  from e extract_placeholders_names [of "''{{ a }}{{b}}{{a}}''"] show ?thesis by simp
qed

text \<open>
  An unclosed \<open>{{\<close> swallows the next placeholder: in \<open>{{a{{b}}\<close> the well-formed
  \<open>{{b}}\<close> is not extracted as \<open>b\<close>; the one name found is \<open>a{{b\<close>.
\<close>

theorem extract_placeholders_unclosed_prefix:
  "extract_placeholders ''{{a{{b}}'' = [''a{{b'']"
  by (simp add: extract_eval)

text \<open>
  A placeholder of blanks, \<open>{{ }}\<close>, yields the empty name.
\<close>

theorem extract_placeholders_blank:
  "extract_placeholders ''x{{ }}y'' = ['''']"
  by (simp add: extract_eval)

text \<open>
  The Word extractor finds a well-formed single-brace tag \<open>{X}\<close> after text without
  \<open>{\<close>, exactly once; applied to a double-brace placeholder it yields the name with a
  leading brace.
\<close>

theorem extract_from_text_exactly_once:
  assumes "CHR ''{'' \<notin> set a" "CHR ''}'' \<notin> set x" "x \<noteq> []"
  shows "count_list (extract_placeholders_from_text (a @ ''{'' @ x @ ''}'' @ b)) (js_trim x) = 1
         \<and> extract_placeholders_from_text ''{{Name}}'' = [''{Name'']"
proof -
  have "scan_braces ''{'' ''}'' (a @ ''{'' @ x @ ''}'' @ b) = x # scan_braces ''{'' ''}'' b"
    using assms scan_braces_slot [of "''{''" "''}''" a x b] by simp
  then have "js_trim x \<in> set (extract_placeholders_from_text (a @ ''{'' @ x @ ''}'' @ b))"
    by (simp add: extract_placeholders_from_text_def)
  then have "count_list (extract_placeholders_from_text (a @ ''{'' @ x @ ''}'' @ b)) (js_trim x) = 1"
    by (simp add: extract_placeholders_from_text_def count_list_distinct)
  moreover have "extract_placeholders_from_text ''{{Name}}'' = [''{Name'']"
    by (simp add: extract_eval)
  ultimately show ?thesis by blast
qed

theorem extract_from_text_exactly_once_witness:
  "CHR ''{'' \<notin> set ''Dear '' \<and> CHR ''}'' \<notin> set ''Name'' \<and> ''Name'' \<noteq> [] \<and>
   count_list (extract_placeholders_from_text (''Dear '' @ ''{'' @ ''Name'' @ ''}'' @ '' {Name}''))
     (js_trim ''Name'') = 1"
proof -
  have h: "CHR ''{'' \<notin> set ''Dear ''" "CHR ''}'' \<notin> set ''Name''" "''Name'' \<noteq> []" by simp_all
  show ?thesis using h extract_from_text_exactly_once [OF h, of "'' {Name}''"] by blast
qed

text \<open>
  C19. Termination of the exec loop: run from \<open>lastIndex = 0\<close> with one more iteration
  than the text has characters, the \<open>while\<close> loop always stops on \<open>exec\<close> returning
  \<open>null\<close>, and the groups it collects are those \<open>scan_braces\<close> lists, for both
  expressions.
\<close>

theorem exec_loop_terminates:
  "exec_loop (Suc (length s)) op cl s 0 = Some (scan_braces op cl s)"
  using exec_loop_scan [of s 0 "Suc (length s)" op cl] by simp

text \<open>
  C20. Bounds: a placeholder takes at least five characters of a text template and three
  of a Word document's text, so a text of \<open>n\<close> characters yields at most \<open>n div 5\<close>,
  respectively \<open>n div 3\<close>, placeholder names.
\<close>

theorem extract_placeholders_bound:
  "5 * length (extract_placeholders s) \<le> length s \<and> 3 * length (extract_placeholders_from_text s) \<le> length s"
proof -
  have "length (scan_braces ''{{'' ''}}'' s) * 5 \<le> length s"
    using scan_braces_length [of "''{{''" "''}}''" s] by simp
  moreover have "length (scan_braces ''{'' ''}'' s) * 3 \<le> length s"
    using scan_braces_length [of "''{''" "''}''" s] by simp
  moreover have "length (extract_placeholders s) \<le> length (scan_braces ''{{'' ''}}'' s)"
    using length_ordered_set [of "map js_trim (scan_braces ''{{'' ''}}'' s)"] by (simp add: extract_placeholders_def)
  moreover have "length (extract_placeholders_from_text s) \<le> length (scan_braces ''{'' ''}'' s)"
    using length_ordered_set [of "map js_trim (scan_braces ''{'' ''}'' s)"] by (simp add: extract_placeholders_from_text_def)
  ultimately show ?thesis by linarith
qed

end
