(* ===== verification/Substitution.thy ===== *)
theory Substitution
  imports Template_Types
begin

text \<open>
  The Row Merge Function: \<open>mergeSingleDocument\<close> (src/lib/templateUtils.ts). For each
  mapping in turn it reads \<open>rowData[mapping.dataField] || ''''\<close>, builds
  \<open>new RegExp(`\\{\\{\\s*${mapping.placeholder}\\s*\\}\\}`, 'g')\<close> and replaces every match in
  the current content with \<open>String(value)\<close>. The model follows the JavaScript
  semantics of that call: the leftmost-first backtracking match of the expression, the
  global replacement over the content as it stood before the call, and the expansion of
  \<open>$\<close>-patterns in the replacement string (\<open>String.prototype.replace\<close> reads
  \<open>$$\<close>, \<open>$&\<close>, \<open>$`\<close> and \<open>$'\<close> in it even when the string comes from data).
\<close>

section \<open>The expression built for one mapping\<close>

text \<open>
  The placeholder is spliced into the pattern unescaped. A name without
  regular-expression metacharacters is read literally; a name with one is a syntax error
  (\<open>a(b\<close>) or a different pattern (\<open>a.b\<close>, \<open>a|b\<close>), which the model reports as
  \<open>PatternPlaceholder\<close> instead of following the regular-expression engine.
\<close>

definition js_regex_meta :: "char \<Rightarrow> bool" where
  "js_regex_meta c \<longleftrightarrow> c = CHR 0x5C \<or> c \<in> set ''^$.|?*+()[]{}''"

definition regex_literal :: "string \<Rightarrow> bool" where
  "regex_literal p \<longleftrightarrow> list_all (\<lambda>c. \<not> js_regex_meta c) p"

definition ws_len :: "string \<Rightarrow> nat" where
  "ws_len s = length (takeWhile is_js_space s)"

text \<open>\<open>\s*\}\}\<close> after the literal name \<open>p\<close>, tried at the start of \<open>s\<close>: the greedy
  \<open>\s*\<close> takes the whole run of blanks, and a shorter run leaves a blank where \<open>}\<close>
  is needed, so no backtracking into it succeeds. The result is the length matched.\<close>

definition match_tail :: "string \<Rightarrow> string \<Rightarrow> nat option" where
  "match_tail p s =
     (if take (length p) s = p then
        (let after = drop (length p) s; w = ws_len after in
         if take 2 (drop w after) = ''}}'' then Some (length p + w + 2) else None)
      else None)"

text \<open>The leading \<open>\s*\<close> backtracks: it first takes the longest run \<open>k\<close> of blanks,
  then \<open>k - 1\<close>, down to none, until the rest of the expression matches.\<close>

fun match_lead :: "string \<Rightarrow> string \<Rightarrow> nat \<Rightarrow> nat option" where
  "match_lead p s 0 = match_tail p s"
| "match_lead p s (Suc k) =
     (case match_tail p (drop (Suc k) s) of
        Some n \<Rightarrow> Some (Suc k + n)
      | None \<Rightarrow> match_lead p s k)"

definition match_at :: "string \<Rightarrow> string \<Rightarrow> nat option" where
  "match_at p s =
     (if take 2 s = ''{{'' then
        map_option (\<lambda>n. 2 + n) (match_lead p (drop 2 s) (ws_len (drop 2 s)))
      else None)"

section \<open>The replacement string\<close>

text \<open>
  \<open>GetSubstitution\<close> for an expression without capture groups: \<open>$$\<close> is \<open>$\<close>,
  \<open>$&\<close> the matched text, \<open>$`\<close> the text before the match, \<open>$'\<close> the text after
  it; any other \<open>$\<close> stands for itself.
\<close>

fun expand_replacement :: "string \<Rightarrow> string \<Rightarrow> string \<Rightarrow> string \<Rightarrow> string" where
  "expand_replacement [] matched before after = []"
| "expand_replacement [c] matched before after = [c]"
| "expand_replacement (c # d # r) matched before after =
     (if c = CHR ''$'' \<and> d = CHR ''$'' then CHR ''$'' # expand_replacement r matched before after
      else if c = CHR ''$'' \<and> d = CHR ''&'' then matched @ expand_replacement r matched before after
      else if c = CHR ''$'' \<and> d = CHR ''`'' then before @ expand_replacement r matched before after
      else if c = CHR ''$'' \<and> d = CHR 0x27 then after @ expand_replacement r matched before after
      else c # expand_replacement (d # r) matched before after)"

section \<open>Global replacement\<close>

lemma take_prefix_length: "take (length p) s = p \<Longrightarrow> length p \<le> length s"
  by (metis length_take min.absorb_iff1 min.commute)

lemma match_tail_length: "match_tail p s = Some n \<Longrightarrow> 2 \<le> n \<and> n \<le> length s"
proof -
  assume m: "match_tail p s = Some n"
  let ?after = "drop (length p) s"
  let ?w = "ws_len ?after"
  from m have pre: "take (length p) s = p" and close: "take 2 (drop ?w ?after) = ''}}''"
    and n: "n = length p + ?w + 2"
    by (auto simp: match_tail_def Let_def split: if_splits)
  from pre have "length p \<le> length s" by (rule take_prefix_length)
  moreover have "take (length ''}}'') (drop ?w ?after) = ''}}''"
    using close by (simp add: eval_nat_numeral)
  then have "length ''}}'' \<le> length (drop ?w ?after)" by (rule take_prefix_length)
  ultimately show ?thesis using n by auto
qed

lemma match_lead_length: "match_lead p s k = Some n \<Longrightarrow> 2 \<le> n \<and> n \<le> length s"
proof (induction k arbitrary: n)
  case 0
  then show ?case by (simp add: match_tail_length)
next
  case (Suc k)
  show ?case
  proof (cases "match_tail p (drop (Suc k) s)")
    case None
    with Suc show ?thesis by simp
  next
    case (Some m)
    with Suc.prems have n: "n = Suc k + m" by simp
    from Some have "2 \<le> m \<and> m \<le> length (drop (Suc k) s)" by (rule match_tail_length)
    with n show ?thesis by auto
  qed
qed

lemma match_at_length: "match_at p s = Some n \<Longrightarrow> 4 \<le> n \<and> n \<le> length s"
  by (auto simp: match_at_def dest!: match_lead_length split: if_splits)

text \<open>
  \<open>content.replace(regex, value)\<close> with a global expression: the matches are found on
  the content as it stood before the call, left to right, each search starting where the
  previous match ended; \<open>before\<close> is the part of that content already passed.
\<close>

function replace_all :: "string \<Rightarrow> string \<Rightarrow> string \<Rightarrow> string \<Rightarrow> string" where
  "replace_all p r before [] = []"
| "replace_all p r before (c # cs) =
     (case match_at p (c # cs) of
        Some n \<Rightarrow>
          expand_replacement r (take n (c # cs)) before (drop n (c # cs))
          @ replace_all p r (before @ take n (c # cs)) (drop n (c # cs))
      | None \<Rightarrow> c # replace_all p r (before @ [c]) cs)"
  by pat_completeness auto
termination
  by (relation "measure (\<lambda>(p, r, before, s). length s)") (auto dest: match_at_length)

section \<open>mergeSingleDocument\<close>

datatype merge_error = PatternPlaceholder string

fun apply_mappings :: "data_row \<Rightarrow> field_mapping list \<Rightarrow> string \<Rightarrow> merge_error + string" where
  "apply_mappings row [] text = Inr text"
| "apply_mappings row (m # ms) text =
     (let value = row_value row (dataField m) in
      if regex_literal (placeholder m)
      then apply_mappings row ms (replace_all (placeholder m) (js_to_string value) [] text)
      else Inl (PatternPlaceholder (placeholder m)))"

definition merge_single_document ::
  "template \<Rightarrow> data_row \<Rightarrow> field_mapping list \<Rightarrow> merge_error + string" where
  "merge_single_document t row mappings = apply_mappings row mappings (content t)"

section \<open>Specification: a template as text and slots\<close>

text \<open>
  The contract of section 4.3 of the design, stated on a template split into segments: literal
  text and slots \<open>{{ w1 name w2 }}\<close> (\<open>w1\<close>, \<open>w2\<close> blanks). \<open>render \<sigma>\<close> replaces
  every slot whose name \<open>\<sigma>\<close> maps by that value, in one pass, and keeps the others.
  \<open>wf_segment\<close> is the class of templates the refinement theorem covers: text without
  \<open>{\<close>, slot names that are non-empty, trimmed and free of metacharacters.
\<close>

datatype segment = Text string | Slot string string string

fun seg_source :: "segment \<Rightarrow> string" where
  "seg_source (Text t) = t"
| "seg_source (Slot w1 p w2) = ''{{'' @ w1 @ p @ w2 @ ''}}''"

definition source_of :: "segment list \<Rightarrow> string" where
  "source_of segs = concat (map seg_source segs)"

fun fill_segment :: "(string \<rightharpoonup> string) \<Rightarrow> segment \<Rightarrow> string" where
  "fill_segment \<sigma> (Text t) = t"
| "fill_segment \<sigma> (Slot w1 p w2) = (case \<sigma> p of Some v \<Rightarrow> v | None \<Rightarrow> seg_source (Slot w1 p w2))"

definition render :: "(string \<rightharpoonup> string) \<Rightarrow> segment list \<Rightarrow> string" where
  "render \<sigma> segs = concat (map (fill_segment \<sigma>) segs)"

definition clean_name :: "string \<Rightarrow> bool" where
  "clean_name p \<longleftrightarrow> p \<noteq> [] \<and> regex_literal p \<and> \<not> is_js_space (hd p) \<and> \<not> is_js_space (last p)"

fun wf_segment :: "segment \<Rightarrow> bool" where
  "wf_segment (Text t) \<longleftrightarrow> CHR ''{'' \<notin> set t"
| "wf_segment (Slot w1 p w2) \<longleftrightarrow> list_all is_js_space w1 \<and> list_all is_js_space w2 \<and> clean_name p"

fun subst_slot :: "string \<Rightarrow> string \<Rightarrow> segment \<Rightarrow> segment" where
  "subst_slot p v (Text t) = Text t"
| "subst_slot p v (Slot w1 q w2) = (if q = p then Text v else Slot w1 q w2)"

definition mapping_table :: "data_row \<Rightarrow> field_mapping list \<Rightarrow> (string \<rightharpoonup> string)" where
  "mapping_table row ms =
     map_of (map (\<lambda>m. (placeholder m, js_to_string (row_value row (dataField m)))) ms)"

definition safe_value :: "string \<Rightarrow> bool" where
  "safe_value v \<longleftrightarrow> CHR ''$'' \<notin> set v \<and> CHR ''{'' \<notin> set v"

definition mapping_ok :: "data_row \<Rightarrow> field_mapping \<Rightarrow> bool" where
  "mapping_ok row m \<longleftrightarrow>
     clean_name (placeholder m) \<and> safe_value (js_to_string (row_value row (dataField m)))"

fun slot_name :: "segment \<Rightarrow> string list" where
  "slot_name (Text t) = []"
| "slot_name (Slot w1 p w2) = [p]"

definition slot_names :: "segment list \<Rightarrow> string list" where
  "slot_names segs = concat (map slot_name segs)"

section \<open>Lemmas\<close>

lemma regex_literal_no_braces:
  "regex_literal p \<Longrightarrow> CHR ''{'' \<notin> set p \<and> CHR ''}'' \<notin> set p \<and> CHR ''$'' \<notin> set p"
  by (auto simp: regex_literal_def js_regex_meta_def list_all_iff)

lemma take2_not_open: "c \<noteq> CHR ''{'' \<Longrightarrow> take 2 (c # s) \<noteq> ''{{''"
  by (simp add: eval_nat_numeral)

lemma match_at_no_open: "c \<noteq> CHR ''{'' \<Longrightarrow> match_at p (c # s) = None"
  by (simp add: match_at_def take2_not_open)

lemma replace_all_text:
  "CHR ''{'' \<notin> set t \<Longrightarrow> replace_all p r before (t @ s) = t @ replace_all p r (before @ t) s"
proof (induction t arbitrary: before)
  case Nil
  then show ?case by simp
next
  case (Cons c t)
  then have "c \<noteq> CHR ''{''" "CHR ''{'' \<notin> set t" by auto
  with Cons.IH show ?case by (simp add: match_at_no_open)
qed

lemma expand_replacement_plain:
  "CHR ''$'' \<notin> set r \<Longrightarrow> expand_replacement r matched before after = r"
  by (induction r matched before after rule: expand_replacement.induct) auto

lemma ws_len_append:
  assumes w: "list_all is_js_space w" and z: "z = [] \<or> \<not> is_js_space (hd z)"
  shows "ws_len (w @ z) = length w"
proof -
  have "takeWhile is_js_space (w @ z) = w @ takeWhile is_js_space z"
    using w by (simp add: list_all_iff)
  moreover have "takeWhile is_js_space z = []" using z by (cases z) auto
  ultimately show ?thesis by (simp add: ws_len_def)
qed

lemma clean_name_hd: "clean_name p \<Longrightarrow> \<not> is_js_space (hd p) \<and> p \<noteq> []"
  by (simp add: clean_name_def)

lemma match_tail_slot:
  assumes "clean_name p" "list_all is_js_space w2"
  shows "match_tail p (p @ w2 @ ''}}'' @ s) = Some (length p + length w2 + 2)"
proof -
  have "ws_len (w2 @ ''}}'' @ s) = length w2"
    using assms(2) by (rule ws_len_append) (simp add: is_js_space_ascii)
  then show ?thesis by (simp add: match_tail_def Let_def)
qed

lemma match_lead_at:
  "match_tail p (drop k s) = Some n \<Longrightarrow> match_lead p s k = Some (k + n)"
  by (cases k) auto

lemma match_lead_none:
  "(\<And>j. j \<le> k \<Longrightarrow> match_tail p (drop j s) = None) \<Longrightarrow> match_lead p s k = None"
  by (induction k) auto

lemma match_at_slot_same:
  assumes "wf_segment (Slot w1 p w2)"
  shows "match_at p (seg_source (Slot w1 p w2) @ s) = Some (length (seg_source (Slot w1 p w2)))"
proof -
  from assms have w1: "list_all is_js_space w1" and w2: "list_all is_js_space w2"
    and p: "clean_name p" by auto
  let ?x = "w1 @ p @ w2 @ ''}}'' @ s"
  from p have "p \<noteq> []" "\<not> is_js_space (hd p)" by (simp_all add: clean_name_def)
  then have "ws_len ?x = length w1" using w1 by (intro ws_len_append) (auto simp: hd_append)
  moreover have "match_tail p (drop (length w1) ?x) = Some (length p + length w2 + 2)"
    using match_tail_slot [OF p w2] by simp
  ultimately have "match_lead p ?x (ws_len ?x) = Some (length w1 + (length p + length w2 + 2))"
    by (simp add: match_lead_at)
  then show ?thesis by (simp add: match_at_def)
qed

lemma match_tail_ws_start:
  "clean_name p \<Longrightarrow> z \<noteq> [] \<Longrightarrow> is_js_space (hd z) \<Longrightarrow> match_tail p z = None"
  by (cases p; cases z) (auto simp: match_tail_def clean_name_def)

lemma match_tail_Some_split:
  assumes "match_tail p z = Some n"
  shows "\<exists>u rest. z = p @ u @ ''}}'' @ rest \<and> list_all is_js_space u"
proof -
  define a where "a = drop (length p) z"
  define t where "t = takeWhile is_js_space a"
  define d where "d = drop (length t) a"
  from assms have pre: "take (length p) z = p" and close: "take 2 d = ''}}''"
    by (auto simp: match_tail_def Let_def ws_len_def a_def t_def d_def split: if_splits)
  have z: "z = p @ a" using pre unfolding a_def by (metis append_take_drop_id)
  have "a = t @ d" unfolding t_def d_def by (metis append_take_drop_id takeWhile_eq_take)
  moreover have "d = ''}}'' @ drop 2 d" using close by (metis append_take_drop_id)
  ultimately have "z = p @ t @ ''}}'' @ drop 2 d" using z by simp
  moreover have "list_all is_js_space t"
    unfolding t_def by (auto simp: list_all_iff dest: set_takeWhileD)
  ultimately show ?thesis by blast
qed

lemma strip_trailing_ws:
  assumes "list_all is_js_space w" "q \<noteq> []" "\<not> is_js_space (last q)"
  shows "rev (dropWhile is_js_space (rev (q @ w))) = q"
proof -
  have "dropWhile is_js_space (rev w @ rev q) = dropWhile is_js_space (rev q)"
    using assms(1) by (intro dropWhile_append2) (auto simp: list_all_iff)
  also have "\<dots> = rev q" using assms(2,3) by (intro dropWhile_id) (simp add: hd_rev)
  finally show ?thesis by simp
qed

lemma prefix_before_close:
  assumes "CHR ''}'' \<notin> set a" "CHR ''}'' \<notin> set b" "a @ CHR ''}'' # x = b @ CHR ''}'' # y"
  shows "a = b"
proof -
  have "takeWhile (\<lambda>c. c \<noteq> CHR ''}'') (a @ CHR ''}'' # x) = a"
    using assms(1) by (subst takeWhile_append2) auto
  moreover have "takeWhile (\<lambda>c. c \<noteq> CHR ''}'') (b @ CHR ''}'' # y) = b"
    using assms(2) by (subst takeWhile_append2) auto
  ultimately show ?thesis using assms(3) by simp
qed

lemma ws_no_close: "list_all is_js_space w \<Longrightarrow> CHR ''}'' \<notin> set w"
  by (auto simp: list_all_iff is_js_space_ascii)

lemma match_tail_other:
  assumes p: "clean_name p" and q: "clean_name q" and w2: "list_all is_js_space w2"
    and m: "match_tail p (q @ w2 @ ''}}'' @ s) = Some n"
  shows "p = q"
proof -
  from match_tail_Some_split [OF m] obtain u rest where
    eq: "q @ w2 @ ''}}'' @ s = p @ u @ ''}}'' @ rest" and u: "list_all is_js_space u" by blast
  have cq: "CHR ''}'' \<notin> set q" and cp: "CHR ''}'' \<notin> set p"
    using p q by (simp_all add: clean_name_def regex_literal_no_braces)
  have "q @ w2 = p @ u"
    using prefix_before_close [of "q @ w2" "p @ u"] eq cq cp ws_no_close [OF w2] ws_no_close [OF u]
    by simp
  have sq: "rev (dropWhile is_js_space (rev (q @ w2))) = q"
    using q by (intro strip_trailing_ws [OF w2]) (simp_all add: clean_name_def)
  have sp: "rev (dropWhile is_js_space (rev (p @ u))) = p"
    using p by (intro strip_trailing_ws [OF u]) (simp_all add: clean_name_def)
  from \<open>q @ w2 = p @ u\<close> sq sp show ?thesis by metis
qed

lemma wf_slot_ws_len:
  assumes "wf_segment (Slot w1 q w2)"
  shows "ws_len (w1 @ q @ z) = length w1"
  using assms by (intro ws_len_append) (auto simp: clean_name_def hd_append)

lemma match_at_slot_other:
  assumes slot: "wf_segment (Slot w1 q w2)" and p: "clean_name p" and ne: "q \<noteq> p"
  shows "match_at p (seg_source (Slot w1 q w2) @ s) = None"
proof -
  let ?x = "w1 @ q @ w2 @ ''}}'' @ s"
  from slot have w1: "list_all is_js_space w1" and w2: "list_all is_js_space w2"
    and q: "clean_name q" by auto
  have "match_tail p (drop j ?x) = None" if j: "j \<le> length w1" for j
  proof (cases "j < length w1")
    case True
    then have "hd (drop j ?x) = w1 ! j" by (simp add: hd_drop_conv_nth nth_append)
    moreover have "is_js_space (w1 ! j)" using w1 True by (simp add: list_all_length)
    moreover have "drop j ?x \<noteq> []" using True by simp
    ultimately show ?thesis using p by (metis match_tail_ws_start)
  next
    case False
    with j have "drop j ?x = q @ w2 @ ''}}'' @ s" by simp
    moreover have "match_tail p (q @ w2 @ ''}}'' @ s) = None"
      using match_tail_other [OF p q w2] ne by (cases "match_tail p (q @ w2 @ ''}}'' @ s)") auto
    ultimately show ?thesis by simp
  qed
  then have "match_lead p ?x (ws_len ?x) = None"
    using wf_slot_ws_len [OF slot] by (intro match_lead_none) simp
  then show ?thesis by (simp add: match_at_def)
qed

lemma match_at_open_single: "d \<noteq> CHR ''{'' \<Longrightarrow> match_at p (CHR ''{'' # d # s) = None"
  by (simp add: match_at_def eval_nat_numeral)

lemma seg_source_slot_Cons:
  "seg_source (Slot w1 q w2) @ s = CHR ''{'' # CHR ''{'' # (w1 @ q @ w2 @ ''}}'' @ s)"
  by simp

lemma replace_all_slot_same:
  assumes "wf_segment (Slot w1 p w2)" "CHR ''$'' \<notin> set r"
  shows "replace_all p r before (seg_source (Slot w1 p w2) @ s)
         = r @ replace_all p r (before @ seg_source (Slot w1 p w2)) s"
proof -
  let ?x = "seg_source (Slot w1 p w2)"
  have m: "match_at p (?x @ s) = Some (length ?x)" using assms(1) by (rule match_at_slot_same)
  show ?thesis
    using m expand_replacement_plain [OF assms(2)] by (simp only: seg_source_slot_Cons) simp
qed

text \<open>In general the slot is replaced by the expansion of the replacement string, with
  the slot as the matched text.\<close>

lemma replace_all_slot_expand:
  assumes "wf_segment (Slot w1 p w2)"
  shows "replace_all p r before (seg_source (Slot w1 p w2) @ s)
         = expand_replacement r (seg_source (Slot w1 p w2)) before s
           @ replace_all p r (before @ seg_source (Slot w1 p w2)) s"
proof -
  let ?x = "seg_source (Slot w1 p w2)"
  have m: "match_at p (?x @ s) = Some (length ?x)" using assms by (rule match_at_slot_same)
  show ?thesis using m by (simp only: seg_source_slot_Cons) simp
qed

lemma replace_all_slot_other:
  assumes slot: "wf_segment (Slot w1 q w2)" and p: "clean_name p" and ne: "q \<noteq> p"
  shows "replace_all p r before (seg_source (Slot w1 q w2) @ s)
         = seg_source (Slot w1 q w2) @ replace_all p r (before @ seg_source (Slot w1 q w2)) s"
proof -
  from slot have w1: "list_all is_js_space w1" and q: "clean_name q" by auto
  have body: "CHR ''{'' \<notin> set (w1 @ q @ w2 @ ''}}'')"
    using slot by (auto simp: list_all_iff is_js_space_ascii clean_name_def regex_literal_no_braces)
  have ne_body: "w1 @ q @ w2 @ ''}}'' @ s \<noteq> []" by simp
  have "hd (w1 @ q @ w2 @ ''}}'' @ s) \<in> set (w1 @ q)"
    using q by (cases w1) (auto simp: clean_name_def)
  then have hd_body: "hd (w1 @ q @ w2 @ ''}}'' @ s) \<noteq> CHR ''{''" using body by auto
  obtain d t where dt: "w1 @ q @ w2 @ ''}}'' @ s = d # t" using ne_body by (cases "w1 @ q @ w2 @ ''}}'' @ s") auto
  with hd_body have d: "d \<noteq> CHR ''{''" by simp
  have m0: "match_at p (seg_source (Slot w1 q w2) @ s) = None"
    using slot p ne by (rule match_at_slot_other)
  have m1: "match_at p (CHR ''{'' # w1 @ q @ w2 @ ''}}'' @ s) = None"
    using match_at_open_single [OF d] dt by simp
  have rest: "replace_all p r (before @ ''{{'') ((w1 @ q @ w2 @ ''}}'') @ s)
      = (w1 @ q @ w2 @ ''}}'') @ replace_all p r (before @ ''{{'' @ w1 @ q @ w2 @ ''}}'') s"
    using replace_all_text [OF body] by simp
  show ?thesis using m0 m1 rest by (simp only: seg_source_slot_Cons) simp
qed

lemma source_of_Cons [simp]: "source_of (x # xs) = seg_source x @ source_of xs"
  by (simp add: source_of_def)

lemma source_of_Nil [simp]: "source_of [] = []"
  by (simp add: source_of_def)

lemma replace_all_segments:
  "list_all wf_segment segs \<Longrightarrow> clean_name p \<Longrightarrow> CHR ''$'' \<notin> set r \<Longrightarrow>
   replace_all p r before (source_of segs) = source_of (map (subst_slot p r) segs)"
proof (induction segs arbitrary: before)
  case Nil
  then show ?case by simp
next
  case (Cons x segs)
  then have IH: "\<And>b. replace_all p r b (source_of segs) = source_of (map (subst_slot p r) segs)"
    by simp
  show ?case
  proof (cases x)
    case (Text t)
    with Cons.prems have "CHR ''{'' \<notin> set t" by simp
    with Text IH show ?thesis by (simp add: replace_all_text)
  next
    case (Slot w1 q w2)
    with Cons.prems have slot: "wf_segment (Slot w1 q w2)" by simp
    show ?thesis
    proof (cases "q = p")
      case True
      have "replace_all p r before (seg_source x @ source_of segs)
            = r @ replace_all p r (before @ seg_source x) (source_of segs)"
        using replace_all_slot_same slot Cons.prems(3) True Slot by blast
      with True Slot IH show ?thesis by (simp only: source_of_Cons list.map) simp
    next
      case False
      have "replace_all p r before (seg_source x @ source_of segs)
            = seg_source x @ replace_all p r (before @ seg_source x) (source_of segs)"
        using replace_all_slot_other slot Cons.prems(2) False Slot by blast
      with False Slot IH show ?thesis by (simp only: source_of_Cons list.map) simp
    qed
  qed
qed

lemma fill_segment_empty: "fill_segment Map.empty x = seg_source x"
  by (cases x) simp_all

lemma render_empty: "render Map.empty segs = source_of segs"
  by (induction segs) (simp_all add: render_def source_of_def fill_segment_empty)

lemma fill_subst_slot: "fill_segment \<sigma> (subst_slot p v x) = fill_segment (\<sigma>(p \<mapsto> v)) x"
  by (cases x) simp_all

lemma render_subst_slot: "render \<sigma> (map (subst_slot p v) segs) = render (\<sigma>(p \<mapsto> v)) segs"
  by (simp add: render_def comp_def fill_subst_slot)

lemma wf_subst_slot:
  "list_all wf_segment segs \<Longrightarrow> CHR ''{'' \<notin> set v \<Longrightarrow> list_all wf_segment (map (subst_slot p v) segs)"
proof -
  assume "list_all wf_segment segs" "CHR ''{'' \<notin> set v"
  moreover have "wf_segment x \<Longrightarrow> CHR ''{'' \<notin> set v \<Longrightarrow> wf_segment (subst_slot p v x)" for x
    by (cases x) auto
  ultimately show ?thesis by (simp add: list_all_iff)
qed

lemma mapping_table_Cons:
  "mapping_table row (m # ms) =
     (mapping_table row ms)(placeholder m \<mapsto> js_to_string (row_value row (dataField m)))"
  by (simp add: mapping_table_def)

lemma apply_mappings_segments:
  "list_all wf_segment segs \<Longrightarrow> list_all (mapping_ok row) ms \<Longrightarrow>
   apply_mappings row ms (source_of segs) = Inr (render (mapping_table row ms) segs)"
proof (induction ms arbitrary: segs)
  case Nil
  then show ?case by (simp add: render_empty mapping_table_def)
next
  case (Cons m ms)
  let ?p = "placeholder m" and ?v = "js_to_string (row_value row (dataField m))"
  from Cons.prems(2) have m: "mapping_ok row m" and rest: "list_all (mapping_ok row) ms"
    by simp_all
  from m have ok: "clean_name ?p" "safe_value ?v" by (simp_all add: mapping_ok_def)
  from ok have lit: "regex_literal ?p" and nd: "CHR ''$'' \<notin> set ?v" and nb: "CHR ''{'' \<notin> set ?v"
    by (simp_all add: clean_name_def safe_value_def)
  have step: "replace_all ?p ?v [] (source_of segs) = source_of (map (subst_slot ?p ?v) segs)"
    using Cons.prems(1) ok(1) nd by (rule replace_all_segments)
  have wf': "list_all wf_segment (map (subst_slot ?p ?v) segs)"
    using Cons.prems(1) nb by (rule wf_subst_slot)
  have "apply_mappings row (m # ms) (source_of segs)
        = apply_mappings row ms (source_of (map (subst_slot ?p ?v) segs))"
    using lit step by (simp add: Let_def)
  also have "\<dots> = Inr (render (mapping_table row ms) (map (subst_slot ?p ?v) segs))"
    using wf' rest by (rule Cons.IH)
  also have "\<dots> = Inr (render (mapping_table row (m # ms)) segs)"
    by (simp add: render_subst_slot mapping_table_Cons)
  finally show ?case .
qed

lemma apply_mappings_row_value:
  "row_value r1 = row_value r2 \<Longrightarrow> apply_mappings r1 ms s = apply_mappings r2 ms s"
  by (induction ms arbitrary: s) (simp_all add: Let_def)

lemma row_value_upd_same:
  "js_falsy v \<Longrightarrow> js_falsy w \<Longrightarrow> row_value (row(f \<mapsto> v)) = row_value (row(f \<mapsto> w))"
  by (auto simp: row_value_def)

lemma render_no_open:
  assumes "list_all wf_segment segs" "set (slot_names segs) \<subseteq> dom \<sigma>"
    and "\<And>p v. \<sigma> p = Some v \<Longrightarrow> CHR ''{'' \<notin> set v"
  shows "CHR ''{'' \<notin> set (render \<sigma> segs)"
  using assms
proof (induction segs)
  case Nil
  then show ?case by (simp add: render_def)
next
  case (Cons x segs)
  then have rest: "CHR ''{'' \<notin> set (render \<sigma> segs)" by (simp add: slot_names_def)
  have "CHR ''{'' \<notin> set (fill_segment \<sigma> x)"
  proof (cases x)
    case (Text t)
    with Cons.prems show ?thesis by simp
  next
    case (Slot w1 q w2)
    with Cons.prems obtain v where "\<sigma> q = Some v" by (auto simp: slot_names_def)
    with Slot Cons.prems(3) show ?thesis by simp
  qed
  with rest show ?case by (simp add: render_def)
qed

lemma mapping_table_Some:
  "mapping_table row ms p = Some v \<Longrightarrow>
   \<exists>m \<in> set ms. placeholder m = p \<and> v = js_to_string (row_value row (dataField m))"
  by (auto simp: mapping_table_def dest!: map_of_SomeD)

lemma dom_mapping_table: "dom (mapping_table row ms) = set (map placeholder ms)"
  by (simp add: mapping_table_def dom_map_of_conv_image_fst image_image)

lemma mapping_table_safe:
  "list_all (mapping_ok row) ms \<Longrightarrow> mapping_table row ms p = Some v \<Longrightarrow> CHR ''{'' \<notin> set v"
  by (fastforce simp: list_all_iff mapping_ok_def safe_value_def dest: mapping_table_Some)

lemma apply_mappings_error:
  "(\<exists>e. apply_mappings row ms s = Inl e) \<longleftrightarrow> \<not> list_all (\<lambda>m. regex_literal (placeholder m)) ms"
  by (induction ms arbitrary: s) (simp_all add: Let_def)

lemmas merge_eval = merge_single_document_def match_at_def match_tail_def ws_len_def
  regex_literal_def js_regex_meta_def is_js_space_def

section \<open>Properties\<close>

text \<open>
  C1. Refinement: on a well-formed template, with literal placeholder names and values
  free of \<open>$\<close> and \<open>{\<close>, \<open>mergeSingleDocument\<close> computes the specification: every
  slot of a mapped name becomes the value of the first mapping for that name (the row's
  value, or the empty string when it is missing or falsy), unmapped slots stay as they are.
\<close>

theorem merge_single_document_refines:
  assumes "content t = source_of segs" "list_all wf_segment segs" "list_all (mapping_ok row) ms"
  shows "merge_single_document t row ms = Inr (render (mapping_table row ms) segs)"
  using assms apply_mappings_segments by (simp add: merge_single_document_def)

theorem merge_single_document_refines_witness:
  "content (plain_template ''Hi {{ Name }}!'') = source_of [Text ''Hi '', Slot '' '' ''Name'' '' '', Text ''!''] \<and>
   list_all wf_segment [Text ''Hi '', Slot '' '' ''Name'' '' '', Text ''!''] \<and>
   list_all (mapping_ok [''n'' \<mapsto> JStr ''Ann'']) [\<lparr>placeholder = ''Name'', dataField = ''n''\<rparr>] \<and>
   merge_single_document (plain_template ''Hi {{ Name }}!'') [''n'' \<mapsto> JStr ''Ann'']
     [\<lparr>placeholder = ''Name'', dataField = ''n''\<rparr>]
   = Inr (render (mapping_table [''n'' \<mapsto> JStr ''Ann''] [\<lparr>placeholder = ''Name'', dataField = ''n''\<rparr>])
            [Text ''Hi '', Slot '' '' ''Name'' '' '', Text ''!''])"
proof -
  have h1: "content (plain_template ''Hi {{ Name }}!'') = source_of [Text ''Hi '', Slot '' '' ''Name'' '' '', Text ''!'']"
    by simp
  have h2: "list_all wf_segment [Text ''Hi '', Slot '' '' ''Name'' '' '', Text ''!'']"
    by (simp add: clean_name_def regex_literal_def js_regex_meta_def is_js_space_def)
  have h3: "list_all (mapping_ok [''n'' \<mapsto> JStr ''Ann'']) [\<lparr>placeholder = ''Name'', dataField = ''n''\<rparr>]"
    by (simp add: mapping_ok_def clean_name_def regex_literal_def js_regex_meta_def
        is_js_space_def safe_value_def)
  show ?thesis using h1 h2 h3 merge_single_document_refines [OF h1 h2 h3] by blast
qed

text \<open>
  C2. When every slot name of the template is mapped (under the conditions of the refinement theorem), the
  merged document contains no \<open>{\<close> at all: no placeholder delimiter is left.
\<close>

theorem merge_no_placeholder_left:
  assumes "content t = source_of segs" "list_all wf_segment segs" "list_all (mapping_ok row) ms"
    and "set (slot_names segs) \<subseteq> set (map placeholder ms)"
  shows "\<exists>out. merge_single_document t row ms = Inr out \<and> CHR ''{'' \<notin> set out"
proof -
  have "CHR ''{'' \<notin> set (render (mapping_table row ms) segs)"
    using assms(2,4) mapping_table_safe [OF assms(3)]
    by (intro render_no_open) (simp_all add: dom_mapping_table)
  with merge_single_document_refines [OF assms(1-3)] show ?thesis by blast
qed

theorem merge_no_placeholder_left_witness:
  "content (plain_template ''{{A}} and {{ B }}'') = source_of [Slot [] ''A'' [], Text '' and '', Slot '' '' ''B'' '' ''] \<and>
   list_all wf_segment [Slot [] ''A'' [], Text '' and '', Slot '' '' ''B'' '' ''] \<and>
   list_all (mapping_ok [''a'' \<mapsto> JStr ''x'']) [\<lparr>placeholder = ''A'', dataField = ''a''\<rparr>, \<lparr>placeholder = ''B'', dataField = ''b''\<rparr>] \<and>
   set (slot_names [Slot [] ''A'' [], Text '' and '', Slot '' '' ''B'' '' ''])
     \<subseteq> set (map placeholder [\<lparr>placeholder = ''A'', dataField = ''a''\<rparr>, \<lparr>placeholder = ''B'', dataField = ''b''\<rparr>]) \<and>
   (\<exists>out. merge_single_document (plain_template ''{{A}} and {{ B }}'') [''a'' \<mapsto> JStr ''x'']
            [\<lparr>placeholder = ''A'', dataField = ''a''\<rparr>, \<lparr>placeholder = ''B'', dataField = ''b''\<rparr>]
          = Inr out \<and> CHR ''{'' \<notin> set out)"
proof -
  have h1: "content (plain_template ''{{A}} and {{ B }}'') = source_of [Slot [] ''A'' [], Text '' and '', Slot '' '' ''B'' '' '']"
    by simp
  have h2: "list_all wf_segment [Slot [] ''A'' [], Text '' and '', Slot '' '' ''B'' '' '']"
    by (simp add: clean_name_def regex_literal_def js_regex_meta_def is_js_space_def)
  have h3: "list_all (mapping_ok [''a'' \<mapsto> JStr ''x'']) [\<lparr>placeholder = ''A'', dataField = ''a''\<rparr>, \<lparr>placeholder = ''B'', dataField = ''b''\<rparr>]"
    by (simp add: mapping_ok_def clean_name_def regex_literal_def js_regex_meta_def
        is_js_space_def safe_value_def)
  have h4: "set (slot_names [Slot [] ''A'' [], Text '' and '', Slot '' '' ''B'' '' ''])
     \<subseteq> set (map placeholder [\<lparr>placeholder = ''A'', dataField = ''a''\<rparr>, \<lparr>placeholder = ''B'', dataField = ''b''\<rparr>])"
    by (simp add: slot_names_def)
  show ?thesis using h1 h2 h3 h4 merge_no_placeholder_left [OF h1 h2 h3 h4] by blast
qed

text \<open>
  C3. Missing-field substitution: a row without the mapped field merges exactly as a row
  whose field holds the empty string; for the design's example, \<open>Hello {{Name}}\<close> with
  \<open>Name \<rightarrow> fullname\<close> and an empty row gives \<open>Hello \<close>.
\<close>

theorem merge_missing_field_is_empty:
  assumes "row f = None"
  shows "merge_single_document t row ms = merge_single_document t (row(f \<mapsto> JStr [])) ms"
proof -
  have "row_value row = row_value (row(f \<mapsto> JStr []))"
    using assms by (simp add: row_value_def fun_eq_iff)
  then show ?thesis unfolding merge_single_document_def by (rule apply_mappings_row_value)
qed

theorem merge_missing_field_is_empty_witness:
  "(Map.empty :: data_row) ''fullname'' = None \<and>
   merge_single_document (plain_template ''Hello {{Name}}'') Map.empty
     [\<lparr>placeholder = ''Name'', dataField = ''fullname''\<rparr>]
   = merge_single_document (plain_template ''Hello {{Name}}'') [''fullname'' \<mapsto> JStr []]
       [\<lparr>placeholder = ''Name'', dataField = ''fullname''\<rparr>] \<and>
   merge_single_document (plain_template ''Hello {{Name}}'') Map.empty
     [\<lparr>placeholder = ''Name'', dataField = ''fullname''\<rparr>] = Inr ''Hello ''"
proof -
  have h: "(Map.empty :: data_row) ''fullname'' = None" by simp
  have "merge_single_document (plain_template ''Hello {{Name}}'') Map.empty
     [\<lparr>placeholder = ''Name'', dataField = ''fullname''\<rparr>] = Inr ''Hello ''"
    by (simp add: merge_eval)
  with merge_missing_field_is_empty [OF h, of "plain_template ''Hello {{Name}}''"
      "[\<lparr>placeholder = ''Name'', dataField = ''fullname''\<rparr>]"]
  show ?thesis by simp
qed

text \<open>
  C4. Whitespace tolerance: \<open>{{ w1 name w2 }}\<close> with blanks \<open>w1\<close>, \<open>w2\<close> is replaced
  by the mapped value; the design's example \<open>{{ Name }}\<close> with \<open>Name \<rightarrow> n\<close> and
  \<open>n = Ann\<close> renders \<open>Ann\<close>.
\<close>

theorem merge_whitespace_tolerant:
  assumes "list_all is_js_space w1" "list_all is_js_space w2" "clean_name p"
    and "safe_value (js_to_string (row_value row f))"
  shows "merge_single_document (plain_template (''{{'' @ w1 @ p @ w2 @ ''}}'')) row
           [\<lparr>placeholder = p, dataField = f\<rparr>] = Inr (js_to_string (row_value row f))"
proof -
  have c: "content (plain_template (''{{'' @ w1 @ p @ w2 @ ''}}'')) = source_of [Slot w1 p w2]"
    by simp
  have w: "list_all wf_segment [Slot w1 p w2]" using assms by simp
  have o: "list_all (mapping_ok row) [\<lparr>placeholder = p, dataField = f\<rparr>]"
    using assms by (simp add: mapping_ok_def)
  have "merge_single_document (plain_template (''{{'' @ w1 @ p @ w2 @ ''}}'')) row
          [\<lparr>placeholder = p, dataField = f\<rparr>]
        = Inr (render (mapping_table row [\<lparr>placeholder = p, dataField = f\<rparr>]) [Slot w1 p w2])"
    by (rule merge_single_document_refines [OF c w o])
  then show ?thesis by (simp add: render_def mapping_table_def)
qed

theorem merge_whitespace_tolerant_witness:
  "list_all is_js_space '' '' \<and> list_all is_js_space '' '' \<and> clean_name ''Name'' \<and>
   safe_value (js_to_string (row_value [''n'' \<mapsto> JStr ''Ann''] ''n'')) \<and>
   merge_single_document (plain_template (''{{'' @ '' '' @ ''Name'' @ '' '' @ ''}}'')) [''n'' \<mapsto> JStr ''Ann'']
     [\<lparr>placeholder = ''Name'', dataField = ''n''\<rparr>] = Inr ''Ann''"
proof -
  have h: "list_all is_js_space '' ''" "clean_name ''Name''"
    "safe_value (js_to_string (row_value [''n'' \<mapsto> JStr ''Ann''] ''n''))"
    by (simp_all add: is_js_space_def clean_name_def regex_literal_def js_regex_meta_def safe_value_def)
  show ?thesis using h merge_whitespace_tolerant [OF h(1) h(1) h(2) h(3)] by simp
qed

text \<open>
  C31. A number zero in the row is falsy for \<open>||\<close>: the row merges exactly as if the
  field held the empty string, so \<open>Count: {{n}}\<close> with \<open>n = 0\<close> renders
  \<open>Count: \<close>, not \<open>Count: 0\<close>.
\<close>

theorem merge_zero_is_empty:
  "merge_single_document t (row(f \<mapsto> JNum 0)) ms = merge_single_document t (row(f \<mapsto> JStr [])) ms \<and>
   merge_single_document (plain_template ''Count: {{n}}'') [''n'' \<mapsto> JNum 0]
     [\<lparr>placeholder = ''n'', dataField = ''n''\<rparr>] = Inr ''Count: ''"
proof -
  have "row_value (row(f \<mapsto> JNum 0)) = row_value (row(f \<mapsto> JStr []))"
    by (simp add: row_value_upd_same)
  then have "merge_single_document t (row(f \<mapsto> JNum 0)) ms = merge_single_document t (row(f \<mapsto> JStr [])) ms"
    unfolding merge_single_document_def by (rule apply_mappings_row_value)
  moreover have "merge_single_document (plain_template ''Count: {{n}}'') [''n'' \<mapsto> JNum 0]
     [\<lparr>placeholder = ''n'', dataField = ''n''\<rparr>] = Inr ''Count: ''"
    by (simp add: merge_eval)
  ultimately show ?thesis by blast
qed

text \<open>
  C32. Replacement patterns: a data value is read as a replacement pattern, for every
  placeholder \<open>{{ w1 name w2 }}\<close>: a value \<open>$$v\<close> renders \<open>$v\<close>, and the value
  \<open>$&\<close> puts the matched placeholder itself back into the document.
\<close>

theorem merge_dollar_patterns:
  assumes "list_all is_js_space w1" "list_all is_js_space w2" "clean_name p" "CHR ''$'' \<notin> set v"
  shows "merge_single_document (plain_template (''{{'' @ w1 @ p @ w2 @ ''}}'')) [f \<mapsto> JStr (''$$'' @ v)]
           [\<lparr>placeholder = p, dataField = f\<rparr>] = Inr (''$'' @ v) \<and>
         merge_single_document (plain_template (''{{'' @ w1 @ p @ w2 @ ''}}'')) [f \<mapsto> JStr ''$&'']
           [\<lparr>placeholder = p, dataField = f\<rparr>] = Inr (''{{'' @ w1 @ p @ w2 @ ''}}'')"
proof -
  have w: "wf_segment (Slot w1 p w2)" using assms by simp
  have lit: "regex_literal p" using assms(3) by (simp add: clean_name_def)
  have src: "''{{'' @ w1 @ p @ w2 @ ''}}'' = seg_source (Slot w1 p w2) @ []" by simp
  have r: "replace_all p r [] (''{{'' @ w1 @ p @ w2 @ ''}}'') =
           expand_replacement r (''{{'' @ w1 @ p @ w2 @ ''}}'') [] []" for r
    using replace_all_slot_expand [OF w, of r "[]" "[]"] by (simp only: src) simp
  have e1: "expand_replacement (''$$'' @ v) m b a = ''$'' @ v" for m b a
    using assms(4) by (simp add: expand_replacement_plain)
  have e2: "expand_replacement ''$&'' m b a = m" for m b a by simp
  show ?thesis using lit r e1 e2 by (simp add: merge_single_document_def)
qed

theorem merge_dollar_patterns_witness:
  "list_all is_js_space [] \<and> clean_name ''Price'' \<and> CHR ''$'' \<notin> set ''5'' \<and>
   merge_single_document (plain_template ''{{Price}}'') [''Price'' \<mapsto> JStr ''$$5'']
     [\<lparr>placeholder = ''Price'', dataField = ''Price''\<rparr>] = Inr ''$5''"
proof -
  have h: "list_all is_js_space []" "clean_name ''Price''" "CHR ''$'' \<notin> set ''5''"
    by (simp_all add: clean_name_def regex_literal_def js_regex_meta_def is_js_space_def)
  from merge_dollar_patterns [OF h(1) h(1) h(2) h(3), of "''Price''"] h show ?thesis by simp
qed

text \<open>
  C33. Values are scanned again by later mappings: when the value substituted for a
  placeholder \<open>a\<close> spells the placeholder \<open>{{b}}\<close> of a later mapping, the pass for
  \<open>b\<close> replaces it too, so \<open>{{a}}\<close> renders the value of \<open>b\<close>.
\<close>

theorem merge_rescans_values:
  assumes "clean_name a" "clean_name b" "a \<noteq> b" "fa \<noteq> fb" "v \<noteq> []" "CHR ''$'' \<notin> set v"
  shows "merge_single_document (plain_template (''{{'' @ a @ ''}}''))
           [fa \<mapsto> JStr (''{{'' @ b @ ''}}''), fb \<mapsto> JStr v]
           [\<lparr>placeholder = a, dataField = fa\<rparr>, \<lparr>placeholder = b, dataField = fb\<rparr>] = Inr v"
proof -
  have wa: "wf_segment (Slot [] a [])" and wb: "wf_segment (Slot [] b [])" using assms by simp_all
  have la: "regex_literal a" and lb: "regex_literal b" using assms(1,2) by (simp_all add: clean_name_def)
  have nb: "CHR ''$'' \<notin> set (''{{'' @ b @ ''}}'')" using regex_literal_no_braces [OF lb] by simp
  have "replace_all a (''{{'' @ b @ ''}}'') [] (seg_source (Slot [] a []) @ []) = ''{{'' @ b @ ''}}''"
    using replace_all_slot_same [OF wa nb, of "[]" "[]"] by simp
  then have s1: "replace_all a (''{{'' @ b @ ''}}'') [] (''{{'' @ a @ ''}}'') = ''{{'' @ b @ ''}}''" by simp
  have "replace_all b v [] (seg_source (Slot [] b []) @ []) = v"
    using replace_all_slot_same [OF wb assms(6), of "[]" "[]"] by simp
  then have s2: "replace_all b v [] (''{{'' @ b @ ''}}'') = v" by simp
  show ?thesis using la lb s1 s2 assms(4,5) by (simp add: merge_single_document_def del: replace_all.simps)
qed

theorem merge_rescans_values_witness:
  "merge_single_document (plain_template ''{{A}}'') [''A'' \<mapsto> JStr ''{{B}}'', ''B'' \<mapsto> JStr ''x'']
     [\<lparr>placeholder = ''A'', dataField = ''A''\<rparr>, \<lparr>placeholder = ''B'', dataField = ''B''\<rparr>] = Inr ''x''"
proof -
  have h: "clean_name ''A''" "clean_name ''B''"
    by (simp_all add: clean_name_def regex_literal_def js_regex_meta_def is_js_space_def)
  from merge_rescans_values [OF h, of "''A''" "''B''" "''x''"] show ?thesis by simp
qed

text \<open>The merge fails exactly when some mapping's placeholder name is not literal for the
  regular-expression constructor. The model does not interpret such a name: in
  JavaScript it may throw (\<open>a(b\<close>) or compile to a pattern that matches other text
  (\<open>a.b\<close>, \<open>a|b\<close>); \<open>Inl\<close> marks a merge outside the modelled fragment.\<close>

lemma merge_single_document_error:
  "(\<exists>e. merge_single_document t row ms = Inl e) \<longleftrightarrow>
   \<not> list_all (\<lambda>m. regex_literal (placeholder m)) ms"
  by (simp add: merge_single_document_def apply_mappings_error)

end
