(* ===== verification/Batch_Merge.thy ===== *)
theory Batch_Merge
  imports Substitution
begin

text \<open>
  The Batch Merge Orchestrator. \<open>mergeAllDocuments\<close> (src/lib/templateUtils.ts) maps
  \<open>mergeSingleDocument\<close> over the dataset with the row index; a row whose merge throws
  aborts the whole \<open>map\<close>. The Word path (src/lib/wordDocumentUtils.ts) builds one
  name-to-value table per row (\<open>mergeWordDocument\<close>) and hands it, with the template
  file fetched once, to the document-template engine; \<open>mergeAllWordDocuments\<close> runs the
  rows through \<open>Promise.all\<close>, which keeps row order and rejects when one row rejects.
  The engine (PizZip, Docxtemplater) is a collaborator outside the repository: it is the
  parameter \<open>engine\<close>, a function from the template file and the table to a rendered
  file or an error.
\<close>

section \<open>mergeAllDocuments\<close>

text \<open>\<open>dataset.map((row, index) => ...)\<close> with \<open>id: `doc-${index}`\<close>.\<close>

fun merge_rows ::
  "template \<Rightarrow> field_mapping list \<Rightarrow> nat \<Rightarrow> data_row list \<Rightarrow> merge_error + merged_document list" where
  "merge_rows t ms i [] = Inr []"
| "merge_rows t ms i (row # rows) =
     (case merge_single_document t row ms of
        Inl e \<Rightarrow> Inl e
      | Inr c \<Rightarrow>
          (case merge_rows t ms (Suc i) rows of
             Inl e \<Rightarrow> Inl e
           | Inr docs \<Rightarrow>
               Inr (\<lparr>doc_id = ''doc-'' @ string_of_nat i, doc_content = c, rowData = row\<rparr> # docs)))"

definition merge_all_documents ::
  "template \<Rightarrow> data_row list \<Rightarrow> field_mapping list \<Rightarrow> merge_error + merged_document list" where
  "merge_all_documents t dataset mappings = merge_rows t mappings 0 dataset"

section \<open>The Word path\<close>

text \<open>\<open>data[mapping.placeholder] = rowData[mapping.dataField] || ''''\<close> for each mapping
  in order: a later mapping of the same placeholder overwrites an earlier one.\<close>

definition word_data :: "data_row \<Rightarrow> field_mapping list \<Rightarrow> (string \<rightharpoonup> js_value)" where
  "word_data row mappings =
     foldl (\<lambda>d m. d(placeholder m \<mapsto> row_value row (dataField m))) Map.empty mappings"

type_synonym ('b, 'e) docx_render = "'b \<Rightarrow> (string \<rightharpoonup> js_value) \<Rightarrow> 'e + 'b"

definition merge_word_document ::
  "('b, 'e) docx_render \<Rightarrow> 'b \<Rightarrow> data_row \<Rightarrow> field_mapping list \<Rightarrow> 'e + 'b" where
  "merge_word_document engine blob row mappings = engine blob (word_data row mappings)"

fun merge_all_word_documents ::
  "('b, 'e) docx_render \<Rightarrow> 'b \<Rightarrow> data_row list \<Rightarrow> field_mapping list \<Rightarrow> 'e + 'b list" where
  "merge_all_word_documents engine blob [] mappings = Inr []"
| "merge_all_word_documents engine blob (row # rows) mappings =
     (case merge_word_document engine blob row mappings of
        Inl e \<Rightarrow> Inl e
      | Inr out \<Rightarrow>
          (case merge_all_word_documents engine blob rows mappings of
             Inl e \<Rightarrow> Inl e
           | Inr outs \<Rightarrow> Inr (out # outs)))"

section \<open>Lemmas\<close>

lemma merge_rows_Inr:
  "merge_rows t ms i rows = Inr docs \<Longrightarrow>
   length docs = length rows \<and>
   (\<forall>k < length rows. rowData (docs ! k) = rows ! k \<and>
      doc_id (docs ! k) = ''doc-'' @ string_of_nat (i + k) \<and>
      merge_single_document t (rows ! k) ms = Inr (doc_content (docs ! k)))"
proof (induction rows arbitrary: i docs)
  case Nil
  then show ?case by simp
next
  case (Cons row rows)
  from Cons.prems obtain c docs' where
    c: "merge_single_document t row ms = Inr c" and
    r: "merge_rows t ms (Suc i) rows = Inr docs'" and
    d: "docs = \<lparr>doc_id = ''doc-'' @ string_of_nat i, doc_content = c, rowData = row\<rparr> # docs'"
    by (auto split: sum.splits)
  from Cons.IH [OF r] c d show ?case
    by (auto simp: nth_Cons' less_Suc_eq_0_disj)
qed

lemma merge_rows_error:
  "(\<exists>e. merge_rows t ms i rows = Inl e) \<longleftrightarrow> (\<exists>row \<in> set rows. \<exists>e. merge_single_document t row ms = Inl e)"
proof (induction rows arbitrary: i)
  case Nil
  then show ?case by simp
next
  case (Cons row rows)
  show ?case
  proof (cases "merge_single_document t row ms")
    case (Inl e)
    then show ?thesis by auto
  next
    case (Inr c)
    with Cons.IH [of "Suc i"] show ?thesis by (auto split: sum.splits)
  qed
qed

lemma word_data_foldl_dom:
  "dom (foldl (\<lambda>d m. d(placeholder m \<mapsto> row_value row (dataField m))) d0 ms) = dom d0 \<union> set (map placeholder ms)"
  by (induction ms arbitrary: d0) auto

lemma merge_all_word_Inr:
  "merge_all_word_documents engine blob rows ms = Inr outs \<Longrightarrow>
   length outs = length rows \<and>
   (\<forall>k < length rows. engine blob (word_data (rows ! k) ms) = Inr (outs ! k))"
proof (induction rows arbitrary: outs)
  case Nil
  then show ?case by simp
next
  case (Cons row rows)
  from Cons.prems obtain out outs' where
    o: "engine blob (word_data row ms) = Inr out" and
    r: "merge_all_word_documents engine blob rows ms = Inr outs'" and
    d: "outs = out # outs'"
    by (auto simp: merge_word_document_def split: sum.splits)
  from Cons.IH [OF r] o d show ?case
    by (auto simp: nth_Cons' less_Suc_eq_0_disj)
qed

lemma merge_all_word_error:
  "(\<exists>e. merge_all_word_documents engine blob rows ms = Inl e) \<longleftrightarrow>
   (\<exists>row \<in> set rows. \<exists>e. engine blob (word_data row ms) = Inl e)"
  by (induction rows) (auto simp: merge_word_document_def split: sum.splits)

lemma word_data_foldl_distinct:
  "distinct (map placeholder ms) \<Longrightarrow>
   foldl (\<lambda>d m. d(placeholder m \<mapsto> row_value row (dataField m))) d0 ms p =
   (case map_of (map (\<lambda>m. (placeholder m, row_value row (dataField m))) ms) p of
      Some v \<Rightarrow> Some v | None \<Rightarrow> d0 p)"
proof (induction ms arbitrary: d0)
  case Nil
  then show ?case by simp
next
  case (Cons m ms)
  then have nd: "placeholder m \<notin> set (map placeholder ms)" and d: "distinct (map placeholder ms)"
    by simp_all
  from nd have "map_of (map (\<lambda>m. (placeholder m, row_value row (dataField m))) ms) (placeholder m) = None"
    by (simp add: map_of_eq_None_iff image_image)
  with Cons.IH [OF d] show ?case by (auto split: option.splits)
qed

lemma merge_single_document_error_iff:
  "(\<exists>e. merge_single_document t row ms = Inl e) \<longleftrightarrow> \<not> list_all (\<lambda>m. regex_literal (placeholder m)) ms"
  by (simp add: merge_single_document_def apply_mappings_error)

lemma word_data_distinct:
  "distinct (map placeholder ms) \<Longrightarrow>
   word_data row ms = map_of (map (\<lambda>m. (placeholder m, row_value row (dataField m))) ms)"
  by (rule ext) (simp add: word_data_def word_data_foldl_distinct split: option.split)

lemma map_option_map_of_pairs:
  "map_option f (map_of (map (\<lambda>x. (k x, v x)) xs) p) = map_of (map (\<lambda>x. (k x, f (v x))) xs) p"
  by (induction xs) auto

lemmas batch_eval = merge_all_documents_def merge_eval digit_char_def

section \<open>Properties\<close>

text \<open>
  C6. Order preservation: a successful batch has one document per row, in row order;
  document \<open>k\<close> carries row \<open>k\<close> as its \<open>rowData\<close>, the id \<open>doc-k\<close>, and the
  merge of row \<open>k\<close> as its content.
\<close>

theorem merge_all_documents_rows:
  assumes "merge_all_documents t dataset ms = Inr docs"
  shows "length docs = length dataset \<and>
    (\<forall>k < length dataset. rowData (docs ! k) = dataset ! k \<and>
       doc_id (docs ! k) = ''doc-'' @ string_of_nat k \<and>
       merge_single_document t (dataset ! k) ms = Inr (doc_content (docs ! k)))"
  using merge_rows_Inr [of t ms 0 dataset docs] assms by (simp add: merge_all_documents_def)

theorem merge_all_documents_rows_witness:
  "merge_all_documents (plain_template ''Hi {{Name}}'') [[''Name'' \<mapsto> JStr ''A''], [''Name'' \<mapsto> JStr ''B'']]
     [\<lparr>placeholder = ''Name'', dataField = ''Name''\<rparr>]
   = Inr [\<lparr>doc_id = ''doc-0'', doc_content = ''Hi A'', rowData = [''Name'' \<mapsto> JStr ''A'']\<rparr>,
          \<lparr>doc_id = ''doc-1'', doc_content = ''Hi B'', rowData = [''Name'' \<mapsto> JStr ''B'']\<rparr>] \<and>
   rowData ([\<lparr>doc_id = ''doc-0'', doc_content = ''Hi A'', rowData = [''Name'' \<mapsto> JStr ''A'']\<rparr>,
          \<lparr>doc_id = ''doc-1'', doc_content = ''Hi B'', rowData = [''Name'' \<mapsto> JStr ''B'']\<rparr>] ! 1)
     = [[''Name'' \<mapsto> JStr ''A''], [''Name'' \<mapsto> JStr ''B'']] ! 1"
proof -
  have h: "merge_all_documents (plain_template ''Hi {{Name}}'') [[''Name'' \<mapsto> JStr ''A''], [''Name'' \<mapsto> JStr ''B'']]
     [\<lparr>placeholder = ''Name'', dataField = ''Name''\<rparr>]
   = Inr [\<lparr>doc_id = ''doc-0'', doc_content = ''Hi A'', rowData = [''Name'' \<mapsto> JStr ''A'']\<rparr>,
          \<lparr>doc_id = ''doc-1'', doc_content = ''Hi B'', rowData = [''Name'' \<mapsto> JStr ''B'']\<rparr>]"
    by (simp add: batch_eval js_simps)
  from merge_all_documents_rows [OF h] have
    "rowData ([\<lparr>doc_id = ''doc-0'', doc_content = ''Hi A'', rowData = [''Name'' \<mapsto> JStr ''A'']\<rparr>,
          \<lparr>doc_id = ''doc-1'', doc_content = ''Hi B'', rowData = [''Name'' \<mapsto> JStr ''B'']\<rparr>] ! 1)
     = [[''Name'' \<mapsto> JStr ''A''], [''Name'' \<mapsto> JStr ''B'']] ! 1"
    by (metis One_nat_def length_Cons list.size(3) lessI numeral_2_eq_2)
  with h show ?thesis by blast
qed

text \<open>
  Failure policy: a row that throws aborts the whole batch (no row is skipped); within the
  modelled fragment this happens exactly when the dataset is non-empty and some mapping's
  placeholder is not literal.
\<close>

lemma merge_all_documents_error:
  "(\<exists>e. merge_all_documents t dataset ms = Inl e) \<longleftrightarrow>
   dataset \<noteq> [] \<and> \<not> list_all (\<lambda>m. regex_literal (placeholder m)) ms"
  by (auto simp: merge_all_documents_def merge_rows_error merge_single_document_error_iff ex_in_conv)

text \<open>
  The ids of a successful batch are pairwise distinct, so export names derived from
  the row position never collide.
\<close>

theorem merge_all_documents_ids_distinct:
  assumes "merge_all_documents t dataset ms = Inr docs"
  shows "distinct (map doc_id docs)"
proof -
  from merge_rows_Inr [of t ms 0 dataset docs] assms have
    len: "length docs = length dataset" and
    ids: "\<And>k. k < length dataset \<Longrightarrow> doc_id (docs ! k) = ''doc-'' @ string_of_nat k"
    by (simp_all add: merge_all_documents_def)
  show ?thesis
    by (auto simp: distinct_conv_nth len ids)
qed

theorem merge_all_documents_ids_distinct_witness:
  "merge_all_documents (plain_template ''x'') [Map.empty, Map.empty] [] =
     Inr [\<lparr>doc_id = ''doc-0'', doc_content = ''x'', rowData = Map.empty\<rparr>,
          \<lparr>doc_id = ''doc-1'', doc_content = ''x'', rowData = Map.empty\<rparr>] \<and>
   distinct (map doc_id [\<lparr>doc_id = ''doc-0'', doc_content = ''x'', rowData = (Map.empty :: data_row)\<rparr>,
          \<lparr>doc_id = ''doc-1'', doc_content = ''x'', rowData = Map.empty\<rparr>])"
proof -
  have h: "merge_all_documents (plain_template ''x'') [Map.empty, Map.empty] [] =
     Inr [\<lparr>doc_id = ''doc-0'', doc_content = ''x'', rowData = Map.empty\<rparr>,
          \<lparr>doc_id = ''doc-1'', doc_content = ''x'', rowData = Map.empty\<rparr>]"
    by (simp add: batch_eval js_simps)
  from h merge_all_documents_ids_distinct [OF h] show ?thesis by blast
qed

text \<open>
  The Word batch renders every row from the same template file with that row's own
  table, in row order, one output per row.
\<close>

theorem merge_all_word_documents_rows:
  assumes "merge_all_word_documents engine blob dataset ms = Inr outs"
  shows "length outs = length dataset \<and>
    (\<forall>k < length dataset. engine blob (word_data (dataset ! k) ms) = Inr (outs ! k))"
  using assms by (rule merge_all_word_Inr)

theorem merge_all_word_documents_rows_witness:
  "merge_all_word_documents (\<lambda>b d. case d ''N'' of Some v \<Rightarrow> Inr (b @ js_to_string v) | None \<Rightarrow> Inr b) ''T:''
     [[''n'' \<mapsto> JStr ''A''], [''n'' \<mapsto> JStr ''B'']] [\<lparr>placeholder = ''N'', dataField = ''n''\<rparr>]
   = (Inr [''T:A'', ''T:B''] :: unit + string list) \<and>
   length [''T:A'', ''T:B''] = length [[''n'' \<mapsto> JStr ''A''], [''n'' \<mapsto> JStr ''B'']]"
proof -
  have h: "merge_all_word_documents (\<lambda>b d. case d ''N'' of Some v \<Rightarrow> Inr (b @ js_to_string v) | None \<Rightarrow> Inr b) ''T:''
     [[''n'' \<mapsto> JStr ''A''], [''n'' \<mapsto> JStr ''B'']] [\<lparr>placeholder = ''N'', dataField = ''n''\<rparr>]
     = (Inr [''T:A'', ''T:B''] :: unit + string list)"
    by (simp add: merge_word_document_def word_data_def)
  from h merge_all_word_documents_rows [OF h] show ?thesis by blast
qed

text \<open>
  Failure policy of the Word batch: it fails exactly when the engine fails on some
  row, and then yields no file at all.
\<close>

theorem merge_all_word_documents_error:
  "(\<exists>e. merge_all_word_documents engine blob dataset ms = Inl e) \<longleftrightarrow>
   (\<exists>row \<in> set dataset. \<exists>e. engine blob (word_data row ms) = Inl e)"
  by (rule merge_all_word_error)

text \<open>
  C8. Both rendering paths agree on the values: for mappings with distinct placeholders
  the Word table, stringified, is the table the plain-text merge substitutes.
\<close>

theorem word_data_agrees_with_plain:
  assumes "distinct (map placeholder ms)"
  shows "(\<lambda>p. map_option js_to_string (word_data row ms p)) = mapping_table row ms"
proof
  fix p
  show "map_option js_to_string (word_data row ms p) = mapping_table row ms p"
    by (simp add: word_data_distinct [OF assms] mapping_table_def map_option_map_of_pairs)
qed

theorem word_data_agrees_with_plain_witness:
  "distinct (map placeholder [\<lparr>placeholder = ''A'', dataField = ''a''\<rparr>, \<lparr>placeholder = ''B'', dataField = ''b''\<rparr>]) \<and>
   map_option js_to_string (word_data [''a'' \<mapsto> JNum 7]
      [\<lparr>placeholder = ''A'', dataField = ''a''\<rparr>, \<lparr>placeholder = ''B'', dataField = ''b''\<rparr>] ''A'')
   = mapping_table [''a'' \<mapsto> JNum 7]
      [\<lparr>placeholder = ''A'', dataField = ''a''\<rparr>, \<lparr>placeholder = ''B'', dataField = ''b''\<rparr>] ''A''"
proof -
  have h: "distinct (map placeholder [\<lparr>placeholder = ''A'', dataField = ''a''\<rparr>, \<lparr>placeholder = ''B'', dataField = ''b''\<rparr>])"
    by simp
  from word_data_agrees_with_plain [OF h, of "[''a'' \<mapsto> JNum 7]"] h show ?thesis by metis
qed

end
