(* ===== verification/Field_Mapper.thy ===== *)
theory Field_Mapper
  imports Template_Types
begin

text \<open>
  The Field Mapping Resolver, the state logic of \<open>FieldMapper\<close>
  (src/components/FieldMapper.tsx): the automatic mapping proposed when the placeholder
  list or the data fields change (the \<open>useEffect\<close>), the override a selection makes
  (\<open>handleMappingChange\<close>), the lookup of a placeholder's current binding, and the
  completion predicate \<open>isComplete\<close> that gates \<open>onMappingComplete\<close>. The mapping
  state is the list \<open>mappings\<close> in the order the component holds it.
\<close>

section \<open>Operations\<close>

text \<open>One iteration of \<open>placeholders.forEach\<close>: \<open>dataFields.find\<close> with a
  case-insensitive comparison, then \<open>if (match)\<close>, under which the empty field name is
  falsy and is not bound.\<close>

definition auto_map_step :: "string list \<Rightarrow> field_mapping list \<Rightarrow> string \<Rightarrow> field_mapping list" where
  "auto_map_step dataFields acc p =
     (case find (\<lambda>f. js_to_lower f = js_to_lower p) dataFields of
        None \<Rightarrow> acc
      | Some f \<Rightarrow> if f = [] then acc else acc @ [\<lparr>placeholder = p, dataField = f\<rparr>])"

definition auto_map :: "string list \<Rightarrow> string list \<Rightarrow> field_mapping list" where
  "auto_map phs dataFields = foldl (auto_map_step dataFields) [] phs"

definition handle_mapping_change ::
  "field_mapping list \<Rightarrow> string \<Rightarrow> string \<Rightarrow> field_mapping list" where
  "handle_mapping_change prev p f =
     filter (\<lambda>m. placeholder m \<noteq> p) prev @ [\<lparr>placeholder = p, dataField = f\<rparr>]"

definition current_mapping :: "field_mapping list \<Rightarrow> string \<Rightarrow> field_mapping option" where
  "current_mapping ms p = find (\<lambda>m. placeholder m = p) ms"

definition is_complete :: "string list \<Rightarrow> field_mapping list \<Rightarrow> bool" where
  "is_complete phs ms \<longleftrightarrow> 0 < length phs \<and> length ms = length phs"

text \<open>\<open>handleComplete\<close>: the mappings handed to \<open>onMappingComplete\<close>, if any.\<close>

definition handle_complete :: "string list \<Rightarrow> field_mapping list \<Rightarrow> field_mapping list option" where
  "handle_complete phs ms = (if is_complete phs ms then Some ms else None)"

text \<open>The invariant of the mapping state: at most one binding per placeholder, and
  only placeholders of the template are bound.\<close>

definition mapping_inv :: "string list \<Rightarrow> field_mapping list \<Rightarrow> bool" where
  "mapping_inv phs ms \<longleftrightarrow>
     distinct (map placeholder ms) \<and> set (map placeholder ms) \<subseteq> set phs"

text \<open>A well-typed mapping state: the invariant, and every bound field is one of the
  dataset's fields (the select offers no other).\<close>

definition mapping_typed :: "string list \<Rightarrow> string list \<Rightarrow> field_mapping list \<Rightarrow> bool" where
  "mapping_typed phs dataFields ms \<longleftrightarrow> mapping_inv phs ms \<and> (\<forall>m \<in> set ms. dataField m \<in> set dataFields)"

section \<open>Rendering\<close>

text \<open>What the mapper shows: per placeholder, the selected field
  (\<open>currentMapping?.dataField || ""\<close>) and whether the check mark appears; the counter
  \<open>mappings.length of placeholders.length\<close>; whether Continue is enabled.\<close>

definition field_row_value :: "field_mapping list \<Rightarrow> string \<Rightarrow> string" where
  "field_row_value ms p = (case current_mapping ms p of Some m \<Rightarrow> dataField m | None \<Rightarrow> [])"

definition field_mapper_view ::
  "string list \<Rightarrow> field_mapping list \<Rightarrow> (string \<times> string \<times> bool) list \<times> nat \<times> nat \<times> bool" where
  "field_mapper_view phs ms =
     (map (\<lambda>p. (p, field_row_value ms p, current_mapping ms p \<noteq> None)) phs,
      length ms, length phs, is_complete phs ms)"

section \<open>The component\<close>

text \<open>\<open>FieldMapper\<close> as a step function: the mount effect sets the mappings to
  \<open>auto_map\<close>; a row's select offers the data fields and calls
  \<open>handleMappingChange\<close>; Continue is enabled under \<open>isComplete\<close> and hands the
  mappings to \<open>onMappingComplete\<close>.\<close>

datatype fm_event = FmSelect string string | FmContinue

fun fm_step ::
  "string list \<Rightarrow> string list \<Rightarrow> fm_event \<Rightarrow> field_mapping list \<Rightarrow>
   (field_mapping list \<times> field_mapping list option) option" where
  "fm_step phs fs (FmSelect p f) ms =
     (if p \<in> set phs \<and> f \<in> set fs then Some (handle_mapping_change ms p f, None) else None)"
| "fm_step phs fs FmContinue ms =
     (if is_complete phs ms then Some (ms, handle_complete phs ms) else None)"

fun fm_run ::
  "string list \<Rightarrow> string list \<Rightarrow> field_mapping list \<Rightarrow> fm_event list \<Rightarrow>
   (field_mapping list \<times> field_mapping list option list) option" where
  "fm_run phs fs ms [] = Some (ms, [])"
| "fm_run phs fs ms (e # es) =
     (case fm_step phs fs e ms of
        None \<Rightarrow> None
      | Some (ms', out) \<Rightarrow> map_option (\<lambda>(ms'', outs). (ms'', out # outs)) (fm_run phs fs ms' es))"

text \<open>The placeholders the automatic mapping can bind.\<close>

definition auto_mappable :: "string list \<Rightarrow> string \<Rightarrow> bool" where
  "auto_mappable dataFields p \<longleftrightarrow> (\<exists>f \<in> set dataFields. f \<noteq> [] \<and> js_to_lower f = js_to_lower p)"

section \<open>Lemmas\<close>

lemma auto_map_foldl:
  "foldl (auto_map_step fs) acc ps = acc @ foldl (auto_map_step fs) [] ps"
proof (induction ps arbitrary: acc)
  case Nil
  then show ?case by simp
next
  case (Cons p ps)
  show ?case
    using Cons.IH [of "auto_map_step fs acc p"] Cons.IH [of "auto_map_step fs [] p"]
    by (simp add: auto_map_step_def split: option.splits)
qed

lemma auto_map_Cons:
  "auto_map (p # ps) fs = auto_map_step fs [] p @ auto_map ps fs"
  unfolding auto_map_def by (simp add: auto_map_foldl [of fs "auto_map_step fs [] p"])

lemma js_to_lower_Nil [simp]: "js_to_lower s = [] \<longleftrightarrow> s = []" "js_to_lower [] = []"
  by (simp_all add: js_to_lower_def)

lemma find_lower_empty:
  "find (\<lambda>f. js_to_lower f = js_to_lower p) fs = Some [] \<Longrightarrow> p = []"
  by (auto simp: find_Some_iff js_to_lower_def)

lemma auto_map_step_Nil:
  "auto_map_step fs [] p =
     (if auto_mappable fs p
      then [\<lparr>placeholder = p, dataField = the (find (\<lambda>f. js_to_lower f = js_to_lower p) fs)\<rparr>]
      else [])"
proof (cases "find (\<lambda>f. js_to_lower f = js_to_lower p) fs")
  case None
  then have "\<not> auto_mappable fs p"
    by (auto simp: auto_mappable_def find_None_iff)
  with None show ?thesis
    by (simp add: auto_map_step_def)
next
  case (Some f)
  then have f: "f \<in> set fs" "js_to_lower f = js_to_lower p"
    by (auto simp: find_Some_iff nth_mem)
  show ?thesis
  proof (cases "f = []")
    case True
    with Some have "p = []" by (simp add: find_lower_empty)
    with True Some show ?thesis by (auto simp: auto_map_step_def auto_mappable_def)
  next
    case False
    with Some f show ?thesis by (auto simp: auto_map_step_def auto_mappable_def)
  qed
qed

lemma auto_map_placeholders:
  "map placeholder (auto_map ps fs) = filter (auto_mappable fs) ps"
  by (induction ps) (simp_all add: auto_map_Cons auto_map_step_Nil, simp add: auto_map_def)

lemma auto_mappable_find:
  assumes "auto_mappable fs p"
  obtains f where "find (\<lambda>f. js_to_lower f = js_to_lower p) fs = Some f"
    "f \<in> set fs" "js_to_lower f = js_to_lower p"
proof -
  from assms obtain g where "g \<in> set fs" "js_to_lower g = js_to_lower p"
    by (auto simp: auto_mappable_def)
  then have "find (\<lambda>f. js_to_lower f = js_to_lower p) fs \<noteq> None"
    by (auto simp: find_None_iff)
  then obtain f where f: "find (\<lambda>f. js_to_lower f = js_to_lower p) fs = Some f"
    by blast
  then have "f \<in> set fs \<and> js_to_lower f = js_to_lower p"
    by (auto simp: find_Some_iff nth_mem)
  with f that show ?thesis by blast
qed

lemma auto_map_fields:
  "m \<in> set (auto_map ps fs) \<Longrightarrow> dataField m \<in> set fs \<and> js_to_lower (dataField m) = js_to_lower (placeholder m)"
proof (induction ps)
  case Nil
  then show ?case by (simp add: auto_map_def)
next
  case (Cons p ps)
  show ?case
  proof (cases "m \<in> set (auto_map ps fs)")
    case True
    with Cons.IH show ?thesis by blast
  next
    case False
    with Cons.prems have m: "auto_mappable fs p"
      "m = \<lparr>placeholder = p, dataField = the (find (\<lambda>f. js_to_lower f = js_to_lower p) fs)\<rparr>"
      by (auto simp: auto_map_Cons auto_map_step_Nil split: if_splits)
    from m(1) obtain f where "find (\<lambda>f. js_to_lower f = js_to_lower p) fs = Some f"
      "f \<in> set fs" "js_to_lower f = js_to_lower p"
      by (rule auto_mappable_find)
    with m(2) show ?thesis by simp
  qed
qed

lemma filter_placeholder_map:
  "map placeholder (filter (\<lambda>m. placeholder m \<noteq> p) ms) = filter (\<lambda>q. q \<noteq> p) (map placeholder ms)"
  by (induction ms) auto

lemma find_filter_snoc:
  "find (\<lambda>m. placeholder m = q) (filter (\<lambda>m. placeholder m \<noteq> p) ms @ [\<lparr>placeholder = p, dataField = f\<rparr>]) =
   (if q = p then Some \<lparr>placeholder = p, dataField = f\<rparr> else find (\<lambda>m. placeholder m = q) ms)"
  by (induction ms) auto

lemma distinct_length_set_eq:
  assumes "distinct xs" "distinct ys" "set xs \<subseteq> set ys"
  shows "length xs = length ys \<longleftrightarrow> set xs = set ys"
  using assms by (metis card_subset_eq distinct_card finite_set)

lemma handle_mapping_change_fields:
  "set (handle_mapping_change ms p f) \<subseteq> set ms \<union> {\<lparr>placeholder = p, dataField = f\<rparr>}"
  by (auto simp: handle_mapping_change_def)

lemmas mapping_defs = handle_mapping_change_def current_mapping_def mapping_inv_def

lemma mapping_inv_change:
  "mapping_inv ps ms \<Longrightarrow> p \<in> set ps \<Longrightarrow> mapping_inv ps (handle_mapping_change ms p f)"
  by (auto simp: mapping_defs filter_placeholder_map distinct_map_filter)

text \<open>Every mapping list the mapper hands on satisfies the invariant and passes
  \<open>isComplete\<close>.\<close>

lemma fm_run_outputs:
  assumes "fm_run phs fs ms evs = Some (ms', outs)" "mapping_inv phs ms"
  shows "mapping_inv phs ms' \<and> (\<forall>m. Some m \<in> set outs \<longrightarrow> mapping_inv phs m \<and> is_complete phs m)"
  using assms
proof (induction evs arbitrary: ms outs)
  case Nil
  then show ?case by simp
next
  case (Cons e es)
  from Cons.prems(1) obtain ms1 out outs' where st: "fm_step phs fs e ms = Some (ms1, out)"
    and r: "fm_run phs fs ms1 es = Some (ms', outs')" and o: "outs = out # outs'"
    by (auto split: option.splits prod.splits)
  have "mapping_inv phs ms1 \<and> (\<forall>m. out = Some m \<longrightarrow> mapping_inv phs m \<and> is_complete phs m)"
  proof (cases e)
    case (FmSelect p f)
    with st have "p \<in> set phs" "ms1 = handle_mapping_change ms p f" "out = None"
      by (simp_all split: if_splits)
    with Cons.prems(2) show ?thesis by (simp add: mapping_inv_change)
  next
    case FmContinue
    with st Cons.prems(2) show ?thesis by (auto simp: handle_complete_def split: if_splits)
  qed
  then have i: "mapping_inv phs ms1"
    and out: "\<forall>m. out = Some m \<longrightarrow> mapping_inv phs m \<and> is_complete phs m" by simp_all
  from Cons.IH [OF r i] out o show ?case by auto
qed

section \<open>Properties\<close>

text \<open>
  C27. Automatic mapping: the proposal binds, in placeholder order, exactly the
  placeholders for which a data field with the same lower-case form and a non-empty name
  exists, each to such a field.
\<close>

theorem auto_map_binds:
  "map placeholder (auto_map ps fs) = filter (auto_mappable fs) ps \<and>
   (\<forall>m \<in> set (auto_map ps fs). dataField m \<in> set fs \<and> js_to_lower (dataField m) = js_to_lower (placeholder m))"
  using auto_map_placeholders auto_map_fields by blast

theorem auto_map_binds_witness:
  "map placeholder (auto_map [''Name'', ''city''] [''name'', ''Email''])
     = filter (auto_mappable [''name'', ''Email'']) [''Name'', ''city''] \<and>
   dataField (hd (auto_map [''Name'', ''city''] [''name'', ''Email''])) \<in> set [''name'', ''Email'']"
proof -
  have h: "auto_map [''Name'', ''city''] [''name'', ''Email''] = [\<lparr>placeholder = ''Name'', dataField = ''name''\<rparr>]"
    by (simp add: auto_map_def auto_map_step_def js_to_lower_def ascii_lower_def)
  from auto_map_binds [of "[''Name'', ''city'']" "[''name'', ''Email'']"] h show ?thesis
    by simp
qed

text \<open>
  The automatic mapping of a duplicate-free placeholder list satisfies the mapping
  invariant: one binding per placeholder, only template placeholders bound.
\<close>

theorem auto_map_inv:
  "distinct ps \<Longrightarrow> mapping_inv ps (auto_map ps fs)"
  by (simp add: mapping_inv_def auto_map_placeholders)

theorem auto_map_inv_witness:
  "distinct [''a'', ''b''] \<and> mapping_inv [''a'', ''b''] (auto_map [''a'', ''b''] [''A''])"
  using auto_map_inv [of "[''a'', ''b'']" "[''A'']"] by simp

text \<open>
  Override then lookup: after selecting field \<open>f\<close> for placeholder \<open>p\<close>, the
  current binding of \<open>p\<close> is \<open>f\<close> and every other placeholder keeps its binding.
\<close>

theorem current_mapping_change:
  "current_mapping (handle_mapping_change ms p f) q =
     (if q = p then Some \<lparr>placeholder = p, dataField = f\<rparr> else current_mapping ms q)"
  by (simp add: mapping_defs find_filter_snoc)

text \<open>
  Override laws: a second selection for the same placeholder replaces the first
  (so repeating a selection changes nothing), and selections for different placeholders
  give the same set of bindings in either order.
\<close>

theorem handle_mapping_change_laws:
  "handle_mapping_change (handle_mapping_change ms p f) p g = handle_mapping_change ms p g \<and>
   (p \<noteq> q \<longrightarrow> set (handle_mapping_change (handle_mapping_change ms p f) q g) =
                set (handle_mapping_change (handle_mapping_change ms q g) p f))"
  by (auto simp: handle_mapping_change_def)

theorem handle_mapping_change_laws_witness:
  "handle_mapping_change (handle_mapping_change [] ''a'' ''x'') ''a'' ''y'' = handle_mapping_change [] ''a'' ''y'' \<and>
   set (handle_mapping_change (handle_mapping_change [] ''a'' ''x'') ''b'' ''y'') =
   set (handle_mapping_change (handle_mapping_change [] ''b'' ''y'') ''a'' ''x'')"
  using handle_mapping_change_laws [of "[]" "''a''" "''x''" "''y''" "''b''"] by simp

text \<open>
  C26. Completion: for a duplicate-free placeholder list and a mapping state satisfying
  the invariant, the length test of \<open>isComplete\<close> holds exactly when the list is
  non-empty and every placeholder is bound.
\<close>

theorem is_complete_iff_covers:
  assumes "distinct ps" "mapping_inv ps ms"
  shows "is_complete ps ms \<longleftrightarrow> ps \<noteq> [] \<and> set (map placeholder ms) = set ps"
proof -
  from assms(2) have a: "distinct (map placeholder ms)" and b: "set (map placeholder ms) \<subseteq> set ps"
    by (simp_all add: mapping_inv_def)
  have "length (map placeholder ms) = length ps \<longleftrightarrow> set (map placeholder ms) = set ps"
    using distinct_length_set_eq [OF a assms(1) b] .
  then show ?thesis by (auto simp: is_complete_def)
qed

theorem is_complete_iff_covers_witness:
  "distinct [''a''] \<and> mapping_inv [''a''] [\<lparr>placeholder = ''a'', dataField = ''x''\<rparr>] \<and>
   is_complete [''a''] [\<lparr>placeholder = ''a'', dataField = ''x''\<rparr>]"
proof -
  have h: "distinct [''a'']" "mapping_inv [''a''] [\<lparr>placeholder = ''a'', dataField = ''x''\<rparr>]"
    by (simp_all add: mapping_inv_def)
  from h is_complete_iff_covers [OF h] show ?thesis by simp
qed

text \<open>
  Case-insensitive automatic mapping (design, testable property): placeholders
  \<open>[email]\<close> and data fields \<open>[Email]\<close> auto-map to a complete mapping of size 1.
\<close>

theorem auto_map_email:
  "auto_map [''email''] [''Email''] = [\<lparr>placeholder = ''email'', dataField = ''Email''\<rparr>] \<and>
   is_complete [''email''] (auto_map [''email''] [''Email''])"
  by (simp add: auto_map_def auto_map_step_def js_to_lower_def ascii_lower_def is_complete_def)

text \<open>
  A blank placeholder name is never bound automatically, even to a blank data field
  name: \<open>find\<close> returns the empty name, which \<open>if (match)\<close> reads as false.
\<close>

theorem auto_map_blank_unbound:
  "auto_map [''''] ['''', ''x''] = [] \<and> \<not> is_complete [''''] (auto_map [''''] ['''', ''x''])"
  by (simp add: auto_map_def auto_map_step_def is_complete_def)

text \<open>
  C21. Well-typed mapping state: the automatic mapping of a duplicate-free placeholder
  list, and every later selection of a dataset field for a template placeholder, keep
  at most one binding per placeholder, only template placeholders, and only dataset
  fields.
\<close>

theorem mapping_typed_preserved:
  "(distinct phs \<longrightarrow> mapping_typed phs fs (auto_map phs fs)) \<and>
   (mapping_typed phs fs ms \<and> p \<in> set phs \<and> f \<in> set fs \<longrightarrow>
      mapping_typed phs fs (handle_mapping_change ms p f))"
proof (intro conjI impI)
  assume "distinct phs"
  then show "mapping_typed phs fs (auto_map phs fs)"
    using auto_map_fields [of _ phs fs] by (auto simp: mapping_typed_def mapping_inv_def auto_map_placeholders)
next
  assume a: "mapping_typed phs fs ms \<and> p \<in> set phs \<and> f \<in> set fs"
  then have "mapping_inv phs (handle_mapping_change ms p f)"
    by (auto simp: mapping_typed_def mapping_defs filter_placeholder_map distinct_map_filter)
  moreover have "\<forall>m \<in> set (handle_mapping_change ms p f). dataField m \<in> set fs"
    using a handle_mapping_change_fields [of ms p f] by (auto simp: mapping_typed_def)
  ultimately show "mapping_typed phs fs (handle_mapping_change ms p f)"
    by (simp add: mapping_typed_def)
qed

theorem mapping_typed_preserved_witness:
  "mapping_typed [''Name''] [''name''] (auto_map [''Name''] [''name'']) \<and>
   mapping_typed [''Name''] [''name''] (handle_mapping_change (auto_map [''Name''] [''name'']) ''Name'' ''name'')"
proof -
  have d: "distinct [''Name'']" by simp
  from mapping_typed_preserved [of "[''Name'']" "[''name'']"] d
  have t: "mapping_typed [''Name''] [''name''] (auto_map [''Name''] [''name''])" by simp
  with mapping_typed_preserved [of "[''Name'']" "[''name'']" "auto_map [''Name''] [''name'']" "''Name''" "''name''"]
  show ?thesis by simp
qed

end
