(* ===== verification/Packager.thy ===== *)
theory Packager
  imports Batch_Merge "HOL-Library.AList"
begin

text \<open>
  The Document Packager, the export logic of \<open>DocumentPreview\<close>
  (src/components/DocumentPreview.tsx): the artifact name \<open>document-{index+1}.{ext}\<close>,
  the single-document download \<open>downloadSingleDocument\<close>, the archive built by
  \<open>downloadAllAsZip\<close> and its timestamped name, and the preview navigation
  \<open>handlePrevious\<close>/\<open>handleNext\<close>, and the component's state and controls as a
  step function (\<open>dp_step\<close>). The archive collaborator (JSZip) is an
  association list of entries in insertion order, \<open>zip.file(name, data)\<close> replacing an
  entry of the same name in place; the storage fetch (\<open>getTemplateFile\<close>) and the
  document-template engine are parameters. A thrown error, caught by the handler's
  \<open>catch\<close>, is the left value of the result.
\<close>

section \<open>Artifacts and archives\<close>

datatype 'b zip_data = ZipText string | ZipBinary 'b

type_synonym 'b zip_archive = "(string \<times> 'b zip_data) list"

definition document_file_name :: "string \<Rightarrow> nat \<Rightarrow> string" where
  "document_file_name ext index = ''document-'' @ string_of_nat (index + 1) @ ''.'' @ ext"

definition archive_name :: "nat \<Rightarrow> string" where
  "archive_name now = ''merged-documents-'' @ string_of_nat now @ ''.zip''"

definition zip_file :: "string \<Rightarrow> 'b zip_data \<Rightarrow> 'b zip_archive \<Rightarrow> 'b zip_archive" where
  "zip_file fname data z = AList.update fname data z"

text \<open>\<open>xs.forEach((x, index) => zip.file(`document-${index + 1}.ext`, data x))\<close>.\<close>

fun package_entries ::
  "string \<Rightarrow> ('a \<Rightarrow> 'b zip_data) \<Rightarrow> nat \<Rightarrow> 'a list \<Rightarrow> 'b zip_archive \<Rightarrow> 'b zip_archive" where
  "package_entries ext data i [] z = z"
| "package_entries ext data i (x # xs) z =
     package_entries ext data (Suc i) xs (zip_file (document_file_name ext i) (data x) z)"

section \<open>Export handlers\<close>

datatype 'e export_error =
    NoTemplatePath | FetchFailed | RenderFailed 'e | MissingRow

text \<open>\<open>if (isWordTemplate)\<close> on a \<open>boolean | undefined\<close> field.\<close>

definition is_word :: "template \<Rightarrow> bool" where
  "is_word t \<longleftrightarrow> isWordTemplate t = Some True"

text \<open>The template file of a Word template: \<open>if (!template.wordDocumentData)\<close>
  (missing or empty path), then \<open>getTemplateFile\<close> returning \<open>null\<close>.\<close>

definition fetch_template :: "(string \<Rightarrow> 'b option) \<Rightarrow> template \<Rightarrow> 'e export_error + 'b" where
  "fetch_template fetch t =
     (case wordDocumentData t of
        None \<Rightarrow> Inl NoTemplatePath
      | Some path \<Rightarrow>
          if path = [] then Inl NoTemplatePath
          else (case fetch path of None \<Rightarrow> Inl FetchFailed | Some blob \<Rightarrow> Inr blob))"

definition download_all_as_zip ::
  "('b, 'e) docx_render \<Rightarrow> (string \<Rightarrow> 'b option) \<Rightarrow> template \<Rightarrow> merged_document list \<Rightarrow>
   data_row list \<Rightarrow> field_mapping list \<Rightarrow> nat \<Rightarrow> 'e export_error + string \<times> 'b zip_archive" where
  "download_all_as_zip engine fetch t documents dataset mappings now =
     (if is_word t then
        (case fetch_template fetch t of
           Inl e \<Rightarrow> Inl e
         | Inr blob \<Rightarrow>
             (case merge_all_word_documents engine blob dataset mappings of
                Inl e \<Rightarrow> Inl (RenderFailed e)
              | Inr outs \<Rightarrow> Inr (archive_name now, package_entries ''docx'' ZipBinary 0 outs [])))
      else Inr (archive_name now, package_entries ''html'' (\<lambda>d. ZipText (doc_content d)) 0 documents []))"

text \<open>\<open>downloadSingleDocument(index)\<close>. Out of range, \<open>dataset[index]\<close> is
  \<open>undefined\<close> and reading a field of it throws unless there is no mapping;
  \<open>documents[index].content\<close> throws.\<close>

definition word_artifact :: "nat \<Rightarrow> 'e + 'b \<Rightarrow> 'e export_error + string \<times> 'b zip_data" where
  "word_artifact index r =
     (case r of
        Inl e \<Rightarrow> Inl (RenderFailed e)
      | Inr out \<Rightarrow> Inr (document_file_name ''docx'' index, ZipBinary out))"

definition download_single_document ::
  "('b, 'e) docx_render \<Rightarrow> (string \<Rightarrow> 'b option) \<Rightarrow> template \<Rightarrow> merged_document list \<Rightarrow>
   data_row list \<Rightarrow> field_mapping list \<Rightarrow> nat \<Rightarrow> 'e export_error + string \<times> 'b zip_data" where
  "download_single_document engine fetch t documents dataset mappings index =
     (if is_word t then
        (case fetch_template fetch t of
           Inl e \<Rightarrow> Inl e
         | Inr blob \<Rightarrow>
             (if index < length dataset
              then word_artifact index (merge_word_document engine blob (dataset ! index) mappings)
              else if mappings = [] then word_artifact index (engine blob Map.empty)
              else Inl MissingRow))
      else if index < length documents
      then Inr (document_file_name ''html'' index, ZipText (doc_content (documents ! index)))
      else Inl MissingRow)"

section \<open>Preview navigation\<close>

definition handle_previous :: "int \<Rightarrow> int" where
  "handle_previous i = max 0 (i - 1)"

definition handle_next :: "nat \<Rightarrow> int \<Rightarrow> int" where
  "handle_next n i = min (int n - 1) (i + 1)"

section \<open>The preview component\<close>

text \<open>The state of \<open>DocumentPreview\<close>: \<open>currentIndex\<close> and \<open>isGenerating\<close>. The
  component renders only the export card: Download This (\<open>downloadSingleDocument
  (currentIndex)\<close>), Download All as ZIP, both disabled while generating, Email (a
  notice) and Back. \<open>handlePrevious\<close> and \<open>handleNext\<close> are not bound to any
  control. A download's outcome is known when it starts (its collaborators are
  parameters); \<open>isGenerating\<close> stays set until it settles if the handler reaches an
  \<open>await\<close>. On the Word path the first \<open>await\<close> is the fetch of the template file,
  reached only when the template has a file path (otherwise the handler throws at once
  and its \<open>finally\<close> resets the flag in the same handler); the plain archive always
  awaits \<open>generateAsync\<close>, a plain single download never awaits.\<close>

definition reaches_fetch :: "template \<Rightarrow> bool" where
  "reaches_fetch t \<longleftrightarrow> (case wordDocumentData t of None \<Rightarrow> False | Some path \<Rightarrow> path \<noteq> [])"

record dp_state =
  currentIndex :: int
  isGenerating :: bool

definition dp_init :: dp_state where
  "dp_init = \<lparr>currentIndex = 0, isGenerating = False\<rparr>"

datatype ('b, 'e) dp_output =
    DpNone
  | DpSingle "'e export_error + string \<times> 'b zip_data"
  | DpArchive "'e export_error + string \<times> 'b zip_archive"

datatype dp_event = DpDownloadThis | DpDownloadAll nat | DpSettled | DpEmail

fun dp_step ::
  "('b, 'e) docx_render \<Rightarrow> (string \<Rightarrow> 'b option) \<Rightarrow> template \<Rightarrow> merged_document list \<Rightarrow>
   data_row list \<Rightarrow> field_mapping list \<Rightarrow> dp_event \<Rightarrow> dp_state \<Rightarrow> (dp_state \<times> ('b, 'e) dp_output) option" where
  "dp_step engine fetch t docs ds ms DpDownloadThis s =
     (if isGenerating s then None
      else Some (s\<lparr>isGenerating := is_word t \<and> reaches_fetch t\<rparr>,
                 DpSingle (download_single_document engine fetch t docs ds ms (nat (currentIndex s)))))"
| "dp_step engine fetch t docs ds ms (DpDownloadAll now) s =
     (if isGenerating s then None
      else Some (s\<lparr>isGenerating := (\<not> is_word t \<or> reaches_fetch t)\<rparr>, DpArchive (download_all_as_zip engine fetch t docs ds ms now)))"
| "dp_step engine fetch t docs ds ms DpSettled s =
     (if isGenerating s then Some (s\<lparr>isGenerating := False\<rparr>, DpNone) else None)"
| "dp_step engine fetch t docs ds ms DpEmail s = Some (s, DpNone)"

fun dp_run ::
  "('b, 'e) docx_render \<Rightarrow> (string \<Rightarrow> 'b option) \<Rightarrow> template \<Rightarrow> merged_document list \<Rightarrow>
   data_row list \<Rightarrow> field_mapping list \<Rightarrow> dp_state \<Rightarrow> dp_event list \<Rightarrow>
   (dp_state \<times> ('b, 'e) dp_output list) option" where
  "dp_run engine fetch t docs ds ms s [] = Some (s, [])"
| "dp_run engine fetch t docs ds ms s (e # es) =
     (case dp_step engine fetch t docs ds ms e s of
        None \<Rightarrow> None
      | Some (s', out) \<Rightarrow>
          map_option (\<lambda>(s'', outs). (s'', out # outs)) (dp_run engine fetch t docs ds ms s' es))"

section \<open>Lemmas\<close>

lemma update_absent:
  "k \<notin> fst ` set z \<Longrightarrow> AList.update k v z = z @ [(k, v)]"
  by (induction z) auto

lemma document_file_name_inj [simp]:
  "document_file_name ext i = document_file_name ext j \<longleftrightarrow> i = j"
  by (simp add: document_file_name_def)

lemma package_entries_append:
  "(\<forall>k \<ge> i. document_file_name ext k \<notin> fst ` set z) \<Longrightarrow>
   package_entries ext data i xs z =
     z @ map (\<lambda>(k, x). (document_file_name ext k, data x)) (zip [i..<i + length xs] xs)"
proof (induction xs arbitrary: i z)
  case Nil
  then show ?case by simp
next
  case (Cons x xs)
  let ?z = "z @ [(document_file_name ext i, data x)]"
  have step: "zip_file (document_file_name ext i) (data x) z = ?z"
    using Cons.prems by (simp add: zip_file_def update_absent)
  have "\<forall>k \<ge> Suc i. document_file_name ext k \<notin> fst ` set ?z"
    using Cons.prems by auto
  moreover have "[i..<i + length (x # xs)] = i # [Suc i..<Suc i + length xs]"
    by (simp add: upt_conv_Cons del: upt_Suc)
  ultimately show ?case
    using Cons.IH step by (simp del: upt_Suc)
qed

lemma package_entries_empty:
  "package_entries ext data 0 xs [] =
     map (\<lambda>(k, x). (document_file_name ext k, data x)) (zip [0..<length xs] xs)"
  using package_entries_append [of 0 ext "[]" data xs] by simp

lemma map_fst_zip_names:
  "length ks = length xs \<Longrightarrow>
   map fst (map (\<lambda>(k, x). (document_file_name ext k, data x)) (zip ks xs)) =
   map (document_file_name ext) ks"
  by (induction ks xs rule: list_induct2) auto

lemma distinct_document_names:
  "distinct (map (document_file_name ext) [0..<n])"
  by (simp add: distinct_map inj_on_def)

lemma word_artifact_Inr:
  "word_artifact index r = Inr (fname, data) \<Longrightarrow> fname = document_file_name ''docx'' index"
  by (auto simp: word_artifact_def split: sum.splits)

lemma dp_run_first:
  "dp_run engine fetch t docs ds ms s evs = Some (s', outs) \<Longrightarrow> currentIndex s = 0 \<Longrightarrow>
   currentIndex s' = 0 \<and>
   list_all (\<lambda>x. \<forall>r. x = DpSingle r \<longrightarrow> r = download_single_document engine fetch t docs ds ms 0) outs"
proof (induction evs arbitrary: s outs)
  case Nil
  then show ?case by simp
next
  case (Cons e es)
  from Cons.prems(1) obtain s1 out outs' where st: "dp_step engine fetch t docs ds ms e s = Some (s1, out)"
    and r: "dp_run engine fetch t docs ds ms s1 es = Some (s', outs')" and o: "outs = out # outs'"
    by (auto split: option.splits prod.splits)
  from st Cons.prems(2) have "currentIndex s1 = 0"
    and "\<forall>r. out = DpSingle r \<longrightarrow> r = download_single_document engine fetch t docs ds ms 0"
    by (cases e; auto split: if_splits)+
  with Cons.IH [OF r] o show ?case by simp
qed

lemmas export_defs = download_all_as_zip_def download_single_document_def fetch_template_def
  is_word_def archive_name_def

section \<open>Properties\<close>

text \<open>
  Archive contents: packaging documents in order gives exactly one entry per
  document, in order, entry \<open>k\<close> named \<open>document-(k+1).ext\<close> with document
  \<open>k\<close>'s data; the names are pairwise distinct, so no \<open>zip.file\<close> call overwrites an
  earlier entry.
\<close>

theorem package_entries_exact:
  "package_entries ext data 0 xs [] =
     map (\<lambda>(k, x). (document_file_name ext k, data x)) (zip [0..<length xs] xs) \<and>
   distinct (map fst (package_entries ext data 0 xs []))"
proof -
  have "distinct (map fst (map (\<lambda>(k, x). (document_file_name ext k, data x)) (zip [0..<length xs] xs)))"
    by (subst map_fst_zip_names) (simp_all add: distinct_document_names)
  then show ?thesis by (simp only: package_entries_empty)
qed

text \<open>
  The plain-text export never fails: it archives every merged document as
  \<open>document-(k+1).html\<close> under the timestamped archive name.
\<close>

theorem download_all_as_zip_plain:
  "\<not> is_word t \<Longrightarrow>
   download_all_as_zip engine fetch t documents dataset mappings now =
     Inr (''merged-documents-'' @ string_of_nat now @ ''.zip'',
          map (\<lambda>(k, d). (document_file_name ''html'' k, ZipText (doc_content d))) (zip [0..<length documents] documents))"
  by (simp add: download_all_as_zip_def archive_name_def package_entries_empty)

theorem download_all_as_zip_plain_witness:
  "\<not> is_word (plain_template ''x'') \<and>
   download_all_as_zip (\<lambda>b d. Inr b) (\<lambda>p. None :: unit option) (plain_template ''x'')
     [\<lparr>doc_id = ''doc-0'', doc_content = ''x'', rowData = Map.empty\<rparr>] [Map.empty] [] 7 =
   (Inr (''merged-documents-7.zip'', [(''document-1.html'', ZipText ''x'')]) :: unit export_error + string \<times> unit zip_archive)"
proof -
  have h: "\<not> is_word (plain_template ''x'')"
    by (simp add: is_word_def plain_template_def)
  from h download_all_as_zip_plain [OF h, of "\<lambda>b d. Inr b" "\<lambda>p. None :: unit option"
      "[\<lparr>doc_id = ''doc-0'', doc_content = ''x'', rowData = Map.empty\<rparr>]" "[Map.empty]" "[]" 7]
  show ?thesis
    by (simp add: document_file_name_def js_simps digit_char_def)
qed

text \<open>
  C29. The Word export, once the template file is fetched and every row renders, archives
  one \<open>document-(k+1).docx\<close> per dataset row, in row order, holding the engine's
  rendering of that row.
\<close>

theorem download_all_as_zip_word:
  assumes "is_word t" "fetch_template fetch t = (Inr blob :: 'e export_error + 'b)"
    and "merge_all_word_documents (engine :: ('b, 'e) docx_render) blob dataset mappings = Inr outs"
  shows "download_all_as_zip engine fetch t documents dataset mappings now =
           Inr (archive_name now,
                map (\<lambda>(k, out). (document_file_name ''docx'' k, ZipBinary out)) (zip [0..<length outs] outs)) \<and>
         length outs = length dataset \<and>
         (\<forall>k < length dataset. engine blob (word_data (dataset ! k) mappings) = Inr (outs ! k))"
  using assms merge_all_word_Inr [OF assms(3)]
  by (simp add: download_all_as_zip_def package_entries_empty)

theorem download_all_as_zip_word_witness:
  "is_word (\<lparr>template_id = ''t'', name = ''w'', content = [], placeholders = [], createdAt = [], updatedAt = [],
             wordDocumentData = Some ''p'', isWordTemplate = Some True\<rparr>) \<and>
   download_all_as_zip (\<lambda>b d. Inr (b @ js_to_string (the (d ''N'')))) (\<lambda>p. Some ''T:'')
     \<lparr>template_id = ''t'', name = ''w'', content = [], placeholders = [], createdAt = [], updatedAt = [],
      wordDocumentData = Some ''p'', isWordTemplate = Some True\<rparr>
     [] [[''n'' \<mapsto> JStr ''A'']] [\<lparr>placeholder = ''N'', dataField = ''n''\<rparr>] 1 =
   (Inr (archive_name 1, [(document_file_name ''docx'' 0, ZipBinary ''T:A'')]) :: unit export_error + string \<times> string zip_archive)"
proof -
  let ?t = "\<lparr>template_id = ''t'', name = ''w'', content = [], placeholders = [], createdAt = [], updatedAt = [],
      wordDocumentData = Some ''p'', isWordTemplate = Some True\<rparr>"
  have h1: "is_word ?t" by (simp add: is_word_def)
  have h2: "fetch_template (\<lambda>p. Some ''T:'') ?t = (Inr ''T:'' :: unit export_error + string)"
    by (simp add: fetch_template_def)
  have h3: "merge_all_word_documents (\<lambda>b d. Inr (b @ js_to_string (the (d ''N'')))) ''T:''
      [[''n'' \<mapsto> JStr ''A'']] [\<lparr>placeholder = ''N'', dataField = ''n''\<rparr>] = (Inr [''T:A''] :: unit + string list)"
    by (simp add: merge_word_document_def word_data_def)
  from h1 download_all_as_zip_word [OF h1 h2 h3, of "[]" 1] show ?thesis by simp
qed

text \<open>
  C30. Failure policy of the Word export: it fails, producing no archive, exactly when
  the template path is missing or empty, the fetch fails, or the engine fails on some row.
\<close>

theorem download_all_as_zip_word_error:
  assumes "is_word t"
  shows "(\<exists>e. download_all_as_zip (engine :: ('b, 'e) docx_render) fetch t documents dataset mappings now = Inl e) \<longleftrightarrow>
         (\<exists>e. fetch_template fetch t = (Inl e :: 'e export_error + 'b)) \<or>
         (\<exists>blob. fetch_template fetch t = (Inr blob :: 'e export_error + 'b) \<and>
            (\<exists>row \<in> set dataset. \<exists>e. engine blob (word_data row mappings) = Inl e))"
proof (cases "fetch_template fetch t :: 'e export_error + 'b")
  case (Inl e)
  with assms show ?thesis by (simp add: download_all_as_zip_def)
next
  case (Inr blob)
  have "(\<exists>e. merge_all_word_documents engine blob dataset mappings = Inl e) \<longleftrightarrow>
        (\<exists>row \<in> set dataset. \<exists>e. engine blob (word_data row mappings) = Inl e)"
    by (rule merge_all_word_error)
  with assms Inr show ?thesis
    by (auto simp: download_all_as_zip_def split: sum.splits)
qed

theorem download_all_as_zip_word_error_witness:
  "is_word (\<lparr>template_id = ''t'', name = ''w'', content = [], placeholders = [], createdAt = [], updatedAt = [],
             wordDocumentData = Some [], isWordTemplate = Some True\<rparr>) \<and>
   download_all_as_zip (\<lambda>b d. Inr b) (\<lambda>p. Some ())
     \<lparr>template_id = ''t'', name = ''w'', content = [], placeholders = [], createdAt = [], updatedAt = [],
      wordDocumentData = Some [], isWordTemplate = Some True\<rparr> [] [] [] 0 =
   (Inl NoTemplatePath :: unit export_error + string \<times> unit zip_archive)"
proof -
  let ?t = "\<lparr>template_id = ''t'', name = ''w'', content = [], placeholders = [], createdAt = [], updatedAt = [],
      wordDocumentData = Some [], isWordTemplate = Some True\<rparr>"
  have h: "is_word ?t" by (simp add: is_word_def)
  have f: "fetch_template (\<lambda>p. Some ()) ?t = (Inl NoTemplatePath :: unit export_error + unit)"
    by (simp add: fetch_template_def)
  from download_all_as_zip_word_error [OF h, of "\<lambda>b d. Inr b" "\<lambda>p. Some ()" "[]" "[]" "[]" 0] f
  have "\<exists>e. (download_all_as_zip (\<lambda>b d. Inr b) (\<lambda>p. Some ()) ?t [] [] [] 0
           :: unit export_error + string \<times> unit zip_archive) = Inl e"
    by auto
  with h show ?thesis by (simp add: download_all_as_zip_def f)
qed

text \<open>
  A single download is named \<open>document-(index+1).docx\<close> for a Word template and
  \<open>document-(index+1).html\<close> otherwise; a plain-text download carries the content of
  the merged document at that index.
\<close>

theorem download_single_document_name:
  assumes "download_single_document (engine :: ('b, 'e) docx_render) fetch t documents dataset mappings index =
             Inr (fname, data)"
  shows "fname = document_file_name (if is_word t then ''docx'' else ''html'') index \<and>
         (\<not> is_word t \<longrightarrow> index < length documents \<and> data = ZipText (doc_content (documents ! index)))"
proof (cases "is_word t")
  case True
  then obtain blob where
    "fetch_template fetch t = (Inr blob :: 'e export_error + 'b)"
    using assms by (cases "fetch_template fetch t :: 'e export_error + 'b") (simp_all add: download_single_document_def)
  with True assms have "\<exists>r :: 'e + 'b. word_artifact index r = Inr (fname, data)"
    by (simp add: download_single_document_def split: if_splits) (rule exI, assumption)+
  with True show ?thesis by (auto dest: word_artifact_Inr)
next
  case False
  with assms show ?thesis
    by (simp add: download_single_document_def split: if_splits)
qed

theorem download_single_document_name_witness:
  "download_single_document (\<lambda>b d. Inr b) (\<lambda>p. None :: unit option) (plain_template ''x'')
     [\<lparr>doc_id = ''doc-0'', doc_content = ''a'', rowData = Map.empty\<rparr>,
      \<lparr>doc_id = ''doc-1'', doc_content = ''b'', rowData = Map.empty\<rparr>] [] [] 1 =
     (Inr (''document-2.html'', ZipText ''b'') :: unit export_error + string \<times> unit zip_data) \<and>
   ''document-2.html'' = document_file_name ''html'' 1"
proof -
  have h: "download_single_document (\<lambda>b d. Inr b) (\<lambda>p. None :: unit option) (plain_template ''x'')
     [\<lparr>doc_id = ''doc-0'', doc_content = ''a'', rowData = Map.empty\<rparr>,
      \<lparr>doc_id = ''doc-1'', doc_content = ''b'', rowData = Map.empty\<rparr>] [] [] 1 =
     (Inr (''document-2.html'', ZipText ''b'') :: unit export_error + string \<times> unit zip_data)"
    by (simp add: download_single_document_def is_word_def plain_template_def document_file_name_def
        js_simps digit_char_def)
  have nw: "\<not> is_word (plain_template ''x'')"
    by (simp add: is_word_def plain_template_def)
  from download_single_document_name [OF h] nw have "''document-2.html'' = document_file_name ''html'' 1"
    by simp
  with h show ?thesis by blast
qed

text \<open>
  Preview navigation keeps the index inside the document list: from an index in
  range, \<open>handlePrevious\<close> and \<open>handleNext\<close> stay in range.
\<close>

theorem preview_navigation_in_range:
  "0 \<le> i \<Longrightarrow> i < int n \<Longrightarrow>
   0 \<le> handle_previous i \<and> handle_previous i < int n \<and> 0 \<le> handle_next n i \<and> handle_next n i < int n"
  by (simp add: handle_previous_def handle_next_def)

theorem preview_navigation_in_range_witness:
  "0 \<le> (2::int) \<and> 2 < int 3 \<and> handle_next 3 2 = 2 \<and> handle_previous 0 = 0"
  using preview_navigation_in_range [of 2 3] by (simp add: handle_next_def handle_previous_def)

text \<open>
  C28. The preview never navigates: in every run of the export card, whatever is
  downloaded and in whatever order downloads settle, Download This exports the first
  document, the result of \<open>downloadSingleDocument(0)\<close>.
\<close>

theorem preview_downloads_first:
  assumes "dp_run engine fetch t docs ds ms dp_init evs = Some (s, outs)"
  shows "list_all (\<lambda>x. \<forall>r. x = DpSingle r \<longrightarrow> r = download_single_document engine fetch t docs ds ms 0) outs"
  using dp_run_first [OF assms] by (simp add: dp_init_def)

theorem preview_downloads_first_witness:
  "dp_run (\<lambda>b d. Inr b) (\<lambda>p. None :: unit option) (plain_template ''x'')
     [\<lparr>doc_id = ''doc-0'', doc_content = ''a'', rowData = Map.empty\<rparr>,
      \<lparr>doc_id = ''doc-1'', doc_content = ''b'', rowData = Map.empty\<rparr>] [] [] dp_init
     [DpEmail, DpDownloadThis] =
     Some (dp_init, [DpNone, DpSingle (Inr (''document-1.html'', ZipText ''a''))]) \<and>
   download_single_document (\<lambda>b d. Inr b) (\<lambda>p. None :: unit option) (plain_template ''x'')
     [\<lparr>doc_id = ''doc-0'', doc_content = ''a'', rowData = Map.empty\<rparr>,
      \<lparr>doc_id = ''doc-1'', doc_content = ''b'', rowData = Map.empty\<rparr>] [] [] 0 =
     (Inr (''document-1.html'', ZipText ''a'') :: unit export_error + string \<times> unit zip_data)"
proof -
  have h: "dp_run (\<lambda>b d. Inr b) (\<lambda>p. None :: unit option) (plain_template ''x'')
     [\<lparr>doc_id = ''doc-0'', doc_content = ''a'', rowData = Map.empty\<rparr>,
      \<lparr>doc_id = ''doc-1'', doc_content = ''b'', rowData = Map.empty\<rparr>] [] [] dp_init
     [DpEmail, DpDownloadThis] =
     Some (dp_init, [DpNone, DpSingle (Inr (''document-1.html'', ZipText ''a''))])"
    by (simp add: dp_init_def download_single_document_def is_word_def plain_template_def
        document_file_name_def js_simps digit_char_def)
  from preview_downloads_first [OF h] have
    "(Inr (''document-1.html'', ZipText ''a'') :: unit export_error + string \<times> unit zip_data) =
     download_single_document (\<lambda>b d. Inr b) (\<lambda>p. None :: unit option) (plain_template ''x'')
     [\<lparr>doc_id = ''doc-0'', doc_content = ''a'', rowData = Map.empty\<rparr>,
      \<lparr>doc_id = ''doc-1'', doc_content = ''b'', rowData = Map.empty\<rparr>] [] [] 0"
    by simp
  with h show ?thesis by (metis (no_types))
qed

end
