(* ===== verification/Workflow.thy ===== *)
theory Workflow
  imports Batch_Merge Field_Mapper
begin

text \<open>
  The wizard of \<open>Index\<close> (src/pages/Index.tsx): the page state (step, view mode, data
  mode, template list, selected and edited template, dataset, headers, mappings, merged
  documents) and one handler per user action, each enabled only where the page renders
  the control that triggers it. Persistence (\<open>getTemplates\<close>, \<open>saveTemplate\<close>,
  \<open>deleteTemplate\<close>) is external: the outcome of each call (the reloaded template list,
  or a failure) is part of the event. A merge that throws inside a handler leaves the
  state updates queued before the throw, which React still applies.
\<close>

section \<open>State and events\<close>

datatype view_mode = ViewList | ViewEdit | ViewCreate | ViewWordUpload

datatype data_mode = DatasetMode | ManualMode

record wf_state =
  currentStep :: nat
  viewMode :: view_mode
  dataMode :: "data_mode option"
  templates :: "template list"
  selectedTemplate :: "template option"
  editingTemplate :: "template option"
  dataset :: "data_row list"
  dataHeaders :: "string list"
  fieldMappings :: "field_mapping list"
  mergedDocuments :: "merged_document list"

definition wf_init :: wf_state where
  "wf_init =
     \<lparr>currentStep = 1, viewMode = ViewList, dataMode = None, templates = [], selectedTemplate = None,
      editingTemplate = None, dataset = [], dataHeaders = [], fieldMappings = [], mergedDocuments = []\<rparr>"

text \<open>The user actions and the outcomes of the persistence calls they make. The
  timestamp of a rename is a parameter.\<close>

datatype wf_event =
    LoadTemplates "template list"
  | TemplateSelect template
  | TemplateEdit template
  | TemplateSave "template list option"
  | TemplateDelete string "template list"
  | CreateNew
  | UploadWord
  | CancelEditor
  | DataModeSelect data_mode
  | DataLoaded "data_row list" "string list"
  | ManualDataFilled data_row "string list"
  | ManualBack
  | MappingComplete "field_mapping list"
  | BackToMapping
  | BackToTemplates
  | TemplateRename template string string "template list option"

section \<open>Handlers\<close>

definition handle_template_select :: "template \<Rightarrow> wf_state \<Rightarrow> wf_state" where
  "handle_template_select t s =
     s\<lparr>selectedTemplate := Some t, viewMode := ViewList, dataMode := None, currentStep := 2\<rparr>"

definition handle_template_save :: "template list option \<Rightarrow> wf_state \<Rightarrow> wf_state" where
  "handle_template_save r s =
     (case r of
        None \<Rightarrow> s
      | Some loaded \<Rightarrow> s\<lparr>templates := loaded, viewMode := ViewList, editingTemplate := None\<rparr>)"

definition handle_template_delete :: "string \<Rightarrow> template list \<Rightarrow> wf_state \<Rightarrow> wf_state" where
  "handle_template_delete tid loaded s =
     (let s' = s\<lparr>templates := loaded\<rparr> in
      if map_option template_id (selectedTemplate s) = Some tid
      then s'\<lparr>selectedTemplate := None, currentStep := 1\<rparr> else s')"

definition handle_data_loaded :: "data_row list \<Rightarrow> string list \<Rightarrow> wf_state \<Rightarrow> wf_state" where
  "handle_data_loaded rows headers s =
     (let s' = s\<lparr>dataset := rows, dataHeaders := headers\<rparr> in
      if rows \<noteq> [] then s'\<lparr>currentStep := 3\<rparr> else s')"

text \<open>\<open>handleManualDataFilled\<close>: the mapping binds each placeholder to the field of the
  same name.\<close>

definition identity_mappings :: "string list \<Rightarrow> field_mapping list" where
  "identity_mappings ps = map (\<lambda>p. \<lparr>placeholder = p, dataField = p\<rparr>) ps"

definition handle_manual_data_filled ::
  "template \<Rightarrow> data_row \<Rightarrow> string list \<Rightarrow> wf_state \<Rightarrow> wf_state" where
  "handle_manual_data_filled t row keys s =
     (let ms = identity_mappings (placeholders t);
          s' = s\<lparr>dataset := [row], dataHeaders := keys, fieldMappings := ms\<rparr>
      in case merge_all_documents t [row] ms of
           Inl e \<Rightarrow> s'
         | Inr docs \<Rightarrow> s'\<lparr>mergedDocuments := docs, currentStep := 4\<rparr>)"

definition handle_mapping_complete :: "field_mapping list \<Rightarrow> wf_state \<Rightarrow> wf_state" where
  "handle_mapping_complete ms s =
     (let s' = s\<lparr>fieldMappings := ms\<rparr> in
      case selectedTemplate s of
        None \<Rightarrow> s'
      | Some t \<Rightarrow>
          if dataset s \<noteq> [] then
            (case merge_all_documents t (dataset s) ms of
               Inl e \<Rightarrow> s'
             | Inr docs \<Rightarrow> s'\<lparr>mergedDocuments := docs, currentStep := 4\<rparr>)
          else s')"

definition handle_back_to_templates :: "wf_state \<Rightarrow> wf_state" where
  "handle_back_to_templates s =
     s\<lparr>selectedTemplate := None, dataMode := None, dataset := [], dataHeaders := [],
       fieldMappings := [], mergedDocuments := [], currentStep := 1\<rparr>"

definition handle_template_rename ::
  "template \<Rightarrow> string \<Rightarrow> string \<Rightarrow> template list option \<Rightarrow> wf_state \<Rightarrow> wf_state" where
  "handle_template_rename t newName now r s =
     (case r of
        None \<Rightarrow> s
      | Some loaded \<Rightarrow>
          let s' = s\<lparr>templates := loaded\<rparr> in
          if map_option template_id (selectedTemplate s) = Some (template_id t)
          then s'\<lparr>selectedTemplate := Some (t\<lparr>name := newName, updatedAt := now\<rparr>)\<rparr> else s')"

section \<open>Where each control is rendered\<close>

definition on_template_list :: "wf_state \<Rightarrow> bool" where
  "on_template_list s \<longleftrightarrow> currentStep s = 1 \<and> viewMode s = ViewList"

definition on_editor :: "wf_state \<Rightarrow> bool" where
  "on_editor s \<longleftrightarrow> currentStep s = 1 \<and> viewMode s \<noteq> ViewList"

definition on_choose_source :: "wf_state \<Rightarrow> bool" where
  "on_choose_source s \<longleftrightarrow> currentStep s = 2 \<and> selectedTemplate s \<noteq> None \<and> dataMode s = None"

definition on_upload :: "wf_state \<Rightarrow> bool" where
  "on_upload s \<longleftrightarrow>
     currentStep s = 3 \<and> selectedTemplate s \<noteq> None \<and> dataMode s = Some DatasetMode \<and> dataset s = []"

definition on_manual_form :: "wf_state \<Rightarrow> bool" where
  "on_manual_form s \<longleftrightarrow> currentStep s = 3 \<and> selectedTemplate s \<noteq> None \<and> dataMode s = Some ManualMode"

definition on_field_mapper :: "wf_state \<Rightarrow> bool" where
  "on_field_mapper s \<longleftrightarrow>
     currentStep s = 3 \<and> selectedTemplate s \<noteq> None \<and> dataMode s = Some DatasetMode \<and> dataset s \<noteq> []"

definition on_preview :: "wf_state \<Rightarrow> bool" where
  "on_preview s \<longleftrightarrow> currentStep s = 4 \<and> mergedDocuments s \<noteq> [] \<and> selectedTemplate s \<noteq> None"

section \<open>The step function\<close>

text \<open>\<open>None\<close>: the control of the event is not on the page. The list's callbacks
  (select, edit, delete, rename) are live while the list is shown; their handlers check
  nothing else. \<open>DataLoaded\<close> is the uploader's \<open>onDataLoaded\<close>, called by the
  \<open>complete\<close> callback of \<open>Papa.parse\<close> (DatasetUploader.tsx:27-40) whenever a parse
  settles, also after the uploader has unmounted, and by \<open>clearData\<close>;
  \<open>handleDataLoaded\<close> has no guard, so the event is accepted in every state (the model
  does not track whether a parse is in flight, so its runs include every run of the page).
  \<open>MappingComplete\<close> is raised by \<open>FieldMapper.handleComplete\<close>, which calls
  \<open>onMappingComplete\<close> only when \<open>isComplete\<close> holds, on a mapping state satisfying
  the invariant the Field_Mapper theory proves (the Page theory discharges this).\<close>

fun wf_step :: "wf_event \<Rightarrow> wf_state \<Rightarrow> wf_state option" where
  "wf_step (LoadTemplates loaded) s = Some (s\<lparr>templates := loaded\<rparr>)"
| "wf_step (TemplateSelect t) s =
     (if on_template_list s then Some (handle_template_select t s) else None)"
| "wf_step (TemplateEdit t) s =
     (if on_template_list s then Some (s\<lparr>editingTemplate := Some t, viewMode := ViewEdit\<rparr>) else None)"
| "wf_step (TemplateSave r) s = (if on_editor s then Some (handle_template_save r s) else None)"
| "wf_step (TemplateDelete tid loaded) s =
     (if on_template_list s then Some (handle_template_delete tid loaded s) else None)"
| "wf_step CreateNew s =
     (if on_template_list s then Some (s\<lparr>editingTemplate := None, viewMode := ViewCreate\<rparr>) else None)"
| "wf_step UploadWord s = (if on_template_list s then Some (s\<lparr>viewMode := ViewWordUpload\<rparr>) else None)"
| "wf_step CancelEditor s = (if on_editor s then Some (s\<lparr>viewMode := ViewList\<rparr>) else None)"
| "wf_step (DataModeSelect m) s =
     (if on_choose_source s then Some (s\<lparr>dataMode := Some m, currentStep := 3\<rparr>) else None)"
| "wf_step (DataLoaded rows headers) s = Some (handle_data_loaded rows headers s)"
| "wf_step (ManualDataFilled row keys) s =
     (case selectedTemplate s of
        Some t \<Rightarrow> if on_manual_form s then Some (handle_manual_data_filled t row keys s) else None
      | None \<Rightarrow> None)"
| "wf_step ManualBack s =
     (if on_manual_form s then Some (s\<lparr>dataMode := None, currentStep := 2\<rparr>) else None)"
| "wf_step (MappingComplete ms) s =
     (case selectedTemplate s of
        Some t \<Rightarrow>
          if on_field_mapper s \<and> mapping_inv (placeholders t) ms \<and> is_complete (placeholders t) ms
          then Some (handle_mapping_complete ms s) else None
      | None \<Rightarrow> None)"
| "wf_step BackToMapping s = (if on_preview s then Some (s\<lparr>currentStep := 3\<rparr>) else None)"
| "wf_step BackToTemplates s =
     (if on_choose_source s \<or> on_upload s \<or> on_field_mapper s
      then Some (handle_back_to_templates s) else None)"
| "wf_step (TemplateRename t newName now r) s =
     (if on_template_list s then Some (handle_template_rename t newName now r s) else None)"

fun wf_run :: "wf_state \<Rightarrow> wf_event list \<Rightarrow> wf_state option" where
  "wf_run s [] = Some s"
| "wf_run s (e # es) = (case wf_step e s of None \<Rightarrow> None | Some s' \<Rightarrow> wf_run s' es)"

inductive wf_reachable :: "wf_state \<Rightarrow> bool" where
  init: "wf_reachable wf_init"
| step: "wf_reachable s \<Longrightarrow> wf_step e s = Some s' \<Longrightarrow> wf_reachable s'"

section \<open>The step indicator\<close>

text \<open>\<open>STEPS\<close> of the page and the state \<open>StepIndicator\<close>
  (src/components/StepIndicator.tsx) draws for each: done (a check mark) before the
  current step, active at it, pending after it.\<close>

definition STEPS :: "(nat \<times> string \<times> string) list" where
  "STEPS = [(1, ''Template'', ''Create or select''), (2, ''Data Source'', ''Choose input method''),
            (3, ''Fill/Map'', ''Provide data''), (4, ''Generate'', ''Preview & export'')]"

datatype step_status = StepDone | StepActive | StepPending

definition step_status :: "nat \<Rightarrow> nat \<Rightarrow> step_status" where
  "step_status cur n = (if n < cur then StepDone else if cur = n then StepActive else StepPending)"

definition step_indicator :: "nat \<Rightarrow> step_status list" where
  "step_indicator cur = map (\<lambda>(n, title, descr). step_status cur n) STEPS"

section \<open>What the page renders\<close>

text \<open>The screens of the page's main area (Index.tsx, the JSX under the step
  indicator): each is rendered under its own condition on the page state.\<close>

datatype screen =
    ScrTemplateList | ScrEditor | ScrWordUpload | ScrChooseSource | ScrUpload
  | ScrManualForm | ScrFieldMapper | ScrPreview

definition screens :: "wf_state \<Rightarrow> screen list" where
  "screens s =
     (if currentStep s = 1 then
        (if viewMode s = ViewList then [ScrTemplateList] else []) @
        (if viewMode s = ViewEdit \<or> viewMode s = ViewCreate then [ScrEditor] else []) @
        (if viewMode s = ViewWordUpload then [ScrWordUpload] else [])
      else []) @
     (if currentStep s = 2 \<and> selectedTemplate s \<noteq> None \<and> dataMode s = None
      then [ScrChooseSource] else []) @
     (if currentStep s = 3 \<and> selectedTemplate s \<noteq> None \<and> dataMode s = Some DatasetMode \<and> dataset s = []
      then [ScrUpload] else []) @
     (if currentStep s = 3 \<and> selectedTemplate s \<noteq> None \<and> dataMode s = Some ManualMode
      then [ScrManualForm] else []) @
     (if currentStep s = 3 \<and> selectedTemplate s \<noteq> None \<and> dataMode s = Some DatasetMode \<and> dataset s \<noteq> []
      then [ScrFieldMapper] else []) @
     (if currentStep s = 4 \<and> mergedDocuments s \<noteq> [] \<and> selectedTemplate s \<noteq> None
      then [ScrPreview] else [])"

section \<open>Example data\<close>

text \<open>The template of the design's batch export scenario.\<close>

abbreviation hi_template :: template where
  "hi_template \<equiv>
     \<lparr>template_id = ''t1'', name = ''Greeting'', content = ''Hi {{Name}}'', placeholders = [''Name''],
      createdAt = [], updatedAt = [], wordDocumentData = None, isWordTemplate = None\<rparr>"


section \<open>Invariant\<close>

text \<open>The merged documents are the merge of the selected template and the current
  mappings with the rows the documents carry, the mappings covering exactly the
  template's placeholders. The rows need not be the current dataset: a parse that settles
  after the merge replaces the dataset and leaves the documents.\<close>

definition docs_consistent :: "wf_state \<Rightarrow> bool" where
  "docs_consistent s \<longleftrightarrow>
     (mergedDocuments s \<noteq> [] \<longrightarrow>
        (\<exists>t. selectedTemplate s = Some t \<and>
             set (map placeholder (fieldMappings s)) = set (placeholders t) \<and>
             merge_all_documents t (map rowData (mergedDocuments s)) (fieldMappings s) =
               Inr (mergedDocuments s)))"

text \<open>The step structure: on the first step nothing is selected or merged, the second
  step has a template and no data mode, the preview step has a template, a data mode and
  documents; while a template is selected the remembered view is the list.\<close>

definition steps_ok :: "wf_state \<Rightarrow> bool" where
  "steps_ok s \<longleftrightarrow>
     currentStep s \<in> {1, 2, 3, 4} \<and>
     (currentStep s = 1 \<longrightarrow> selectedTemplate s = None \<and> mergedDocuments s = []) \<and>
     (currentStep s = 2 \<longrightarrow> selectedTemplate s \<noteq> None \<and> dataMode s = None) \<and>
     (currentStep s = 4 \<longrightarrow> selectedTemplate s \<noteq> None \<and> dataMode s \<noteq> None \<and> mergedDocuments s \<noteq> []) \<and>
     (selectedTemplate s \<noteq> None \<longrightarrow> viewMode s = ViewList)"

definition wf_inv :: "wf_state \<Rightarrow> bool" where
  "wf_inv s \<longleftrightarrow> steps_ok s \<and> docs_consistent s"

text \<open>The states a late parse can leave: the fill/map step without a template or without
  a data mode, where none of the step's screens is rendered.\<close>

definition wizard_stuck :: "wf_state \<Rightarrow> bool" where
  "wizard_stuck s \<longleftrightarrow> currentStep s = 3 \<and> (selectedTemplate s = None \<or> dataMode s = None)"

section \<open>Lemmas\<close>

inductive_cases wf_reachable_stepE: "wf_reachable s'"

lemma wf_run_reachable:
  "wf_reachable s \<Longrightarrow> wf_run s es = Some s' \<Longrightarrow> wf_reachable s'"
proof (induction es arbitrary: s)
  case Nil
  then show ?case by simp
next
  case (Cons e es)
  then obtain s1 where "wf_step e s = Some s1" "wf_run s1 es = Some s'"
    by (auto split: option.splits)
  with Cons show ?case by (blast intro: wf_reachable.step)
qed

lemma merge_all_literal:
  "merge_all_documents t ds ms = Inr docs \<Longrightarrow> ds \<noteq> [] \<Longrightarrow>
   list_all (\<lambda>m. regex_literal (placeholder m)) ms"
  using merge_rows_error [of t ms 0 ds] merge_single_document_error_iff [of t _ ms]
  by (cases ds) (auto simp: merge_all_documents_def)

lemma merge_all_not_Inl:
  "list_all (\<lambda>m. regex_literal (placeholder m)) ms \<Longrightarrow> merge_all_documents t ds ms \<noteq> Inl e"
  using merge_rows_error [of t ms 0 ds] merge_single_document_error_iff [of t _ ms]
  by (auto simp: merge_all_documents_def)

lemma literal_by_names:
  "set (map placeholder ms) = set (map placeholder ms') \<Longrightarrow>
   list_all (\<lambda>m. regex_literal (placeholder m)) ms \<longleftrightarrow> list_all (\<lambda>m. regex_literal (placeholder m)) ms'"
  by (simp add: list_all_iff) (metis (no_types, lifting) image_iff list.set_map)

lemma merge_all_length:
  "merge_all_documents t ds ms = Inr docs \<Longrightarrow> length docs = length ds"
  using merge_rows_Inr [of t ms 0 ds docs] by (simp add: merge_all_documents_def)

text \<open>Each merged document carries the row it was merged from.\<close>

lemma merge_all_rows:
  "merge_all_documents t ds ms = Inr docs \<Longrightarrow> map rowData docs = ds"
  using merge_rows_Inr [of t ms 0 ds docs]
  by (auto simp: merge_all_documents_def intro: nth_equalityI)

lemma complete_covers:
  assumes "mapping_inv ps ms" "is_complete ps ms"
  shows "set (map placeholder ms) = set ps"
proof -
  from assms have d: "distinct (map placeholder ms)" and sub: "set (map placeholder ms) \<subseteq> set ps"
    and len: "length ms = length ps"
    by (simp_all add: mapping_inv_def is_complete_def)
  have "card (set ps) \<le> length ps" by (rule card_length)
  also have "\<dots> = card (set (map placeholder ms))"
    using distinct_card [OF d] len by simp
  finally have "card (set ps) \<le> card (set (map placeholder ms))" .
  with sub show ?thesis by (simp add: card_seteq)
qed

lemma set_identity_mappings [simp]: "placeholder ` set (identity_mappings ps) = set ps"
  by (simp add: identity_mappings_def image_image)

text \<open>When documents are shown, every placeholder of the selected template is literal,
  so a later merge with mappings covering the same placeholders cannot throw.\<close>

lemma consistent_literal:
  assumes "docs_consistent s" "mergedDocuments s \<noteq> []" "selectedTemplate s = Some t"
    and "set (map placeholder ms) = set (placeholders t)"
  shows "merge_all_documents t ds ms \<noteq> Inl e"
proof -
  from assms(1-3) have cov: "set (map placeholder (fieldMappings s)) = set (placeholders t)"
    and m: "merge_all_documents t (map rowData (mergedDocuments s)) (fieldMappings s) = Inr (mergedDocuments s)"
    by (auto simp: docs_consistent_def)
  from assms(2) have "map rowData (mergedDocuments s) \<noteq> []" by simp
  with m have "list_all (\<lambda>m. regex_literal (placeholder m)) (fieldMappings s)"
    by (rule merge_all_literal)
  with cov assms(4) have "list_all (\<lambda>m. regex_literal (placeholder m)) ms"
    using literal_by_names [of ms "fieldMappings s"] by simp
  then show ?thesis by (rule merge_all_not_Inl)
qed

lemmas wf_inv_defs = wf_inv_def steps_ok_def docs_consistent_def
lemmas wf_view_defs = on_template_list_def on_editor_def on_choose_source_def on_upload_def
  on_manual_form_def on_field_mapper_def on_preview_def

lemma manual_filled_inv:
  assumes inv: "wf_inv s" and sel: "selectedTemplate s = Some t" and form: "on_manual_form s"
  shows "wf_inv (handle_manual_data_filled t row keys s)"
proof (cases "merge_all_documents t [row] (identity_mappings (placeholders t))")
  case (Inl e)
  have "mergedDocuments s = []"
    using consistent_literal [of s t "identity_mappings (placeholders t)" "[row]" e] inv sel Inl
    by (auto simp: wf_inv_def)
  with Inl inv form show ?thesis
    by (simp add: handle_manual_data_filled_def wf_inv_defs on_manual_form_def)
next
  case (Inr docs)
  then have "map rowData docs = [row]" by (rule merge_all_rows)
  with Inr inv sel form show ?thesis
    by (auto simp: handle_manual_data_filled_def wf_inv_defs on_manual_form_def)
qed

lemma mapping_complete_inv:
  assumes inv: "wf_inv s" and sel: "selectedTemplate s = Some t" and fm: "on_field_mapper s"
    and mi: "mapping_inv (placeholders t) ms" and ic: "is_complete (placeholders t) ms"
  shows "wf_inv (handle_mapping_complete ms s)"
proof -
  have cov: "set (map placeholder ms) = set (placeholders t)"
    using mi ic by (rule complete_covers)
  from fm have ne: "dataset s \<noteq> []" by (simp add: on_field_mapper_def)
  show ?thesis
  proof (cases "merge_all_documents t (dataset s) ms")
    case (Inl e)
    have "mergedDocuments s = []"
      using consistent_literal [of s t ms "dataset s" e] inv sel Inl cov
      by (auto simp: wf_inv_def)
    with Inl inv sel ne fm show ?thesis
      by (simp add: handle_mapping_complete_def wf_inv_defs on_field_mapper_def)
  next
    case (Inr docs)
    then have "map rowData docs = dataset s" by (rule merge_all_rows)
    with Inr inv sel ne fm cov show ?thesis
      by (auto simp: handle_mapping_complete_def wf_inv_defs on_field_mapper_def)
  qed
qed

lemma data_loaded_inv: "wf_inv s \<Longrightarrow> wf_inv (handle_data_loaded rows headers s)"
  by (simp add: handle_data_loaded_def wf_inv_defs Let_def)

lemma wf_inv_frame:
  assumes "wf_inv s" "currentStep s' = currentStep s" "selectedTemplate s' = selectedTemplate s"
    "dataMode s' = dataMode s" "fieldMappings s' = fieldMappings s"
    "mergedDocuments s' = mergedDocuments s" "viewMode s' = viewMode s \<or> selectedTemplate s = None"
  shows "wf_inv s'"
  using assms by (auto simp: wf_inv_defs)

lemma wf_inv_step3:
  assumes "wf_inv s" "currentStep s' = 3" "selectedTemplate s' = selectedTemplate s"
    "viewMode s' = viewMode s" "fieldMappings s' = fieldMappings s" "mergedDocuments s' = mergedDocuments s"
  shows "wf_inv s'"
  using assms by (simp add: wf_inv_defs)

lemma back_to_templates_inv: "wf_inv (handle_back_to_templates s)"
  by (simp add: wf_inv_defs handle_back_to_templates_def)

lemma list_step_no_selection:
  "wf_inv s \<Longrightarrow> on_template_list s \<Longrightarrow> selectedTemplate s = None"
  by (simp add: wf_inv_defs on_template_list_def)

lemma editor_step_no_selection:
  "wf_inv s \<Longrightarrow> on_editor s \<Longrightarrow> selectedTemplate s = None"
  by (simp add: wf_inv_defs on_editor_def)

lemma template_select_inv:
  "wf_inv s \<Longrightarrow> on_template_list s \<Longrightarrow> wf_inv (handle_template_select t s)"
  by (simp add: wf_inv_defs on_template_list_def handle_template_select_def)

lemma wf_step_inv:
  assumes step: "wf_step e s = Some s'" and inv: "wf_inv s"
  shows "wf_inv s'"
proof (cases e)
  case (ManualDataFilled row keys)
  with step obtain t where "selectedTemplate s = Some t" "on_manual_form s"
    "s' = handle_manual_data_filled t row keys s"
    by (auto split: option.splits if_splits)
  with inv show ?thesis by (simp add: manual_filled_inv)
next
  case (MappingComplete ms)
  with step obtain t where "selectedTemplate s = Some t" "on_field_mapper s"
    "mapping_inv (placeholders t) ms" "is_complete (placeholders t) ms"
    "s' = handle_mapping_complete ms s"
    by (auto split: option.splits if_splits)
  with inv show ?thesis by (simp add: mapping_complete_inv)
next
  case (DataLoaded rows headers)
  with step inv show ?thesis by (auto simp: data_loaded_inv)
next
  case (TemplateSelect t)
  with step inv show ?thesis by (auto simp: template_select_inv split: if_splits)
next
  case BackToTemplates
  with step show ?thesis by (auto simp: back_to_templates_inv split: if_splits)
next
  case (DataModeSelect m)
  with step have "s' = s\<lparr>dataMode := Some m, currentStep := 3\<rparr>"
    by (simp split: if_splits)
  with wf_inv_step3 [OF inv, of s'] show ?thesis by simp
next
  case ManualBack
  with step inv show ?thesis
    by (auto simp: wf_inv_defs on_manual_form_def split: if_splits)
next
  case BackToMapping
  with step have "s' = s\<lparr>currentStep := 3\<rparr>"
    by (simp split: if_splits)
  with wf_inv_step3 [OF inv, of s'] show ?thesis by simp
next
  case (TemplateDelete tid loaded)
  with step have "on_template_list s" "s' = handle_template_delete tid loaded s"
    by (simp_all split: if_splits)
  moreover from this inv have "selectedTemplate s = None" by (simp add: list_step_no_selection)
  ultimately show ?thesis using wf_inv_frame [OF inv, of s']
    by (simp add: handle_template_delete_def)
next
  case (TemplateRename t newName now r)
  with step have "on_template_list s" "s' = handle_template_rename t newName now r s"
    by (simp_all split: if_splits)
  moreover from this inv have "selectedTemplate s = None" by (simp add: list_step_no_selection)
  ultimately show ?thesis using wf_inv_frame [OF inv, of s']
    by (simp add: handle_template_rename_def split: option.splits)
next
  case (TemplateSave r)
  with step have "on_editor s" "s' = handle_template_save r s"
    by (simp_all split: if_splits)
  moreover from this inv have "selectedTemplate s = None" by (simp add: editor_step_no_selection)
  ultimately show ?thesis using wf_inv_frame [OF inv, of s']
    by (simp add: handle_template_save_def split: option.splits)
next
  case (LoadTemplates loaded)
  with step wf_inv_frame [OF inv, of s'] show ?thesis by auto
next
  case (TemplateEdit t)
  with step have "on_template_list s" "s' = s\<lparr>editingTemplate := Some t, viewMode := ViewEdit\<rparr>"
    by (simp_all split: if_splits)
  moreover from this inv have "selectedTemplate s = None" by (simp add: list_step_no_selection)
  ultimately show ?thesis using wf_inv_frame [OF inv, of s'] by simp
next
  case CreateNew
  with step have "on_template_list s" "s' = s\<lparr>editingTemplate := None, viewMode := ViewCreate\<rparr>"
    by (simp_all split: if_splits)
  moreover from this inv have "selectedTemplate s = None" by (simp add: list_step_no_selection)
  ultimately show ?thesis using wf_inv_frame [OF inv, of s'] by simp
next
  case UploadWord
  with step have "on_template_list s" "s' = s\<lparr>viewMode := ViewWordUpload\<rparr>"
    by (simp_all split: if_splits)
  moreover from this inv have "selectedTemplate s = None" by (simp add: list_step_no_selection)
  ultimately show ?thesis using wf_inv_frame [OF inv, of s'] by simp
next
  case CancelEditor
  with step have "on_editor s" "s' = s\<lparr>viewMode := ViewList\<rparr>"
    by (simp_all split: if_splits)
  moreover from this inv have "selectedTemplate s = None" by (simp add: editor_step_no_selection)
  ultimately show ?thesis using wf_inv_frame [OF inv, of s'] by simp
qed

lemma data_mode_other: "m \<noteq> ManualMode \<longleftrightarrow> m = DatasetMode"
  by (cases m) simp_all

lemma wf_reachable_inv: "wf_reachable s \<Longrightarrow> wf_inv s"
proof (induction rule: wf_reachable.induct)
  case init
  then show ?case by (simp add: wf_inv_defs wf_init_def)
next
  case (step s e s')
  then show ?case by (blast intro: wf_step_inv)
qed

lemma wf_reachable_steps: "wf_reachable s \<Longrightarrow> steps_ok s"
  using wf_reachable_inv by (simp add: wf_inv_def)

text \<open>A stuck state stays stuck: every event enabled there (a reload of the list, another
  parse settling) keeps the step and leaves template and data mode as they are.\<close>

lemma stuck_step: "wizard_stuck s \<Longrightarrow> wf_step e s = Some s' \<Longrightarrow> wizard_stuck s'"
  by (cases e)
    (auto simp: wizard_stuck_def wf_view_defs handle_data_loaded_def Let_def split: if_splits option.splits)

lemma stuck_run: "wizard_stuck s \<Longrightarrow> wf_run s es = Some s' \<Longrightarrow> wizard_stuck s'"
proof (induction es arbitrary: s)
  case Nil
  then show ?case by simp
next
  case (Cons e es)
  then obtain s1 where "wf_step e s = Some s1" "wf_run s1 es = Some s'"
    by (auto split: option.splits)
  with Cons show ?case by (blast dest: stuck_step)
qed

lemma stuck_no_list:
  "wizard_stuck s \<Longrightarrow> \<not> (\<exists>es s'. wf_run s es = Some s' \<and> on_template_list s')"
proof
  assume "wizard_stuck s" "\<exists>es s'. wf_run s es = Some s' \<and> on_template_list s'"
  then obtain es s' where "wizard_stuck s" "wf_run s es = Some s'" "on_template_list s'" by blast
  then have "wizard_stuck s'" "on_template_list s'" by (blast intro: stuck_run)+
  then show False by (simp add: wizard_stuck_def on_template_list_def)
qed

lemma stuck_screens: "wizard_stuck s \<Longrightarrow> screens s = []"
  by (auto simp: wizard_stuck_def screens_def)




lemmas wf_eval = wf_view_defs handle_template_select_def handle_data_loaded_def
  handle_mapping_complete_def handle_manual_data_filled_def identity_mappings_def
  mapping_inv_def is_complete_def batch_eval js_simps
section \<open>Properties\<close>

text \<open>
  C9. Every reachable state that holds merged documents holds the merge of the selected
  template and the current mappings, which cover exactly the template's placeholders,
  with the rows the documents carry: the preview and the exports never show documents
  of an earlier template or mapping.
\<close>

theorem preview_documents_are_merge:
  assumes "wf_reachable s" "mergedDocuments s \<noteq> []"
  shows "\<exists>t. selectedTemplate s = Some t \<and>
           set (map placeholder (fieldMappings s)) = set (placeholders t) \<and>
           merge_all_documents t (map rowData (mergedDocuments s)) (fieldMappings s) = Inr (mergedDocuments s)"
  using wf_reachable_inv [OF assms(1)] assms(2) by (simp add: wf_inv_def docs_consistent_def)

theorem preview_documents_are_merge_witness:
  "\<exists>s. wf_run wf_init [LoadTemplates [hi_template], TemplateSelect hi_template, DataModeSelect DatasetMode,
        DataLoaded [[''Name'' \<mapsto> JStr ''A'']] [''Name''],
        MappingComplete [\<lparr>placeholder = ''Name'', dataField = ''Name''\<rparr>]] = Some s \<and>
     mergedDocuments s \<noteq> [] \<and>
     merge_all_documents hi_template (map rowData (mergedDocuments s)) (fieldMappings s) = Inr (mergedDocuments s)"
proof -
  obtain s where r: "wf_run wf_init [LoadTemplates [hi_template], TemplateSelect hi_template, DataModeSelect DatasetMode,
        DataLoaded [[''Name'' \<mapsto> JStr ''A'']] [''Name''],
        MappingComplete [\<lparr>placeholder = ''Name'', dataField = ''Name''\<rparr>]] = Some s"
    and d: "mergedDocuments s \<noteq> []"
    by (simp add: wf_init_def wf_eval)
  have reach: "wf_reachable s"
    using wf_run_reachable [OF wf_reachable.init r] .
  from r have sel: "selectedTemplate s = Some hi_template"
    by (auto simp: wf_init_def wf_eval)
  from preview_documents_are_merge [OF reach d] sel r d show ?thesis by auto
qed

text \<open>
  C10. The wizard's step structure: every reachable state is on one of the four steps, the
  step indicator shows exactly one active step, the preview step always has documents to
  show, and the page never renders two screens at once; it renders none exactly in the
  stuck states (the fill/map step without a template or without a data mode) that a
  parse settling after the user left the upload screen produces.
\<close>

theorem wizard_steps:
  "wf_reachable s \<Longrightarrow>
   currentStep s \<in> {1, 2, 3, 4} \<and> (currentStep s = 4 \<longrightarrow> on_preview s) \<and>
   count_list (step_indicator (currentStep s)) StepActive = 1 \<and>
   length (screens s) \<le> 1 \<and> (screens s = [] \<longleftrightarrow> wizard_stuck s)"
proof -
  assume r: "wf_reachable s"
  from wf_reachable_steps [OF r] have "steps_ok s" .
  then show ?thesis
    by (cases "viewMode s")
      (auto simp: steps_ok_def on_preview_def step_indicator_def STEPS_def step_status_def
        screens_def wizard_stuck_def data_mode_other)
qed

text \<open>The run of the late parse: a template is selected, the user chooses to upload
  (the uploader starts parsing the dropped file), goes back to the templates, and the
  parse then settles.\<close>

abbreviation late_parse_run :: "wf_event list" where
  "late_parse_run \<equiv>
     [TemplateSelect hi_template, DataModeSelect DatasetMode, BackToTemplates,
      DataLoaded [[''Name'' \<mapsto> JStr ''A'']] [''Name'']]"

theorem wizard_steps_witness:
  "\<exists>s. wf_run wf_init late_parse_run = Some s \<and> currentStep s = 3 \<and> screens s = [] \<and>
       count_list (step_indicator (currentStep s)) StepActive = 1"
proof -
  obtain s where r: "wf_run wf_init late_parse_run = Some s" and st: "wizard_stuck s"
    by (simp add: wf_init_def wf_eval handle_back_to_templates_def wizard_stuck_def)
  have "wf_reachable s" using wf_run_reachable [OF wf_reachable.init r] .
  from wizard_steps [OF this] r st show ?thesis by (auto simp: wizard_stuck_def)
qed



text \<open>
  C5. A parse that settles while the user is on the first or second step (after leaving
  the upload screen with "Back to Templates", and possibly choosing another template)
  moves the page to the fill/map step without a template or without a data mode: the page
  is blank and no sequence of user actions leads back to the template list.
\<close>

theorem late_parse_dead_end:
  assumes "wf_reachable s" "currentStep s \<in> {1, 2}" "rows \<noteq> []"
  shows "\<exists>s'. wf_step (DataLoaded rows hs) s = Some s' \<and> wf_reachable s' \<and> screens s' = [] \<and>
              \<not> (\<exists>es s''. wf_run s' es = Some s'' \<and> on_template_list s'')"
proof -
  let ?s' = "handle_data_loaded rows hs s"
  have step: "wf_step (DataLoaded rows hs) s = Some ?s'" by simp
  from wf_reachable_steps [OF assms(1)] assms(2,3) have "wizard_stuck ?s'"
    by (auto simp: steps_ok_def wizard_stuck_def handle_data_loaded_def Let_def)
  with step wf_reachable.step [OF assms(1) step] stuck_screens stuck_no_list show ?thesis by blast
qed

theorem late_parse_dead_end_witness:
  "\<exists>s s'. wf_run wf_init [TemplateSelect hi_template, DataModeSelect DatasetMode, BackToTemplates] = Some s \<and>
     wf_step (DataLoaded [[''Name'' \<mapsto> JStr ''A'']] [''Name'']) s = Some s' \<and> screens s' = [] \<and>
     \<not> (\<exists>es s''. wf_run s' es = Some s'' \<and> on_template_list s'')"
proof -
  obtain s where r: "wf_run wf_init [TemplateSelect hi_template, DataModeSelect DatasetMode, BackToTemplates] = Some s"
    and st: "currentStep s \<in> {1, 2}"
    by (simp add: wf_init_def wf_eval handle_back_to_templates_def)
  have "wf_reachable s" using wf_run_reachable [OF wf_reachable.init r] .
  from late_parse_dead_end [OF this st, of "[[''Name'' \<mapsto> JStr ''A'']]" "[''Name'']"] r show ?thesis by auto
qed

text \<open>
  C24. Stale manual row: whenever a manual fill reaches the preview, going back twice and
  choosing "Upload Dataset" opens the field mapper directly on the manually entered row
  and its keys; the uploader is skipped and no dataset is ever uploaded.
\<close>

theorem manual_row_reaches_field_mapper:
  assumes "wf_step (ManualDataFilled row keys) s = Some s1" "currentStep s1 = 4"
  shows "\<exists>s'. wf_run s1 [BackToMapping, ManualBack, DataModeSelect DatasetMode] = Some s' \<and>
              screens s' = [ScrFieldMapper] \<and> dataset s' = [row] \<and> dataHeaders s' = keys"
proof -
  from assms(1) obtain t where sel: "selectedTemplate s = Some t" and form: "on_manual_form s"
    and s1: "s1 = handle_manual_data_filled t row keys s"
    by (auto split: option.splits if_splits)
  from assms(2) s1 form obtain docs where
    m: "merge_all_documents t [row] (identity_mappings (placeholders t)) = Inr docs"
    and s1': "s1 = s\<lparr>dataset := [row], dataHeaders := keys,
                     fieldMappings := identity_mappings (placeholders t), mergedDocuments := docs,
                     currentStep := 4\<rparr>"
    by (auto simp: handle_manual_data_filled_def on_manual_form_def Let_def split: sum.splits)
  from merge_all_rows [OF m] have "docs \<noteq> []" by auto
  with s1' sel form show ?thesis
    by (simp add: wf_view_defs screens_def)
qed

theorem manual_row_reaches_field_mapper_witness:
  "\<exists>s s1. wf_run wf_init [LoadTemplates [hi_template], TemplateSelect hi_template, DataModeSelect ManualMode] = Some s \<and>
     wf_step (ManualDataFilled [''Name'' \<mapsto> JStr ''Ann''] [''Name'']) s = Some s1 \<and> currentStep s1 = 4 \<and>
     (\<exists>s'. wf_run s1 [BackToMapping, ManualBack, DataModeSelect DatasetMode] = Some s' \<and>
        screens s' = [ScrFieldMapper] \<and> dataset s' = [[''Name'' \<mapsto> JStr ''Ann'']])"
proof -
  obtain s s1 where r: "wf_run wf_init [LoadTemplates [hi_template], TemplateSelect hi_template, DataModeSelect ManualMode] = Some s"
    and f: "wf_step (ManualDataFilled [''Name'' \<mapsto> JStr ''Ann''] [''Name'']) s = Some s1" and st: "currentStep s1 = 4"
    by (simp add: wf_init_def wf_eval)
  from manual_row_reaches_field_mapper [OF f st] r f st show ?thesis by blast
qed

end
