(* ===== verification/Template_Store.thy ===== *)
theory Template_Store
  imports Template_Types "HOL-Library.List_Lexorder" "HOL-Library.Char_ord"
begin

text \<open>
  Template persistence (src/lib/templateUtils.ts: \<open>saveTemplate\<close>, \<open>getTemplates\<close>,
  \<open>getTemplate\<close>, \<open>deleteTemplate\<close>, \<open>getTemplateFile\<close>) over an explicit store:
  the rows of the \<open>templates\<close> table, in insertion order, and the files of the
  \<open>word-templates\<close> bucket, a map from paths to file contents. The database is the
  repository's collaborator: a lookup by id returns the first row with that id, an insert
  appends a row whose timestamps the database sets to the current time, an update changes
  the given columns of the rows with that id (a column written as \<open>undefined\<close> is left
  as it is). Whether a storage or table call fails is a parameter of the operation.
\<close>

section \<open>Store\<close>

record db_row =
  row_id :: string
  row_name :: string
  row_placeholders :: "string list"
  storage_path :: string
  created_at :: string
  updated_at :: string

record 'b tpl_store =
  tpl_rows :: "db_row list"
  bucket :: "string \<rightharpoonup> 'b"

definition find_row :: "string \<Rightarrow> db_row list \<Rightarrow> db_row option" where
  "find_row tid rows = find (\<lambda>r. row_id r = tid) rows"

text \<open>The template \<open>getTemplates\<close> and \<open>getTemplate\<close> build from a row.\<close>

definition row_to_template :: "db_row \<Rightarrow> template" where
  "row_to_template r =
     \<lparr>template_id = row_id r, name = row_name r, content = [], placeholders = row_placeholders r,
      createdAt = created_at r, updatedAt = updated_at r, wordDocumentData = Some (storage_path r),
      isWordTemplate = Some True\<rparr>"

section \<open>saveTemplate\<close>

text \<open>\<open>file.name.split('.').pop()\<close>: the text after the last dot, or the whole name.\<close>

definition file_ext :: "string \<Rightarrow> string" where
  "file_ext fname = rev (takeWhile (\<lambda>c. c \<noteq> CHR ''.'') (rev fname))"

definition upload_path :: "template \<Rightarrow> string \<Rightarrow> string" where
  "upload_path t fname = template_id t @ ''.'' @ file_ext fname"

text \<open>The outcome of the two remote writes \<open>saveTemplate\<close> makes.\<close>

record save_io =
  upload_ok :: bool
  write_ok :: bool
  save_now :: string

definition update_row :: "template \<Rightarrow> string option \<Rightarrow> db_row \<Rightarrow> db_row" where
  "update_row t path r =
     (if row_id r = template_id t
      then r\<lparr>row_name := name t, row_placeholders := placeholders t,
             storage_path := (case path of None \<Rightarrow> storage_path r | Some p \<Rightarrow> p)\<rparr>
      else r)"

definition new_row :: "template \<Rightarrow> string option \<Rightarrow> string \<Rightarrow> db_row" where
  "new_row t path now =
     \<lparr>row_id = template_id t, row_name = name t, row_placeholders = placeholders t,
      storage_path = (case path of None \<Rightarrow> [] | Some p \<Rightarrow> p), created_at = now, updated_at = now\<rparr>"

text \<open>The table write: update when a row with the id exists, insert otherwise; the
  returned row is the one \<open>.select().single()\<close> reads back.\<close>

definition write_template ::
  "save_io \<Rightarrow> template \<Rightarrow> string option \<Rightarrow> 'b tpl_store \<Rightarrow> db_row option \<times> 'b tpl_store" where
  "write_template io t path st =
     (if \<not> write_ok io then (None, st)
      else (case find_row (template_id t) (tpl_rows st) of
              Some r \<Rightarrow>
                (let rows = map (update_row t path) (tpl_rows st)
                 in (find_row (template_id t) rows, st\<lparr>tpl_rows := rows\<rparr>))
            | None \<Rightarrow>
                (let r = new_row t path (save_now io)
                 in (Some r, st\<lparr>tpl_rows := tpl_rows st @ [r]\<rparr>))))"

text \<open>\<open>saveTemplate(template, file)\<close>; \<open>null\<close> when a call fails.\<close>

definition save_template ::
  "save_io \<Rightarrow> template \<Rightarrow> (string \<times> 'b) option \<Rightarrow> 'b tpl_store \<Rightarrow> db_row option \<times> 'b tpl_store" where
  "save_template io t upload st =
     (case upload of
        None \<Rightarrow> write_template io t (wordDocumentData t) st
      | Some (fname, blob) \<Rightarrow>
          if \<not> upload_ok io then (None, st)
          else
            (let path = upload_path t fname
             in write_template io t (Some path) (st\<lparr>bucket := (bucket st)(path \<mapsto> blob)\<rparr>)))"

section \<open>Reading and deleting\<close>

text \<open>\<open>getTemplates\<close>: all rows, most recently updated first.\<close>

definition get_templates :: "'b tpl_store \<Rightarrow> template list" where
  "get_templates st = map row_to_template (rev (sort_key updated_at (tpl_rows st)))"

text \<open>When the select fails, \<open>getTemplates\<close> logs the error and returns \<open>[]\<close>.\<close>

definition fetch_templates :: "bool \<Rightarrow> 'b tpl_store \<Rightarrow> template list" where
  "fetch_templates read_ok st = (if read_ok then get_templates st else [])"

definition get_template :: "string \<Rightarrow> 'b tpl_store \<Rightarrow> template option" where
  "get_template tid st = map_option row_to_template (find_row tid (tpl_rows st))"

text \<open>The outcome of the three remote calls \<open>deleteTemplate\<close> makes: the select of
  the row's storage path, the removal of the file, the delete of the row.\<close>

record delete_io =
  select_ok :: bool
  remove_ok :: bool
  delete_ok :: bool

text \<open>\<open>deleteTemplate(id)\<close>: the storage path is read with \<open>maybeSingle\<close> (no row
  when the select fails); when the row has a non-empty path its file is removed (a failed
  removal is ignored); then the rows with the id are deleted, and a failure of that call is
  only logged.\<close>

definition delete_template :: "delete_io \<Rightarrow> string \<Rightarrow> 'b tpl_store \<Rightarrow> 'b tpl_store" where
  "delete_template io tid st =
     (let found = (if select_ok io then find_row tid (tpl_rows st) else None);
          st' = (case found of
                   Some r \<Rightarrow>
                     if storage_path r \<noteq> [] then
                       (if remove_ok io then st\<lparr>bucket := (bucket st)(storage_path r := None)\<rparr> else st)
                     else st
                 | None \<Rightarrow> st)
      in if delete_ok io then st'\<lparr>tpl_rows := filter (\<lambda>r. row_id r \<noteq> tid) (tpl_rows st')\<rparr> else st')"

definition get_template_file :: "string \<Rightarrow> 'b tpl_store \<Rightarrow> 'b option" where
  "get_template_file path st = bucket st path"

section \<open>Lemmas\<close>

lemma find_row_update:
  "find_row (template_id t) rows = Some r \<Longrightarrow>
   find_row (template_id t) (map (update_row t path) rows) = Some (update_row t path r)"
  by (induction rows) (auto simp: find_row_def update_row_def)

lemma find_row_snoc:
  "find_row tid rows = None \<Longrightarrow> find_row tid (rows @ [r]) = (if row_id r = tid then Some r else None)"
  by (induction rows) (auto simp: find_row_def)

lemma find_row_filter: "find_row tid (filter (\<lambda>r. row_id r \<noteq> tid) rows) = None"
  by (induction rows) (auto simp: find_row_def)

lemma find_row_id: "find_row tid rows = Some r \<Longrightarrow> row_id r = tid"
  by (auto simp: find_row_def find_Some_iff)

text \<open>A successful table write leaves a row for the template, read back by id, with
  the template's name and placeholders and the written path.\<close>

lemma write_template_Some:
  assumes "write_template io t path st = (Some r, st')"
  shows "find_row (template_id t) (tpl_rows st') = Some r \<and> row_name r = name t \<and>
         row_placeholders r = placeholders t \<and> row_id r = template_id t \<and>
         (\<forall>p. path = Some p \<longrightarrow> storage_path r = p) \<and> bucket st' = bucket st"
proof (cases "find_row (template_id t) (tpl_rows st)")
  case None
  with assms show ?thesis
    by (auto simp: write_template_def Let_def find_row_snoc new_row_def split: if_splits)
next
  case (Some r0)
  have "row_id r0 = template_id t" using Some by (rule find_row_id)
  with assms Some show ?thesis
    by (auto simp: write_template_def Let_def find_row_update update_row_def split: if_splits)
qed

lemma write_template_None:
  "\<not> write_ok io \<Longrightarrow> write_template io t path st = (None, st)"
  by (simp add: write_template_def)

text \<open>A failed save leaves the table as it was (the upload may have happened).\<close>

lemma save_template_failed_rows:
  "fst (save_template io t up st) = None \<Longrightarrow> tpl_rows (snd (save_template io t up st)) = tpl_rows st"
  by (auto simp: save_template_def write_template_def Let_def find_row_update
      split: option.splits if_splits prod.splits)

lemma get_templates_rows: "tpl_rows st' = tpl_rows st \<Longrightarrow> get_templates st' = get_templates st"
  by (simp add: get_templates_def)

text \<open>Every template \<open>getTemplates\<close> returns is flagged as a Word template.\<close>

lemma get_templates_word: "t \<in> set (get_templates st) \<Longrightarrow> isWordTemplate t = Some True"
  by (auto simp: get_templates_def row_to_template_def)

lemmas store_defs = save_template_def write_template_def get_template_def get_template_file_def
  delete_template_def row_to_template_def find_row_def new_row_def upload_path_def file_ext_def Let_def

section \<open>Properties\<close>

text \<open>
  C22. Save then load: after a successful \<open>saveTemplate\<close>, \<open>getTemplate\<close> of its id
  returns a template with the same id, name and placeholders, flagged as a Word
  template and with empty content; an uploaded file is stored under
  \<open>id.ext\<close>, the path the loaded template carries.
\<close>

theorem save_template_roundtrip:
  assumes "save_template io t upload st = (Some r, st')"
  shows "\<exists>t'. get_template (template_id t) st' = Some t' \<and> template_id t' = template_id t \<and>
           name t' = name t \<and> placeholders t' = placeholders t \<and> content t' = [] \<and>
           isWordTemplate t' = Some True \<and>
           (case upload of
              Some (fname, blob) \<Rightarrow>
                wordDocumentData t' = Some (upload_path t fname) \<and>
                get_template_file (upload_path t fname) st' = Some blob
            | None \<Rightarrow> True)"
proof (cases upload)
  case None
  with assms have "write_template io t (wordDocumentData t) st = (Some r, st')"
    by (simp add: save_template_def)
  from write_template_Some [OF this] None show ?thesis
    by (simp add: get_template_def row_to_template_def)
next
  case (Some f)
  obtain fname blob where f: "f = (fname, blob)" by (cases f)
  with assms Some have up: "upload_ok io"
    and w: "write_template io t (Some (upload_path t fname))
              (st\<lparr>bucket := (bucket st)(upload_path t fname \<mapsto> blob)\<rparr>) = (Some r, st')"
    by (auto simp: save_template_def Let_def split: if_splits)
  from write_template_Some [OF w] Some f show ?thesis
    by (simp add: get_template_def row_to_template_def get_template_file_def)
qed

theorem save_template_roundtrip_witness:
  "save_template \<lparr>upload_ok = True, write_ok = True, save_now = ''t0''\<rparr>
     (\<lparr>template_id = ''7'', name = ''Letter'', content = [], placeholders = [''Name''], createdAt = [],
       updatedAt = [], wordDocumentData = Some [], isWordTemplate = Some True\<rparr>)
     (Some (''letter.docx'', ''DOCX''))
     \<lparr>tpl_rows = [], bucket = Map.empty\<rparr> =
   (Some \<lparr>row_id = ''7'', row_name = ''Letter'', row_placeholders = [''Name''], storage_path = ''7.docx'',
          created_at = ''t0'', updated_at = ''t0''\<rparr>,
    \<lparr>tpl_rows = [\<lparr>row_id = ''7'', row_name = ''Letter'', row_placeholders = [''Name''], storage_path = ''7.docx'',
          created_at = ''t0'', updated_at = ''t0''\<rparr>], bucket = [''7.docx'' \<mapsto> ''DOCX'']\<rparr>) \<and>
   get_template_file ''7.docx''
     \<lparr>tpl_rows = [\<lparr>row_id = ''7'', row_name = ''Letter'', row_placeholders = [''Name''], storage_path = ''7.docx'',
          created_at = ''t0'', updated_at = ''t0''\<rparr>], bucket = [''7.docx'' \<mapsto> ''DOCX'']\<rparr> = Some ''DOCX''"
proof -
  let ?t = "\<lparr>template_id = ''7'', name = ''Letter'', content = [], placeholders = [''Name''], createdAt = [],
       updatedAt = [], wordDocumentData = Some [], isWordTemplate = Some True\<rparr>"
  let ?r = "\<lparr>row_id = ''7'', row_name = ''Letter'', row_placeholders = [''Name''], storage_path = ''7.docx'',
          created_at = ''t0'', updated_at = ''t0''\<rparr>"
  let ?st = "\<lparr>tpl_rows = [?r], bucket = [''7.docx'' \<mapsto> ''DOCX'']\<rparr>"
  have h: "save_template \<lparr>upload_ok = True, write_ok = True, save_now = ''t0''\<rparr> ?t (Some (''letter.docx'', ''DOCX''))
     \<lparr>tpl_rows = [], bucket = Map.empty\<rparr> = (Some ?r, ?st)"
    by (simp add: store_defs)
  from save_template_roundtrip [OF h] have "get_template_file (upload_path ?t ''letter.docx'') ?st = Some ''DOCX''"
    by auto
  with h show ?thesis by (simp add: upload_path_def file_ext_def)
qed

text \<open>
  C25. Delete: when the row delete succeeds no template with the id can be loaded, whatever
  happened to its file; when it fails the row stays unchanged. The file of the row is
  removed exactly when the path was read and the removal succeeded, so a failed row
  delete after a successful removal leaves a listed template without its file, and a
  failed removal before a successful row delete leaves an orphan file in the bucket.
\<close>

theorem delete_template_removes:
  "(delete_ok io \<longrightarrow> get_template tid (delete_template io tid st) = None) \<and>
   (\<not> delete_ok io \<longrightarrow> tpl_rows (delete_template io tid st) = tpl_rows st) \<and>
   (case find_row tid (tpl_rows st) of
      Some r \<Rightarrow> storage_path r \<noteq> [] \<longrightarrow>
        get_template_file (storage_path r) (delete_template io tid st) =
          (if select_ok io \<and> remove_ok io then None else bucket st (storage_path r))
    | None \<Rightarrow> bucket (delete_template io tid st) = bucket st)"
  by (auto simp: delete_template_def get_template_def get_template_file_def find_row_filter Let_def
      split: option.splits)

theorem delete_template_removes_witness:
  "get_template ''7'' (delete_template \<lparr>select_ok = True, remove_ok = True, delete_ok = True\<rparr> ''7''
      \<lparr>tpl_rows = [\<lparr>row_id = ''7'', row_name = ''L'', row_placeholders = [], storage_path = ''7.docx'',
          created_at = [], updated_at = []\<rparr>], bucket = [''7.docx'' \<mapsto> ()]\<rparr>) = None \<and>
   get_template_file ''7.docx'' (delete_template \<lparr>select_ok = True, remove_ok = True, delete_ok = False\<rparr> ''7''
      \<lparr>tpl_rows = [\<lparr>row_id = ''7'', row_name = ''L'', row_placeholders = [], storage_path = ''7.docx'',
          created_at = [], updated_at = []\<rparr>], bucket = [''7.docx'' \<mapsto> ()]\<rparr>) = None \<and>
   tpl_rows (delete_template \<lparr>select_ok = True, remove_ok = True, delete_ok = False\<rparr> ''7''
      \<lparr>tpl_rows = [\<lparr>row_id = ''7'', row_name = ''L'', row_placeholders = [], storage_path = ''7.docx'',
          created_at = [], updated_at = []\<rparr>], bucket = [''7.docx'' \<mapsto> ()]\<rparr>) \<noteq> [] \<and>
   get_template_file ''7.docx'' (delete_template \<lparr>select_ok = True, remove_ok = False, delete_ok = True\<rparr> ''7''
      \<lparr>tpl_rows = [\<lparr>row_id = ''7'', row_name = ''L'', row_placeholders = [], storage_path = ''7.docx'',
          created_at = [], updated_at = []\<rparr>], bucket = [''7.docx'' \<mapsto> ()]\<rparr>) = Some ()"
  using delete_template_removes [of "\<lparr>select_ok = True, remove_ok = True, delete_ok = True\<rparr>" "''7''"
      "\<lparr>tpl_rows = [\<lparr>row_id = ''7'', row_name = ''L'', row_placeholders = [], storage_path = ''7.docx'',
          created_at = [], updated_at = []\<rparr>], bucket = [''7.docx'' \<mapsto> ()]\<rparr>"]
    delete_template_removes [of "\<lparr>select_ok = True, remove_ok = True, delete_ok = False\<rparr>" "''7''"
      "\<lparr>tpl_rows = [\<lparr>row_id = ''7'', row_name = ''L'', row_placeholders = [], storage_path = ''7.docx'',
          created_at = [], updated_at = []\<rparr>], bucket = [''7.docx'' \<mapsto> ()]\<rparr>"]
    delete_template_removes [of "\<lparr>select_ok = True, remove_ok = False, delete_ok = True\<rparr>" "''7''"
      "\<lparr>tpl_rows = [\<lparr>row_id = ''7'', row_name = ''L'', row_placeholders = [], storage_path = ''7.docx'',
          created_at = [], updated_at = []\<rparr>], bucket = [''7.docx'' \<mapsto> ()]\<rparr>"]
  by (simp add: find_row_def)

end
