(* ===== verification/Template_Authoring.thy ===== *)
theory Template_Authoring
  imports Template_Types Extractor
begin

text \<open>
  Template authoring: the editor of text templates (src/components/TemplateEditor.tsx),
  the upload of Word templates (src/components/WordTemplateUploader.tsx) with the
  placeholder extraction it calls (\<open>extractPlaceholdersFromWord\<close>,
  src/lib/wordDocumentUtils.ts), and the search of the template list
  (src/components/TemplateList.tsx). Fresh ids (\<open>crypto.randomUUID()\<close>) and the
  clock are parameters; reading a \<open>.docx\<close> archive into its text
  (\<open>PizZip\<close>, \<open>getFullText\<close>) is the parameter \<open>full_text\<close>, \<open>None\<close> when the
  file is not a readable document. The uploader is a step function over its controls
  and over the settling of the extractions it started, which may come in any order.
\<close>

section \<open>TemplateEditor\<close>

record editor_state =
  ed_name :: string
  ed_content :: string
  detected :: "string list"

text \<open>The initial state: \<open>template?.name || ""\<close> and the like.\<close>

definition editor_init :: "template option \<Rightarrow> editor_state" where
  "editor_init t =
     (case t of
        None \<Rightarrow> \<lparr>ed_name = [], ed_content = [], detected = []\<rparr>
      | Some t \<Rightarrow> \<lparr>ed_name = name t, ed_content = content t, detected = placeholders t\<rparr>)"

definition handle_content_change :: "string \<Rightarrow> editor_state \<Rightarrow> editor_state" where
  "handle_content_change v st = st\<lparr>ed_content := v, detected := extract_placeholders v\<rparr>"

text \<open>\<open>insertPlaceholder\<close>: the selection \<open>[start, end)\<close> of the text area is replaced
  by \<open>{{placeholder}}\<close> (\<open>substring\<close> clamps to the content).\<close>

definition insert_placeholder :: "string \<Rightarrow> nat \<Rightarrow> nat \<Rightarrow> editor_state \<Rightarrow> editor_state" where
  "insert_placeholder p start stop st =
     handle_content_change (take start (ed_content st) @ ''{{'' @ p @ ''}}'' @ drop stop (ed_content st)) st"

datatype editor_event = NameChange string | ContentChange string | InsertPlaceholder string nat nat

fun editor_step :: "editor_event \<Rightarrow> editor_state \<Rightarrow> editor_state" where
  "editor_step (NameChange v) st = st\<lparr>ed_name := v\<rparr>"
| "editor_step (ContentChange v) st = handle_content_change v st"
| "editor_step (InsertPlaceholder p start stop) st = insert_placeholder p start stop st"

definition editor_run :: "editor_state \<Rightarrow> editor_event list \<Rightarrow> editor_state" where
  "editor_run st evs = foldl (\<lambda>s e. editor_step e s) st evs"

text \<open>The quick-insert buttons and what the editor shows: the detected placeholders
  (each as \<open>{{p}}\<close>, the box hidden when there are none) and whether Save is
  enabled.\<close>

definition QUICK_INSERT :: "string list" where
  "QUICK_INSERT = [''Name'', ''Email'', ''Date'', ''CompanyName'', ''Phone'']"

definition editor_save_enabled :: "editor_state \<Rightarrow> bool" where
  "editor_save_enabled st \<longleftrightarrow> js_trim (ed_name st) \<noteq> [] \<and> js_trim (ed_content st) \<noteq> []"

definition editor_view :: "editor_state \<Rightarrow> string list option \<times> bool" where
  "editor_view st =
     (if detected st = [] then None else Some (map (\<lambda>p. ''{{'' @ p @ ''}}'') (detected st)),
      editor_save_enabled st)"

text \<open>\<open>handleSave\<close>, behind the Save button that is disabled while the name or the
  content is blank: the template handed to \<open>onSave\<close>.\<close>

definition editor_save :: "template option \<Rightarrow> string \<Rightarrow> string \<Rightarrow> editor_state \<Rightarrow> template option" where
  "editor_save t fresh_id now st =
     (if js_trim (ed_name st) = [] \<or> js_trim (ed_content st) = [] then None
      else Some
        \<lparr>template_id = (case t of Some t \<Rightarrow> if template_id t = [] then fresh_id else template_id t | None \<Rightarrow> fresh_id),
         name = ed_name st, content = ed_content st, placeholders = detected st,
         createdAt = (case t of Some t \<Rightarrow> if createdAt t = [] then now else createdAt t | None \<Rightarrow> now),
         updatedAt = now, wordDocumentData = None, isWordTemplate = None\<rparr>)"

section \<open>WordTemplateUploader\<close>

text \<open>\<open>extractPlaceholdersFromWord\<close>: the single-brace scan of the document text.\<close>

definition extract_placeholders_from_word :: "('b \<Rightarrow> string option) \<Rightarrow> 'b \<Rightarrow> string list option" where
  "extract_placeholders_from_word full_text blob = map_option extract_placeholders_from_text (full_text blob)"

text \<open>\<open>/\.docx?$/i\<close>, tested and stripped.\<close>

definition is_word_name :: "string \<Rightarrow> bool" where
  "is_word_name fname \<longleftrightarrow> js_ends_with (js_to_lower fname) ''.docx'' \<or> js_ends_with (js_to_lower fname) ''.doc''"

definition strip_word_ext :: "string \<Rightarrow> string" where
  "strip_word_ext fname =
     (if js_ends_with (js_to_lower fname) ''.docx'' then take (length fname - 5) fname
      else if js_ends_with (js_to_lower fname) ''.doc'' then take (length fname - 4) fname
      else fname)"

text \<open>The component's state. \<open>handleFile\<close> is asynchronous: its first part runs at
  once, the rest when \<open>extractPlaceholdersFromWord\<close> settles. \<open>wu_pending\<close> holds the
  files whose extraction has started and not yet settled, in start order; it is the
  environment's state (the promises in flight), not a React state.\<close>

record 'b word_upload_state =
  wu_name :: string
  wu_file :: "(string \<times> 'b) option"
  wu_placeholders :: "string list"
  wu_processing :: bool
  wu_dragging :: bool
  wu_pending :: "(string \<times> 'b) list"

definition word_upload_init :: "'b word_upload_state" where
  "word_upload_init = \<lparr>wu_name = [], wu_file = None, wu_placeholders = [], wu_processing = False,
                       wu_dragging = False, wu_pending = []\<rparr>"

text \<open>\<open>handleFile\<close> up to its \<open>await\<close>: a name that is not a Word name is refused;
  otherwise processing starts, the file is kept and an empty template name is filled
  from the file name.\<close>

definition word_file_start :: "string \<times> 'b \<Rightarrow> 'b word_upload_state \<Rightarrow> 'b word_upload_state" where
  "word_file_start f st =
     (if \<not> is_word_name (fst f) then st
      else st\<lparr>wu_processing := True, wu_file := Some f,
              wu_name := (if wu_name st = [] then strip_word_ext (fst f) else wu_name st),
              wu_pending := wu_pending st @ [f]\<rparr>)"

text \<open>The rest of \<open>handleFile\<close>, when the extraction of the \<open>i\<close>-th file in flight
  settles: its placeholders replace the shown ones unless it throws, and processing
  ends in either case (\<open>finally\<close>).\<close>

definition word_extract_done ::
  "('b \<Rightarrow> string option) \<Rightarrow> nat \<Rightarrow> 'b word_upload_state \<Rightarrow> 'b word_upload_state" where
  "word_extract_done full_text i st =
     (let f = wu_pending st ! i;
          st' = st\<lparr>wu_pending := take i (wu_pending st) @ drop (Suc i) (wu_pending st),
                   wu_processing := False\<rparr>
      in case extract_placeholders_from_word full_text (snd f) of
           None \<Rightarrow> st'
         | Some ps \<Rightarrow> st'\<lparr>wu_placeholders := ps\<rparr>)"

text \<open>\<open>handleFile\<close> when the extraction settles before anything else happens.\<close>

definition word_handle_file ::
  "('b \<Rightarrow> string option) \<Rightarrow> string \<times> 'b \<Rightarrow> 'b word_upload_state \<Rightarrow> 'b word_upload_state" where
  "word_handle_file full_text f st =
     (if \<not> is_word_name (fst f) then st
      else word_extract_done full_text (length (wu_pending st)) (word_file_start f st))"

definition word_handle_drop ::
  "(string \<times> 'b) list \<Rightarrow> 'b word_upload_state \<Rightarrow> 'b word_upload_state" where
  "word_handle_drop files st =
     (let st' = st\<lparr>wu_dragging := False\<rparr> in
      case files of [] \<Rightarrow> st' | f # _ \<Rightarrow> word_file_start f st')"

definition word_handle_file_input ::
  "(string \<times> 'b) list \<Rightarrow> 'b word_upload_state \<Rightarrow> 'b word_upload_state" where
  "word_handle_file_input files st = (case files of [] \<Rightarrow> st | f # _ \<Rightarrow> word_file_start f st)"

definition word_clear_file :: "'b word_upload_state \<Rightarrow> 'b word_upload_state" where
  "word_clear_file st = st\<lparr>wu_file := None, wu_placeholders := []\<rparr>"

text \<open>\<open>handleSave\<close>: refused without a file or with a blank name; otherwise the
  template and the file handed to \<open>onSave\<close>. The processing flag it sets is reset in
  its \<open>finally\<close> within the same handler.\<close>

definition word_save ::
  "string \<Rightarrow> string \<Rightarrow> 'b word_upload_state \<Rightarrow> (template \<times> (string \<times> 'b)) option" where
  "word_save fresh_id now st =
     (case wu_file st of
        None \<Rightarrow> None
      | Some f \<Rightarrow>
          if js_trim (wu_name st) = [] then None
          else Some (\<lparr>template_id = fresh_id, name = js_trim (wu_name st), content = [],
                      placeholders = wu_placeholders st, createdAt = now, updatedAt = now,
                      wordDocumentData = Some [], isWordTemplate = Some True\<rparr>, f))"

text \<open>The events of the uploader, guarded by what is on the screen: the drop zone and
  the file input only while no file is kept, the clear button only while one is, the
  Save button while it is enabled (a file, a non-blank name, not processing). The
  \<open>disabled\<close> flag of the Choose File button is passed to a label, which does not
  block the hidden input. \<open>WuExtractDone i\<close> is the environment settling the
  \<open>i\<close>-th extraction in flight, in any order.\<close>

datatype 'b wu_event =
    WuNameInput string | WuDragOver | WuDragLeave
  | WuDrop "(string \<times> 'b) list" | WuFileInput "(string \<times> 'b) list"
  | WuExtractDone nat | WuClear | WuSave string string

fun wu_step ::
  "('b \<Rightarrow> string option) \<Rightarrow> 'b wu_event \<Rightarrow> 'b word_upload_state \<Rightarrow>
   ('b word_upload_state \<times> (template \<times> (string \<times> 'b)) option) option" where
  "wu_step ft (WuNameInput v) st = Some (st\<lparr>wu_name := v\<rparr>, None)"
| "wu_step ft WuDragOver st =
     (if wu_file st = None then Some (st\<lparr>wu_dragging := True\<rparr>, None) else None)"
| "wu_step ft WuDragLeave st =
     (if wu_file st = None then Some (st\<lparr>wu_dragging := False\<rparr>, None) else None)"
| "wu_step ft (WuDrop files) st =
     (if wu_file st = None then Some (word_handle_drop files st, None) else None)"
| "wu_step ft (WuFileInput files) st =
     (if wu_file st = None then Some (word_handle_file_input files st, None) else None)"
| "wu_step ft (WuExtractDone i) st =
     (if i < length (wu_pending st) then Some (word_extract_done ft i st, None) else None)"
| "wu_step ft WuClear st =
     (if wu_file st \<noteq> None then Some (word_clear_file st, None) else None)"
| "wu_step ft (WuSave fresh_id now) st =
     (if wu_file st \<noteq> None \<and> js_trim (wu_name st) \<noteq> [] \<and> \<not> wu_processing st
      then Some (st, word_save fresh_id now st) else None)"

fun wu_run ::
  "('b \<Rightarrow> string option) \<Rightarrow> 'b word_upload_state \<Rightarrow> 'b wu_event list \<Rightarrow>
   ('b word_upload_state \<times> (template \<times> (string \<times> 'b)) option list) option" where
  "wu_run ft st [] = Some (st, [])"
| "wu_run ft st (e # es) =
     (case wu_step ft e st of
        None \<Rightarrow> None
      | Some (st', out) \<Rightarrow> map_option (\<lambda>(st'', outs). (st'', out # outs)) (wu_run ft st' es))"

section \<open>TemplateList search\<close>

definition filter_templates :: "string \<Rightarrow> template list \<Rightarrow> template list" where
  "filter_templates query ts =
     (if js_trim query = [] then ts
      else filter (\<lambda>t. js_includes (js_to_lower (name t)) (js_to_lower query)) ts)"

section \<open>Lemmas\<close>

text \<open>The editor shows the placeholders of the content it holds.\<close>

definition editor_ok :: "editor_state \<Rightarrow> bool" where
  "editor_ok st \<longleftrightarrow> detected st = extract_placeholders (ed_content st)"

lemma extract_placeholders_Nil [simp]: "extract_placeholders [] = []"
  by (simp add: extract_placeholders_def ordered_set_def)

lemma editor_step_ok: "editor_ok st \<Longrightarrow> editor_ok (editor_step e st)"
  by (cases e) (simp_all add: editor_ok_def handle_content_change_def insert_placeholder_def)

lemma editor_run_ok: "editor_ok st \<Longrightarrow> editor_ok (editor_run st evs)"
  unfolding editor_run_def
  by (induction evs arbitrary: st) (simp_all add: editor_step_ok)

text \<open>The placeholders a Word file should carry: those its extraction finds, none
  when it throws.\<close>

definition wu_expected :: "('b \<Rightarrow> string option) \<Rightarrow> string \<times> 'b \<Rightarrow> string list" where
  "wu_expected ft f = (case extract_placeholders_from_word ft (snd f) of Some ps \<Rightarrow> ps | None \<Rightarrow> [])"

text \<open>A user who waits: no file is dropped, chosen or cleared while an extraction is in
  flight.\<close>

fun wu_waits :: "'b wu_event \<Rightarrow> 'b word_upload_state \<Rightarrow> bool" where
  "wu_waits (WuDrop fs) st \<longleftrightarrow> wu_pending st = []"
| "wu_waits (WuFileInput fs) st \<longleftrightarrow> wu_pending st = []"
| "wu_waits WuClear st \<longleftrightarrow> wu_pending st = []"
| "wu_waits e st \<longleftrightarrow> True"

fun wu_patient :: "('b \<Rightarrow> string option) \<Rightarrow> 'b word_upload_state \<Rightarrow> 'b wu_event list \<Rightarrow> bool" where
  "wu_patient ft st [] \<longleftrightarrow> True"
| "wu_patient ft st (e # es) \<longleftrightarrow>
     wu_waits e st \<and> (case wu_step ft e st of None \<Rightarrow> True | Some (st', _) \<Rightarrow> wu_patient ft st' es)"

text \<open>With one extraction at a time, the processing flag tells whether one is in flight,
  and the placeholders shown are those of the kept file once its extraction settled.\<close>

definition wu_inv :: "('b \<Rightarrow> string option) \<Rightarrow> 'b word_upload_state \<Rightarrow> bool" where
  "wu_inv ft st \<longleftrightarrow>
     (wu_processing st \<longleftrightarrow> wu_pending st \<noteq> []) \<and>
     (case wu_pending st of
        [] \<Rightarrow> wu_placeholders st = (case wu_file st of None \<Rightarrow> [] | Some f \<Rightarrow> wu_expected ft f)
      | [g] \<Rightarrow> wu_file st = Some g \<and> wu_placeholders st = []
      | _ \<Rightarrow> False)"

fun wu_out_ok :: "('b \<Rightarrow> string option) \<Rightarrow> (template \<times> (string \<times> 'b)) option \<Rightarrow> bool" where
  "wu_out_ok ft None \<longleftrightarrow> True"
| "wu_out_ok ft (Some (t, f)) \<longleftrightarrow>
     placeholders t = wu_expected ft f \<and> isWordTemplate t = Some True \<and> name t \<noteq> []"

lemmas wu_defs = word_file_start_def word_extract_done_def word_handle_drop_def
  word_handle_file_input_def word_clear_file_def word_save_def wu_expected_def Let_def

lemma wu_inv_init: "wu_inv ft word_upload_init"
  by (simp add: wu_inv_def word_upload_init_def)

lemma wu_step_inv:
  assumes "wu_step ft e st = Some (st', out)" "wu_inv ft st" "wu_waits e st"
  shows "wu_inv ft st' \<and> wu_out_ok ft out"
proof (cases e)
  case (WuExtractDone i)
  with assms obtain g where "wu_pending st = [g]" "i = 0"
    by (auto simp: wu_inv_def split: if_splits list.splits)
  with assms WuExtractDone show ?thesis
    by (auto simp: wu_inv_def wu_defs split: option.splits)
next
  case (WuSave fid now)
  with assms show ?thesis
    by (auto simp: wu_inv_def wu_defs split: if_splits option.splits list.splits)
qed (use assms in \<open>auto simp: wu_inv_def wu_defs split: if_splits list.splits option.splits\<close>)

lemma wu_run_inv:
  "wu_run ft st evs = Some (st', outs) \<Longrightarrow> wu_inv ft st \<Longrightarrow> wu_patient ft st evs \<Longrightarrow>
   wu_inv ft st' \<and> list_all (wu_out_ok ft) outs"
proof (induction evs arbitrary: st outs)
  case Nil
  then show ?case by simp
next
  case (Cons e es)
  from Cons.prems(1) obtain s1 out outs' where st: "wu_step ft e st = Some (s1, out)"
    and r: "wu_run ft s1 es = Some (st', outs')" and o: "outs = out # outs'"
    by (auto split: option.splits prod.splits)
  from Cons.prems(3) st have w: "wu_waits e st" and p: "wu_patient ft s1 es" by simp_all
  from wu_step_inv [OF st Cons.prems(2) w] have "wu_inv ft s1" "wu_out_ok ft out" by simp_all
  with Cons.IH [OF r _ p] o show ?case by simp
qed

text \<open>The Save button is enabled exactly when saving hands a template over.\<close>

lemma editor_save_enabled_iff: "editor_save_enabled st \<longleftrightarrow> editor_save t fresh_id now st \<noteq> None"
  by (simp add: editor_save_enabled_def editor_save_def)

section \<open>Properties\<close>

text \<open>
  C35. A template written in a fresh editor is saved with exactly the placeholders of its
  content, whatever sequence of name changes, content changes and placeholder insertions
  produced it.
\<close>

theorem editor_save_placeholders:
  assumes "editor_save None fresh_id now (editor_run (editor_init None) evs) = Some t"
  shows "placeholders t = extract_placeholders (content t)"
proof -
  have "editor_ok (editor_init None)" by (simp add: editor_ok_def editor_init_def)
  then have "editor_ok (editor_run (editor_init None) evs)" by (rule editor_run_ok)
  with assms show ?thesis by (auto simp: editor_save_def editor_ok_def split: if_splits)
qed

theorem editor_save_placeholders_witness:
  "editor_save None ''id1'' ''now'' (editor_run (editor_init None) [NameChange ''G'', ContentChange ''Hi {{Name}}'']) =
     Some \<lparr>template_id = ''id1'', name = ''G'', content = ''Hi {{Name}}'', placeholders = [''Name''],
           createdAt = ''now'', updatedAt = ''now'', wordDocumentData = None, isWordTemplate = None\<rparr> \<and>
   [''Name''] = extract_placeholders ''Hi {{Name}}''"
proof -
  have h: "editor_save None ''id1'' ''now'' (editor_run (editor_init None) [NameChange ''G'', ContentChange ''Hi {{Name}}'']) =
     Some \<lparr>template_id = ''id1'', name = ''G'', content = ''Hi {{Name}}'', placeholders = [''Name''],
           createdAt = ''now'', updatedAt = ''now'', wordDocumentData = None, isWordTemplate = None\<rparr>"
    by (simp add: editor_save_def editor_run_def editor_init_def handle_content_change_def extract_eval
        js_trim_def is_js_space_def)
  from h editor_save_placeholders [OF h] show ?thesis by simp
qed

text \<open>
  C16. A user who waits for each document to be read: every Word template the uploader
  hands to \<open>onSave\<close> carries exactly the placeholders extracted from the file handed
  with it (none when reading it failed), is flagged as a Word template and has a
  non-blank name.
\<close>

theorem word_save_matches_file:
  assumes "wu_run ft word_upload_init evs = Some (st, outs)" "wu_patient ft word_upload_init evs"
  shows "list_all (wu_out_ok ft) outs"
  using wu_run_inv [OF assms(1) wu_inv_init assms(2)] by simp

theorem word_save_matches_file_witness:
  "wu_run (\<lambda>b. Some b) word_upload_init
     [WuDrop [(''c.docx'', ''Dear {Name}'')], WuExtractDone 0, WuSave ''id1'' ''now'']
     = Some (word_upload_init\<lparr>wu_name := ''c'', wu_file := Some (''c.docx'', ''Dear {Name}''),
               wu_placeholders := [''Name'']\<rparr>,
             [None, None, Some (\<lparr>template_id = ''id1'', name = ''c'', content = [], placeholders = [''Name''],
                createdAt = ''now'', updatedAt = ''now'', wordDocumentData = Some [],
                isWordTemplate = Some True\<rparr>, (''c.docx'', ''Dear {Name}''))]) \<and>
   wu_patient (\<lambda>b. Some b) word_upload_init
     [WuDrop [(''c.docx'', ''Dear {Name}'')], WuExtractDone 0, WuSave ''id1'' ''now''] \<and>
   wu_expected (\<lambda>b. Some b) (''c.docx'', ''Dear {Name}'') = [''Name'']"
proof -
  have h: "wu_run (\<lambda>b. Some b) word_upload_init
     [WuDrop [(''c.docx'', ''Dear {Name}'')], WuExtractDone 0, WuSave ''id1'' ''now'']
     = Some (word_upload_init\<lparr>wu_name := ''c'', wu_file := Some (''c.docx'', ''Dear {Name}''),
               wu_placeholders := [''Name'']\<rparr>,
             [None, None, Some (\<lparr>template_id = ''id1'', name = ''c'', content = [], placeholders = [''Name''],
                createdAt = ''now'', updatedAt = ''now'', wordDocumentData = Some [],
                isWordTemplate = Some True\<rparr>, (''c.docx'', ''Dear {Name}''))])"
    and p: "wu_patient (\<lambda>b. Some b) word_upload_init
     [WuDrop [(''c.docx'', ''Dear {Name}'')], WuExtractDone 0, WuSave ''id1'' ''now'']"
    by (simp_all add: word_upload_init_def wu_defs is_word_name_def strip_word_ext_def
        js_ends_with_def js_to_lower_def ascii_lower_def extract_placeholders_from_word_def extract_eval)
  from h p word_save_matches_file [OF h p] show ?thesis by simp
qed

text \<open>
  C17. Without waiting, the uploader pairs a file with another file's placeholders: for
  any two Word files \<open>a\<close> and \<open>b\<close>, dropping \<open>a\<close>, clearing it while it is read,
  dropping \<open>b\<close>, and letting the reading of \<open>a\<close> settle first ends processing and
  enables Save, which hands over \<open>b\<close> with the placeholders extracted from \<open>a\<close> and the
  name taken from \<open>a\<close>, while the reading of \<open>b\<close> is still in flight.
\<close>

theorem word_upload_race:
  assumes "is_word_name (fst a)" "is_word_name (fst b)" "js_trim (strip_word_ext (fst a)) \<noteq> []"
  shows "\<exists>st t. wu_run ft word_upload_init
       [WuDrop [a], WuClear, WuDrop [b], WuExtractDone 0, WuSave fid now] =
         Some (st, [None, None, None, None, Some (t, b)]) \<and>
     placeholders t = wu_expected ft a \<and> name t = js_trim (strip_word_ext (fst a)) \<and> wu_pending st = [b]"
proof -
  from assms(3) have ne: "strip_word_ext (fst a) \<noteq> []" by (auto simp: js_trim_def)
  show ?thesis
    using assms(1,2,3) ne
    by (cases "extract_placeholders_from_word ft (snd a)")
      (simp_all add: word_upload_init_def wu_defs)
qed

theorem word_upload_race_witness:
  "\<exists>st t. wu_run (\<lambda>b. Some b) word_upload_init
       [WuDrop [(''a.docx'', ''{A}'')], WuClear, WuDrop [(''b.docx'', ''{B}'')], WuExtractDone 0,
        WuSave ''id1'' ''now''] = Some (st, [None, None, None, None, Some (t, (''b.docx'', ''{B}''))]) \<and>
     placeholders t = [''A''] \<and> wu_expected (\<lambda>b. Some b) (''b.docx'', ''{B}'') = [''B'']"
proof -
  have h: "is_word_name ''a.docx''" "is_word_name ''b.docx''" "js_trim (strip_word_ext ''a.docx'') \<noteq> []"
    by (simp_all add: is_word_name_def strip_word_ext_def js_ends_with_def js_to_lower_def ascii_lower_def
        js_trim_def is_js_space_def)
  have e: "wu_expected (\<lambda>b. Some b) (''a.docx'', ''{A}'') = [''A'']"
    "wu_expected (\<lambda>b. Some b) (''b.docx'', ''{B}'') = [''B'']"
    by (simp_all add: wu_expected_def extract_placeholders_from_word_def extract_eval)
  obtain st t where r: "wu_run (\<lambda>b. Some b) word_upload_init
       [WuDrop [(''a.docx'', ''{A}'')], WuClear, WuDrop [(''b.docx'', ''{B}'')], WuExtractDone 0,
        WuSave ''id1'' ''now''] = Some (st, [None, None, None, None, Some (t, (''b.docx'', ''{B}''))])"
    and p: "placeholders t = wu_expected (\<lambda>b. Some b) (''a.docx'', ''{A}'')"
    using word_upload_race [of "(''a.docx'', ''{A}'')" "(''b.docx'', ''{B}'')" "\<lambda>b. Some b" "''id1''" "''now''"] h
    by auto
  from r p e show ?thesis by (intro exI conjI) simp_all
qed

end
