(* ===== verification/Data_Input.thy ===== *)
theory Data_Input
  imports Template_Types
begin

text \<open>
  The two data sources of the wizard: the dataset upload
  (src/components/DatasetUploader.tsx) and the manual form
  (src/components/ManualFormFiller.tsx). The CSV parser (Papa Parse) is the parameter
  \<open>parse\<close>: from the file to the list of parsed records, each the entries of a
  JavaScript object in key order, or a parse error. The browser's local storage is a map
  from keys to stored values; the form stores its draft under one fixed key. The
  uploader is also a step function over its controls and the settling of its parses.
\<close>

section \<open>DatasetUploader\<close>

type_synonym csv_record = "(string \<times> js_value) list"

datatype upload_result =
    Rejected
  | CsvEmpty
  | CsvError string
  | ExcelPending
  | CsvLoaded "data_row list" "string list"

text \<open>\<open>/\.(csv|xlsx|xls)$/i\<close>.\<close>

definition accepted_name :: "string \<Rightarrow> bool" where
  "accepted_name fname \<longleftrightarrow>
     js_ends_with (js_to_lower fname) ''.csv'' \<or> js_ends_with (js_to_lower fname) ''.xlsx'' \<or>
     js_ends_with (js_to_lower fname) ''.xls''"

text \<open>\<open>handleFile\<close>: the name filter, then \<open>file.name.endsWith('.csv')\<close> selects the
  parser; the \<open>complete\<close> callback reads the headers from the first record
  (\<open>Object.keys(data[0] || {})\<close>) and reports an empty file.\<close>

definition dataset_handle_file ::
  "('b \<Rightarrow> string + csv_record list) \<Rightarrow> string \<times> 'b \<Rightarrow> upload_result" where
  "dataset_handle_file parse f =
     (if \<not> accepted_name (fst f) then Rejected
      else if js_ends_with (fst f) ''.csv'' then
        (case parse (snd f) of
           Inl msg \<Rightarrow> CsvError msg
         | Inr recs \<Rightarrow>
             if recs = [] then CsvEmpty
             else CsvLoaded (map map_of recs) (map fst (hd recs)))
      else ExcelPending)"

subsection \<open>The uploader's state and events\<close>

text \<open>\<open>handleFile\<close> runs in two parts: the name checks and \<open>setFileName\<close> at once,
  the \<open>complete\<close> callback when Papa Parse has read the file. \<open>du_pending\<close> holds the
  CSV files whose parse is in flight (the environment's state). The Excel branch only
  shows a notice when its reader finishes and changes nothing.\<close>

record 'b du_state =
  du_dragging :: bool
  du_file_name :: "string option"
  du_preview :: "data_row list"
  du_pending :: "(string \<times> 'b) list"

definition du_init :: "'b du_state" where
  "du_init = \<lparr>du_dragging = False, du_file_name = None, du_preview = [], du_pending = []\<rparr>"

definition du_handle_file :: "string \<times> 'b \<Rightarrow> 'b du_state \<Rightarrow> 'b du_state" where
  "du_handle_file f st =
     (if \<not> accepted_name (fst f) then st
      else let st' = st\<lparr>du_file_name := Some (fst f)\<rparr> in
           if js_ends_with (fst f) ''.csv'' then st'\<lparr>du_pending := du_pending st @ [f]\<rparr> else st')"

text \<open>The \<open>complete\<close> and \<open>error\<close> callbacks for the \<open>i\<close>-th parse in flight; the
  output is the call \<open>onDataLoaded(data, headers)\<close>, if any.\<close>

definition du_parse_done ::
  "('b \<Rightarrow> string + csv_record list) \<Rightarrow> nat \<Rightarrow> 'b du_state \<Rightarrow>
   'b du_state \<times> (data_row list \<times> string list) option" where
  "du_parse_done parse i st =
     (let f = du_pending st ! i;
          st' = st\<lparr>du_pending := take i (du_pending st) @ drop (Suc i) (du_pending st)\<rparr>
      in case parse (snd f) of
           Inl msg \<Rightarrow> (st', None)
         | Inr recs \<Rightarrow>
             if recs = [] then (st', None)
             else (st'\<lparr>du_preview := take 5 (map map_of recs)\<rparr>,
                   Some (map map_of recs, map fst (hd recs))))"

definition du_handle_drop :: "(string \<times> 'b) list \<Rightarrow> 'b du_state \<Rightarrow> 'b du_state" where
  "du_handle_drop files st =
     (let st' = st\<lparr>du_dragging := False\<rparr> in case files of [] \<Rightarrow> st' | f # _ \<Rightarrow> du_handle_file f st')"

definition du_handle_file_input :: "(string \<times> 'b) list \<Rightarrow> 'b du_state \<Rightarrow> 'b du_state" where
  "du_handle_file_input files st = (case files of [] \<Rightarrow> st | f # _ \<Rightarrow> du_handle_file f st)"

definition du_clear_data :: "'b du_state \<Rightarrow> 'b du_state \<times> (data_row list \<times> string list) option" where
  "du_clear_data st = (st\<lparr>du_file_name := None, du_preview := []\<rparr>, Some ([], []))"

text \<open>What the card shows once a file name is set: the name and the counter
  \<open>{previewData.length} rows loaded\<close>, and the preview table of those rows.\<close>

definition du_view :: "'b du_state \<Rightarrow> (string \<times> nat \<times> data_row list) option" where
  "du_view st = map_option (\<lambda>n. (n, length (du_preview st), du_preview st)) (du_file_name st)"

datatype 'b du_event =
    DuDragOver | DuDragLeave | DuDrop "(string \<times> 'b) list" | DuFileInput "(string \<times> 'b) list"
  | DuParseDone nat | DuClearData

text \<open>The drop zone and the file input are rendered while no file name is set, the
  clear button while one is.\<close>

fun du_step ::
  "('b \<Rightarrow> string + csv_record list) \<Rightarrow> 'b du_event \<Rightarrow> 'b du_state \<Rightarrow>
   ('b du_state \<times> (data_row list \<times> string list) option) option" where
  "du_step parse DuDragOver st =
     (if du_file_name st = None then Some (st\<lparr>du_dragging := True\<rparr>, None) else None)"
| "du_step parse DuDragLeave st =
     (if du_file_name st = None then Some (st\<lparr>du_dragging := False\<rparr>, None) else None)"
| "du_step parse (DuDrop files) st =
     (if du_file_name st = None then Some (du_handle_drop files st, None) else None)"
| "du_step parse (DuFileInput files) st =
     (if du_file_name st = None then Some (du_handle_file_input files st, None) else None)"
| "du_step parse (DuParseDone i) st =
     (if i < length (du_pending st) then Some (du_parse_done parse i st) else None)"
| "du_step parse DuClearData st =
     (if du_file_name st \<noteq> None then Some (du_clear_data st) else None)"

fun du_run ::
  "('b \<Rightarrow> string + csv_record list) \<Rightarrow> 'b du_state \<Rightarrow> 'b du_event list \<Rightarrow>
   ('b du_state \<times> (data_row list \<times> string list) option list) option" where
  "du_run parse st [] = Some (st, [])"
| "du_run parse st (e # es) =
     (case du_step parse e st of
        None \<Rightarrow> None
      | Some (st', out) \<Rightarrow> map_option (\<lambda>(st'', outs). (st'', out # outs)) (du_run parse st' es))"

section \<open>ManualFormFiller\<close>

datatype stored_draft = Draft data_row | Corrupt

type_synonym local_storage = "string \<rightharpoonup> stored_draft"

definition STORAGE_KEY :: string where
  "STORAGE_KEY = ''docmerge_manual_form_data''"

definition blank_form :: "string list \<Rightarrow> data_row" where
  "blank_form phs = foldl (\<lambda>acc p. acc(p \<mapsto> JStr [])) Map.empty phs"

text \<open>The initial form: the stored draft when it parses, a blank field per placeholder
  otherwise; the effect on \<open>formData\<close> then writes the form back to the storage.\<close>

definition manual_init :: "string list \<Rightarrow> local_storage \<Rightarrow> data_row \<times> local_storage" where
  "manual_init phs ls =
     (let fd = (case ls STORAGE_KEY of Some (Draft r) \<Rightarrow> r | _ \<Rightarrow> blank_form phs)
      in (fd, ls(STORAGE_KEY \<mapsto> Draft fd)))"

definition manual_input_change ::
  "string \<Rightarrow> string \<Rightarrow> data_row \<times> local_storage \<Rightarrow> data_row \<times> local_storage" where
  "manual_input_change p v s =
     (let fd = (fst s)(p \<mapsto> JStr v) in (fd, (snd s)(STORAGE_KEY \<mapsto> Draft fd)))"

text \<open>\<open>handleSubmit\<close>: the placeholders whose field is missing or falsy are reported;
  otherwise the draft is removed and the form data is handed to \<open>onComplete\<close>.\<close>

definition empty_fields :: "string list \<Rightarrow> data_row \<Rightarrow> string list" where
  "empty_fields phs fd = filter (\<lambda>p. row_value fd p = JStr []) phs"

definition manual_submit ::
  "string list \<Rightarrow> data_row \<times> local_storage \<Rightarrow> (string list + data_row) \<times> local_storage" where
  "manual_submit phs s =
     (if empty_fields phs (fst s) \<noteq> [] then (Inl (empty_fields phs (fst s)), snd s)
      else (Inr (fst s), (snd s)(STORAGE_KEY := None)))"

text \<open>The rendering: a field counts as filled when \<open>formData[p]\<close> is truthy; it then
  gets a check mark, it is counted in \<open>n of m fields filled\<close>, and the Generate
  button is enabled when every field is filled (\<open>isComplete\<close>).\<close>

definition form_filled :: "data_row \<Rightarrow> string \<Rightarrow> bool" where
  "form_filled fd p \<longleftrightarrow> (case fd p of None \<Rightarrow> False | Some v \<Rightarrow> \<not> js_falsy v)"

definition manual_is_complete :: "string list \<Rightarrow> data_row \<Rightarrow> bool" where
  "manual_is_complete phs fd \<longleftrightarrow> list_all (form_filled fd) phs"

definition manual_view :: "string list \<Rightarrow> data_row \<Rightarrow> (string \<times> bool) list \<times> nat \<times> nat \<times> bool" where
  "manual_view phs fd =
     (map (\<lambda>p. (p, form_filled fd p)) phs, length (filter (form_filled fd) phs), length phs,
      manual_is_complete phs fd)"

section \<open>Lemmas\<close>

lemma empty_fields_Nil:
  "empty_fields phs fd = [] \<longleftrightarrow> (\<forall>p \<in> set phs. \<exists>v. fd p = Some v \<and> \<not> js_falsy v)"
  by (auto simp: empty_fields_def filter_empty_conv row_value_def split: option.splits)

text \<open>Every parse in flight is of a file that passed both tests of \<open>handleFile\<close>.\<close>

definition du_inv :: "'b du_state \<Rightarrow> bool" where
  "du_inv st \<longleftrightarrow> (\<forall>f \<in> set (du_pending st). accepted_name (fst f) \<and> js_ends_with (fst f) ''.csv'')"

text \<open>The file a drop or a file choice hands to \<open>handleFile\<close> (the first one), and
  the files a sequence of events hands over.\<close>

fun du_event_file :: "'b du_event \<Rightarrow> (string \<times> 'b) list" where
  "du_event_file (DuDrop files) = take 1 files"
| "du_event_file (DuFileInput files) = take 1 files"
| "du_event_file e = []"

definition du_files :: "'b du_event list \<Rightarrow> (string \<times> 'b) list" where
  "du_files evs = concat (map du_event_file evs)"

text \<open>What \<open>onDataLoaded\<close> may receive: the clear, or the outcome of
  \<open>handleFile\<close> run to its end on one of the files \<open>F\<close>.\<close>

fun du_out_ok ::
  "('b \<Rightarrow> string + csv_record list) \<Rightarrow> (string \<times> 'b) set \<Rightarrow> (data_row list \<times> string list) option \<Rightarrow> bool" where
  "du_out_ok parse F None \<longleftrightarrow> True"
| "du_out_ok parse F (Some (rows, hs)) \<longleftrightarrow>
     (rows = [] \<and> hs = []) \<or> (\<exists>f \<in> F. dataset_handle_file parse f = CsvLoaded rows hs)"

lemmas du_defs = du_handle_file_def du_parse_done_def du_handle_drop_def du_handle_file_input_def
  du_clear_data_def Let_def

lemma du_parse_done_loaded:
  assumes "i < length (du_pending st)" "du_inv st"
    and "du_parse_done parse i st = (st', Some (rows, hs))"
  shows "dataset_handle_file parse (du_pending st ! i) = CsvLoaded rows hs \<and>
         length (du_preview st') = min 5 (length rows)"
proof -
  from assms(1,2) have "accepted_name (fst (du_pending st ! i)) \<and> js_ends_with (fst (du_pending st ! i)) ''.csv''"
    by (auto simp: du_inv_def)
  with assms(3) show ?thesis
    by (auto simp: du_defs dataset_handle_file_def split: sum.splits if_splits)
qed

text \<open>The card never shows more than five rows, and they are the first rows of the
  file last loaded.\<close>

lemma du_preview_prefix:
  assumes "du_parse_done parse i st = (st', Some (rows, hs))"
  shows "du_preview st' = take 5 rows \<and> length (du_preview st') \<le> 5"
  using assms by (auto simp: du_defs split: sum.splits if_splits)

lemma du_out_ok_mono:
  assumes "du_out_ok parse F out" "F \<subseteq> G"
  shows "du_out_ok parse G out"
proof (cases out)
  case (Some r)
  with assms show ?thesis by (cases r) auto
qed simp

lemma du_step_inv:
  assumes "du_step parse e st = Some (st', out)" "du_inv st" "set (du_pending st) \<subseteq> F"
  shows "du_inv st' \<and> set (du_pending st') \<subseteq> F \<union> set (du_event_file e) \<and> du_out_ok parse F out"
proof (cases e)
  case (DuParseDone i)
  with assms have i: "i < length (du_pending st)" by (simp split: if_splits)
  from assms DuParseDone i have p: "du_pending st' = take i (du_pending st) @ drop (Suc i) (du_pending st)"
    by (auto simp: du_defs split: sum.splits if_splits)
  from set_remove_nth_subset [of i "du_pending st"] have sub: "set (du_pending st') \<subseteq> set (du_pending st)"
    unfolding p .
  with assms(2,3) have "du_inv st'" "set (du_pending st') \<subseteq> F \<union> set (du_event_file e)"
    unfolding du_inv_def by blast+
  moreover have "du_out_ok parse F out"
  proof (cases out)
    case (Some r)
    obtain rows hs where r: "r = (rows, hs)" by (cases r)
    with Some assms DuParseDone i have "dataset_handle_file parse (du_pending st ! i) = CsvLoaded rows hs"
      using du_parse_done_loaded [OF i assms(2), of parse st' rows hs] by simp
    moreover from i assms(3) have "du_pending st ! i \<in> F" by (auto dest: nth_mem)
    ultimately show ?thesis using Some r by (simp only: du_out_ok.simps) blast
  qed simp
  ultimately show ?thesis by blast
next
  case (DuDrop files)
  with assms show ?thesis
    by (cases files) (auto simp: du_inv_def du_defs split: if_splits)
next
  case (DuFileInput files)
  with assms show ?thesis
    by (cases files) (auto simp: du_inv_def du_defs split: if_splits)
qed (use assms in \<open>auto simp: du_inv_def du_defs split: if_splits\<close>)

lemma du_run_inv:
  "du_run parse st evs = Some (st', outs) \<Longrightarrow> du_inv st \<Longrightarrow> set (du_pending st) \<subseteq> F \<Longrightarrow>
   du_inv st' \<and> list_all (du_out_ok parse (F \<union> set (du_files evs))) outs"
proof (induction evs arbitrary: st outs F)
  case Nil
  then show ?case by simp
next
  case (Cons e es)
  from Cons.prems(1) obtain s1 out outs' where st: "du_step parse e st = Some (s1, out)"
    and r: "du_run parse s1 es = Some (st', outs')" and o: "outs = out # outs'"
    by (auto split: option.splits prod.splits)
  from du_step_inv [OF st Cons.prems(2,3)]
  have i1: "du_inv s1" and p1: "set (du_pending s1) \<subseteq> F \<union> set (du_event_file e)"
    and ok: "du_out_ok parse F out" by simp_all
  have F: "F \<union> set (du_event_file e) \<union> set (du_files es) = F \<union> set (du_files (e # es))"
    by (auto simp: du_files_def)
  from Cons.IH [OF r i1 p1] F have "du_inv st'" "list_all (du_out_ok parse (F \<union> set (du_files (e # es)))) outs'"
    by simp_all
  moreover have "du_out_ok parse (F \<union> set (du_files (e # es))) out"
    using ok by (rule du_out_ok_mono) blast
  ultimately show ?case using o by simp
qed

lemma empty_fields_filled: "empty_fields phs fd = filter (\<lambda>p. \<not> form_filled fd p) phs"
  by (auto simp: empty_fields_def form_filled_def row_value_def intro!: filter_cong
      split: option.splits)

lemmas input_eval = dataset_handle_file_def accepted_name_def js_ends_with_def js_to_lower_def
  ascii_lower_def manual_init_def manual_input_change_def manual_submit_def empty_fields_def
  STORAGE_KEY_def

section \<open>Properties\<close>

text \<open>
  C37. Dataset upload: a dataset is loaded only from a file whose name ends in
  \<open>.csv\<close> exactly, with at least one record, the rows and headers being the parsed
  records and the keys of the first; a name ending in \<open>.CSV\<close> passes the name filter but
  is routed to the Excel branch and never loads.
\<close>

theorem dataset_handle_file_loaded:
  "(dataset_handle_file parse f = CsvLoaded rows hs \<longrightarrow>
      js_ends_with (fst f) ''.csv'' \<and> rows \<noteq> [] \<and>
      (\<exists>recs. parse (snd f) = Inr recs \<and> rows = map map_of recs \<and> hs = map fst (hd recs))) \<and>
   accepted_name ''DATA.CSV'' \<and> dataset_handle_file parse (''DATA.CSV'', b) = ExcelPending"
  by (auto simp: dataset_handle_file_def split: if_splits sum.splits)
    (simp_all add: input_eval)

theorem dataset_handle_file_loaded_witness:
  "dataset_handle_file (\<lambda>b. Inr [[(''Name'', JStr ''A'')]]) (''d.csv'', ()) =
     CsvLoaded [[''Name'' \<mapsto> JStr ''A'']] [''Name''] \<and>
   js_ends_with ''d.csv'' ''.csv'' \<and> dataset_handle_file (\<lambda>b. Inr []) (''DATA.CSV'', ()) = ExcelPending"
proof -
  have h: "dataset_handle_file (\<lambda>b. Inr [[(''Name'', JStr ''A'')]]) (''d.csv'', ()) =
     CsvLoaded [[''Name'' \<mapsto> JStr ''A'']] [''Name'']"
    by (simp add: input_eval)
  from h dataset_handle_file_loaded [of "\<lambda>b. Inr [[(''Name'', JStr ''A'')]]" "(''d.csv'', ())"]
    dataset_handle_file_loaded [of "\<lambda>b. Inr []" _ _ _ "()"]
  show ?thesis by simp
qed

text \<open>
  C36. Manual submission succeeds exactly when every placeholder has a present, truthy
  value, which is exactly when the Generate button is enabled; the filled counter and
  the unfilled placeholders add up to the number of fields; a submission hands over the
  form data and clears the stored draft, and otherwise reports the unfilled
  placeholders and keeps the draft.
\<close>

theorem manual_submit_spec:
  "((\<exists>fd. fst (manual_submit phs s) = Inr fd) \<longleftrightarrow> (\<forall>p \<in> set phs. \<exists>v. fst s p = Some v \<and> \<not> js_falsy v)) \<and>
   ((\<exists>fd. fst (manual_submit phs s) = Inr fd) \<longleftrightarrow> manual_is_complete phs (fst s)) \<and>
   fst (snd (manual_view phs (fst s))) + length (empty_fields phs (fst s)) = length phs \<and>
   (\<forall>fd. fst (manual_submit phs s) = Inr fd \<longrightarrow> fd = fst s \<and> snd (manual_submit phs s) STORAGE_KEY = None) \<and>
   (\<forall>es. fst (manual_submit phs s) = Inl es \<longrightarrow>
          es = empty_fields phs (fst s) \<and> es \<noteq> [] \<and> snd (manual_submit phs s) = snd s)"
proof -
  have ok: "(\<exists>fd. fst (manual_submit phs s) = Inr fd) \<longleftrightarrow> empty_fields phs (fst s) = []"
    by (simp add: manual_submit_def)
  have "empty_fields phs (fst s) = [] \<longleftrightarrow> manual_is_complete phs (fst s)"
    by (simp add: empty_fields_filled manual_is_complete_def filter_empty_conv list_all_iff)
  moreover have "fst (snd (manual_view phs (fst s))) + length (empty_fields phs (fst s)) = length phs"
    by (simp add: manual_view_def empty_fields_filled sum_length_filter_compl)
  ultimately show ?thesis using ok
    by (auto simp: manual_submit_def empty_fields_Nil [symmetric] split: if_splits)
qed

theorem manual_submit_spec_witness:
  "fst (manual_submit [''Name''] ([''Name'' \<mapsto> JStr ''Ann''], [STORAGE_KEY \<mapsto> Corrupt])) = Inr [''Name'' \<mapsto> JStr ''Ann''] \<and>
   snd (manual_submit [''Name''] ([''Name'' \<mapsto> JStr ''Ann''], [STORAGE_KEY \<mapsto> Corrupt])) STORAGE_KEY = None"
proof -
  have h: "fst (manual_submit [''Name''] ([''Name'' \<mapsto> JStr ''Ann''], [STORAGE_KEY \<mapsto> Corrupt])) = Inr [''Name'' \<mapsto> JStr ''Ann'']"
    by (simp add: manual_submit_def empty_fields_def)
  from h manual_submit_spec [of "[''Name'']" "([''Name'' \<mapsto> JStr ''Ann''], [STORAGE_KEY \<mapsto> Corrupt])"]
  show ?thesis by simp
qed

text \<open>
  C15. The draft is not scoped to a template: whatever the placeholders of the template,
  a stored draft (left by the form of any template) is the initial form, and a successful
  submission after any inputs hands over a row that keeps every field of the draft the
  user did not type over, fields of other templates included.
\<close>

theorem manual_draft_crosses_templates:
  assumes "ls STORAGE_KEY = Some (Draft d)"
    and "fst (manual_submit phs (foldl (\<lambda>s (p, v). manual_input_change p v s) (manual_init phs ls) ins)) = Inr fd"
  shows "fst (manual_init phs ls) = d \<and> (\<forall>k. k \<notin> fst ` set ins \<longrightarrow> fd k = d k)"
proof -
  have init: "fst (manual_init phs ls) = d" using assms(1) by (simp add: manual_init_def)
  have keep: "fst (foldl (\<lambda>s (p, v). manual_input_change p v s) s0 ins) k = fst s0 k"
    if "k \<notin> fst ` set ins" for s0 k
    using that
  proof (induction ins arbitrary: s0)
    case Nil
    then show ?case by simp
  next
    case (Cons i ins)
    then show ?case by (cases i) (auto simp: manual_input_change_def Let_def)
  qed
  from assms(2) have "fd = fst (foldl (\<lambda>s (p, v). manual_input_change p v s) (manual_init phs ls) ins)"
    by (simp add: manual_submit_def split: if_splits)
  with init keep show ?thesis by simp
qed

theorem manual_draft_crosses_templates_witness:
  "fst (manual_init [''Name''] [STORAGE_KEY \<mapsto> Draft [''Email'' \<mapsto> JStr ''a@b'']]) = [''Email'' \<mapsto> JStr ''a@b''] \<and>
   fst (manual_submit [''Name''] (foldl (\<lambda>s (p, v). manual_input_change p v s)
          (manual_init [''Name''] [STORAGE_KEY \<mapsto> Draft [''Email'' \<mapsto> JStr ''a@b'']]) [(''Name'', ''Ann'')]))
     = Inr [''Email'' \<mapsto> JStr ''a@b'', ''Name'' \<mapsto> JStr ''Ann''] \<and>
   [''Email'' \<mapsto> JStr ''a@b'', ''Name'' \<mapsto> JStr ''Ann''] ''Email'' = Some (JStr ''a@b'')"
proof -
  have h: "[STORAGE_KEY \<mapsto> Draft [''Email'' \<mapsto> JStr ''a@b'']] STORAGE_KEY = Some (Draft [''Email'' \<mapsto> JStr ''a@b''])"
    by simp
  have s: "fst (manual_submit [''Name''] (foldl (\<lambda>s (p, v). manual_input_change p v s)
          (manual_init [''Name''] [STORAGE_KEY \<mapsto> Draft [''Email'' \<mapsto> JStr ''a@b'']]) [(''Name'', ''Ann'')]))
     = Inr [''Email'' \<mapsto> JStr ''a@b'', ''Name'' \<mapsto> JStr ''Ann'']"
    by (simp add: manual_init_def manual_submit_def manual_input_change_def empty_fields_def Let_def)
  from manual_draft_crosses_templates [OF h s] s show ?thesis by simp
qed

text \<open>
  C18. Whatever the user drops, chooses or clears, and in whatever order the parses
  settle, the dataset uploader calls \<open>onDataLoaded\<close> only with the empty clear or
  with the rows and headers \<open>handleFile\<close> computes for one of the files dropped or
  chosen in the run: a file named \<open>.csv\<close> with at least one record.
\<close>

theorem dataset_uploader_outputs:
  assumes "du_run parse du_init evs = Some (st, outs)"
  shows "list_all (du_out_ok parse (set (du_files evs))) outs"
  using du_run_inv [OF assms, of "{}"] by (simp add: du_inv_def du_init_def)

theorem dataset_uploader_outputs_witness:
  "du_run (\<lambda>b. Inr b) du_init [DuDrop [(''d.csv'', [[(''Name'', JStr ''A'')]])], DuParseDone 0] =
     Some (du_init\<lparr>du_file_name := Some ''d.csv'', du_preview := [[''Name'' \<mapsto> JStr ''A'']]\<rparr>,
           [None, Some ([[''Name'' \<mapsto> JStr ''A'']], [''Name''])]) \<and>
   list_all (du_out_ok (\<lambda>b. Inr b) {(''d.csv'', [[(''Name'', JStr ''A'')]])})
     [None, Some ([[''Name'' \<mapsto> JStr ''A'']], [''Name''])]"
proof -
  have h: "du_run (\<lambda>b. Inr b) du_init [DuDrop [(''d.csv'', [[(''Name'', JStr ''A'')]])], DuParseDone 0] =
     Some (du_init\<lparr>du_file_name := Some ''d.csv'', du_preview := [[''Name'' \<mapsto> JStr ''A'']]\<rparr>,
           [None, Some ([[''Name'' \<mapsto> JStr ''A'']], [''Name''])])"
    by (simp add: du_init_def du_defs input_eval)
  from h dataset_uploader_outputs [OF h] show ?thesis by (simp add: du_files_def)
qed

text \<open>Clearing does not cancel a parse in flight: a file cleared while it is read is
  still handed to the page when its parse completes, after the clear.\<close>

lemma dataset_clear_reloads:
  "\<exists>st. du_run (\<lambda>b. Inr b) du_init
     [DuDrop [(''a.csv'', [[(''Name'', JStr ''A'')]])], DuClearData, DuParseDone 0] =
     Some (st, [None, Some ([], []), Some ([[''Name'' \<mapsto> JStr ''A'']], [''Name''])]) \<and>
   du_file_name st = None"
  by (simp add: du_init_def du_defs input_eval)

end
