(* ===== verification/Template_List.thy ===== *)
theory Template_List
  imports Template_Authoring
begin

text \<open>
  The template list of step 1: \<open>TemplateList\<close> (src/components/TemplateList.tsx) with
  its search and its shared \<open>selectedTemplate\<close>, the actions a \<open>TemplateCard\<close> offers
  (src/components/templates/TemplateCard.tsx), the \<open>RenameDialog\<close> and the
  \<open>DeleteConfirmDialog\<close> (src/components/templates). The list of templates is the
  component's property, fixed during a run; the callbacks to the page are outputs.
\<close>

section \<open>What the list shows\<close>

datatype list_view = NoSearchResults | NoTemplates | TemplateGrid "template list"

definition template_list_view :: "string \<Rightarrow> template list \<Rightarrow> list_view" where
  "template_list_view q ts =
     (let shown = filter_templates q ts in
      if shown = [] \<and> ts \<noteq> [] then NoSearchResults
      else if ts = [] then NoTemplates
      else TemplateGrid shown)"

definition shown_templates :: "string \<Rightarrow> template list \<Rightarrow> template list" where
  "shown_templates q ts = (case template_list_view q ts of TemplateGrid shown \<Rightarrow> shown | _ \<Rightarrow> [])"

text \<open>The buttons of a card: the card itself selects, rename and delete are always
  there, edit only when \<open>!template.isWordTemplate\<close>.\<close>

datatype card_action = CardSelectAction | CardRenameAction | CardEditAction | CardDeleteAction

definition card_actions :: "template \<Rightarrow> card_action list" where
  "card_actions t =
     [CardSelectAction, CardRenameAction] @
     (if isWordTemplate t = Some True then [] else [CardEditAction]) @ [CardDeleteAction]"

section \<open>State and events\<close>

record tl_state =
  searchQuery :: string
  deleteDialogOpen :: bool
  renameDialogOpen :: bool
  tl_selected :: "template option"
  newName :: string

definition tl_init :: tl_state where
  "tl_init = \<lparr>searchQuery = [], deleteDialogOpen = False, renameDialogOpen = False,
              tl_selected = None, newName = []\<rparr>"

datatype tl_event =
    SearchChange string | ClearSearch
  | CardClick card_action template
  | RenameInput string | RenameConfirm | RenameKey string | RenameCancel | RenameDismiss
  | DeleteConfirm | DeleteCancel | DeleteDismiss

datatype tl_output =
    OutSelect template | OutEdit template | OutRename template string | OutDelete string | OutNone

subsection \<open>Handlers of TemplateList\<close>

definition handle_rename :: "template \<Rightarrow> tl_state \<Rightarrow> tl_state" where
  "handle_rename t s = s\<lparr>tl_selected := Some t, renameDialogOpen := True\<rparr>"

definition handle_delete :: "template \<Rightarrow> tl_state \<Rightarrow> tl_state" where
  "handle_delete t s = s\<lparr>tl_selected := Some t, deleteDialogOpen := True\<rparr>"

definition handle_rename_confirm :: "template \<Rightarrow> string \<Rightarrow> tl_state \<Rightarrow> tl_state \<times> tl_output" where
  "handle_rename_confirm t n s = (s\<lparr>tl_selected := None\<rparr>, OutRename t n)"

definition handle_delete_confirm :: "string \<Rightarrow> tl_state \<Rightarrow> tl_state \<times> tl_output" where
  "handle_delete_confirm tid s = (s\<lparr>tl_selected := None\<rparr>, OutDelete tid)"

definition clear_search :: "tl_state \<Rightarrow> tl_state" where
  "clear_search s = s\<lparr>searchQuery := []\<rparr>"

subsection \<open>Handlers of TemplateCard\<close>

text \<open>The card forwards its buttons to the list (each handler stops propagation, so a
  button never also selects the card).\<close>

definition card_click :: "card_action \<Rightarrow> template \<Rightarrow> tl_state \<Rightarrow> tl_state \<times> tl_output" where
  "card_click a t s =
     (case a of
        CardSelectAction \<Rightarrow> (s, OutSelect t)
      | CardEditAction \<Rightarrow> (s, OutEdit t)
      | CardRenameAction \<Rightarrow> (handle_rename t s, OutNone)
      | CardDeleteAction \<Rightarrow> (handle_delete t s, OutNone))"

subsection \<open>Handlers of RenameDialog and DeleteConfirmDialog\<close>

text \<open>The dialog's effect copies the selected template's name into its input whenever
  it is open with a template.\<close>

definition rename_dialog_effect :: "tl_state \<Rightarrow> tl_state" where
  "rename_dialog_effect s =
     (case tl_selected s of
        Some t \<Rightarrow> if renameDialogOpen s then s\<lparr>newName := name t\<rparr> else s
      | None \<Rightarrow> s)"

definition rename_handle_confirm :: "tl_state \<Rightarrow> (tl_state \<times> tl_output) option" where
  "rename_handle_confirm s =
     (case tl_selected s of
        Some t \<Rightarrow>
          if js_trim (newName s) \<noteq> [] then
            (let (s1, out) = handle_rename_confirm t (js_trim (newName s)) s in
             Some (s1\<lparr>renameDialogOpen := False, newName := []\<rparr>, out))
          else Some (s, OutNone)
      | None \<Rightarrow> Some (s, OutNone))"

definition rename_handle_cancel :: "tl_state \<Rightarrow> tl_state" where
  "rename_handle_cancel s = s\<lparr>renameDialogOpen := False, newName := []\<rparr>"

definition rename_handle_key_down :: "string \<Rightarrow> tl_state \<Rightarrow> (tl_state \<times> tl_output) option" where
  "rename_handle_key_down key s =
     (if key = ''Enter'' \<and> tl_selected s \<noteq> None \<and> js_trim (newName s) \<noteq> []
      then rename_handle_confirm s else Some (s, OutNone))"

definition delete_handle_confirm :: "template \<Rightarrow> tl_state \<Rightarrow> tl_state \<times> tl_output" where
  "delete_handle_confirm t s =
     (let (s1, out) = handle_delete_confirm (template_id t) s in (s1\<lparr>deleteDialogOpen := False\<rparr>, out))"

definition delete_handle_cancel :: "tl_state \<Rightarrow> tl_state" where
  "delete_handle_cancel s = s\<lparr>deleteDialogOpen := False\<rparr>"

subsection \<open>What the dialogs show\<close>

text \<open>\<open>RenameDialog\<close> renders nothing without a template; open, it shows the input
  with \<open>newName\<close> and enables Confirm Rename when the trimmed input is non-empty.
  \<open>DeleteConfirmDialog\<close> names the template it would delete.\<close>

definition rename_dialog_view :: "tl_state \<Rightarrow> (string \<times> bool) option" where
  "rename_dialog_view s =
     (case tl_selected s of
        None \<Rightarrow> None
      | Some t \<Rightarrow> if renameDialogOpen s then Some (newName s, js_trim (newName s) \<noteq> []) else None)"

definition delete_dialog_view :: "tl_state \<Rightarrow> string option" where
  "delete_dialog_view s =
     (case tl_selected s of
        None \<Rightarrow> None
      | Some t \<Rightarrow> if deleteDialogOpen s then Some (name t) else None)"

subsection \<open>The list as a whole\<close>

text \<open>One event; \<open>None\<close> when its control is not on the screen: the search box needs
  templates, clearing the search the no-results state, a card button a shown card, a
  dialog control its open dialog with a selected template (both dialogs render nothing
  without one). Opening the rename dialog changes its \<open>template\<close> and \<open>open\<close>
  properties, so its effect runs after the card's rename handler. Dismissing a dialog
  (Escape, a click outside) calls \<open>onOpenChange(false)\<close> only: the list's setter,
  without the dialog's own clean-up.\<close>

fun tl_step :: "template list \<Rightarrow> tl_event \<Rightarrow> tl_state \<Rightarrow> (tl_state \<times> tl_output) option" where
  "tl_step ts (SearchChange q) s =
     (if ts \<noteq> [] then Some (s\<lparr>searchQuery := q\<rparr>, OutNone) else None)"
| "tl_step ts ClearSearch s =
     (if template_list_view (searchQuery s) ts = NoSearchResults
      then Some (clear_search s, OutNone) else None)"
| "tl_step ts (CardClick a t) s =
     (if t \<in> set (shown_templates (searchQuery s) ts) \<and> a \<in> set (card_actions t)
      then Some (if a = CardRenameAction then apfst rename_dialog_effect (card_click a t s)
                 else card_click a t s)
      else None)"
| "tl_step ts (RenameInput v) s =
     (if renameDialogOpen s \<and> tl_selected s \<noteq> None then Some (s\<lparr>newName := v\<rparr>, OutNone) else None)"
| "tl_step ts RenameConfirm s =
     (if renameDialogOpen s \<and> tl_selected s \<noteq> None then rename_handle_confirm s else None)"
| "tl_step ts (RenameKey k) s =
     (if renameDialogOpen s \<and> tl_selected s \<noteq> None then rename_handle_key_down k s else None)"
| "tl_step ts RenameCancel s =
     (if renameDialogOpen s \<and> tl_selected s \<noteq> None
      then Some (rename_handle_cancel s, OutNone) else None)"
| "tl_step ts RenameDismiss s =
     (if renameDialogOpen s \<and> tl_selected s \<noteq> None
      then Some (s\<lparr>renameDialogOpen := False\<rparr>, OutNone) else None)"
| "tl_step ts DeleteConfirm s =
     (case tl_selected s of
        Some t \<Rightarrow> if deleteDialogOpen s then Some (delete_handle_confirm t s) else None
      | None \<Rightarrow> None)"
| "tl_step ts DeleteCancel s =
     (if deleteDialogOpen s \<and> tl_selected s \<noteq> None
      then Some (delete_handle_cancel s, OutNone) else None)"
| "tl_step ts DeleteDismiss s =
     (if deleteDialogOpen s \<and> tl_selected s \<noteq> None
      then Some (s\<lparr>deleteDialogOpen := False\<rparr>, OutNone) else None)"

fun tl_run :: "template list \<Rightarrow> tl_state \<Rightarrow> tl_event list \<Rightarrow> (tl_state \<times> tl_output list) option" where
  "tl_run ts s [] = Some (s, [])"
| "tl_run ts s (e # es) =
     (case tl_step ts e s of
        None \<Rightarrow> None
      | Some (s', out) \<Rightarrow> map_option (\<lambda>(s'', outs). (s'', out # outs)) (tl_run ts s' es))"

text \<open>What the page may receive: callbacks about listed templates only, an edit only
  for a template that is not a Word template, a rename only to a trimmed non-empty
  name.\<close>

fun out_ok :: "template list \<Rightarrow> tl_output \<Rightarrow> bool" where
  "out_ok ts (OutSelect t) \<longleftrightarrow> t \<in> set ts"
| "out_ok ts (OutEdit t) \<longleftrightarrow> t \<in> set ts \<and> isWordTemplate t \<noteq> Some True"
| "out_ok ts (OutRename t n) \<longleftrightarrow> t \<in> set ts \<and> n \<noteq> [] \<and> js_trim n = n"
| "out_ok ts (OutDelete tid) \<longleftrightarrow> tid \<in> template_id ` set ts"
| "out_ok ts OutNone \<longleftrightarrow> True"

definition tl_ok :: "template list \<Rightarrow> tl_state \<Rightarrow> bool" where
  "tl_ok ts s \<longleftrightarrow> (case tl_selected s of None \<Rightarrow> True | Some t \<Rightarrow> t \<in> set ts)"

section \<open>Lemmas\<close>

lemma filter_templates_subset: "set (filter_templates q ts) \<subseteq> set ts"
  by (auto simp: filter_templates_def)

lemma shown_templates_subset: "set (shown_templates q ts) \<subseteq> set ts"
  using filter_templates_subset [of q ts]
  by (auto simp: shown_templates_def template_list_view_def Let_def)

lemma card_edit_not_word: "CardEditAction \<in> set (card_actions t) \<longleftrightarrow> isWordTemplate t \<noteq> Some True"
  by (simp add: card_actions_def)

lemmas tl_handlers = handle_rename_def handle_delete_def handle_rename_confirm_def
  handle_delete_confirm_def clear_search_def card_click_def rename_dialog_effect_def
  rename_handle_confirm_def rename_handle_cancel_def rename_handle_key_down_def
  delete_handle_confirm_def delete_handle_cancel_def

lemma tl_step_ok:
  assumes "tl_step ts e s = Some (s', out)" "tl_ok ts s"
  shows "tl_ok ts s' \<and> out_ok ts out"
proof (cases e)
  case (CardClick a t)
  with assms have t: "t \<in> set ts" "a \<in> set (card_actions t)"
    using shown_templates_subset by (auto split: if_splits)
  with assms CardClick show ?thesis
    by (cases a) (auto simp: tl_ok_def card_edit_not_word tl_handlers split: if_splits)
qed (use assms in \<open>auto simp: tl_ok_def tl_handlers split: if_splits option.splits\<close>)

lemma tl_run_ok:
  "tl_run ts s evs = Some (s', outs) \<Longrightarrow> tl_ok ts s \<Longrightarrow> list_all (out_ok ts) outs"
proof (induction evs arbitrary: s outs)
  case Nil
  then show ?case by simp
next
  case (Cons e es)
  from Cons.prems obtain s1 out outs' where st: "tl_step ts e s = Some (s1, out)"
    and r: "tl_run ts s1 es = Some (s', outs')" and o: "outs = out # outs'"
    by (auto split: option.splits prod.splits)
  from tl_step_ok [OF st Cons.prems(2)] have "tl_ok ts s1" "out_ok ts out" by simp_all
  with Cons.IH [OF r] o show ?case by simp
qed

text \<open>Confirm Rename is enabled exactly when confirming reports a rename, and the
  delete dialog names the template whose id confirming reports.\<close>

lemma rename_confirm_enabled:
  "rename_dialog_view s = Some (v, True) \<longleftrightarrow>
   (\<exists>t n s'. tl_step ts RenameConfirm s = Some (s', OutRename t n) \<and> v = newName s)"
  by (auto simp: rename_dialog_view_def tl_handlers split: option.splits if_splits)

lemma delete_confirm_names:
  "delete_dialog_view s = Some n \<Longrightarrow>
   \<exists>(t :: template) s'. tl_step ts DeleteConfirm s = Some (s', OutDelete (template_id t)) \<and> name t = n"
  by (auto simp: delete_dialog_view_def tl_handlers split: option.splits if_splits)

section \<open>Properties\<close>

text \<open>
  C14. Whatever the user does in the template list, every callback it makes to the page
  concerns a listed template; an edit is requested only for a template that is not a
  Word template; a rename always carries a trimmed, non-empty name; a delete the id of a
  listed template.
\<close>

theorem template_list_outputs:
  assumes "tl_run ts tl_init evs = Some (s, outs)"
  shows "list_all (out_ok ts) outs"
  using tl_run_ok [OF assms] by (simp add: tl_ok_def tl_init_def)

theorem template_list_outputs_witness:
  "tl_run [plain_template ''x''\<lparr>name := ''Old''\<rparr>] tl_init
     [CardClick CardRenameAction (plain_template ''x''\<lparr>name := ''Old''\<rparr>), RenameInput '' New '', RenameConfirm] =
     Some (tl_init, [OutNone, OutNone, OutRename (plain_template ''x''\<lparr>name := ''Old''\<rparr>) ''New'']) \<and>
   list_all (out_ok [plain_template ''x''\<lparr>name := ''Old''\<rparr>]) [OutNone, OutNone, OutRename (plain_template ''x''\<lparr>name := ''Old''\<rparr>) ''New'']"
proof -
  have h: "tl_run [plain_template ''x''\<lparr>name := ''Old''\<rparr>] tl_init
     [CardClick CardRenameAction (plain_template ''x''\<lparr>name := ''Old''\<rparr>), RenameInput '' New '', RenameConfirm] =
     Some (tl_init, [OutNone, OutNone, OutRename (plain_template ''x''\<lparr>name := ''Old''\<rparr>) ''New''])"
    by (simp add: tl_init_def tl_handlers shown_templates_def template_list_view_def filter_templates_def card_actions_def
        plain_template_def js_trim_def is_js_space_def)
  from h template_list_outputs [OF h] show ?thesis by simp
qed

end
