(* ===== verification/Page.thy ===== *)
theory Page
  imports Workflow Template_Store
begin

text \<open>
  The page as a whole (src/pages/Index.tsx): the wizard of the Workflow theory together
  with the template store it reads and writes through src/lib/templateUtils.ts. The
  handlers that call the store (\<open>loadTemplates\<close>, \<open>handleTemplateSave\<close>,
  \<open>handleTemplateDelete\<close>, \<open>handleTemplateRename\<close>) are composed here from
  \<open>save_template\<close>, \<open>delete_template\<close> and \<open>fetch_templates\<close> and the wizard event they
  end in; every other event is a wizard event on an unchanged store. Whether a remote
  call fails is a parameter of the event. The page chrome (\<open>Navbar\<close>,
  \<open>TemplateHeader\<close>) and the callbacks of the field mapper are also here.
\<close>

section \<open>The page and its store\<close>

record 'b page_state =
  pg_wf :: wf_state
  pg_store :: "'b tpl_store"

definition page_init :: "'b tpl_store \<Rightarrow> 'b page_state" where
  "page_init st = \<lparr>pg_wf = wf_init, pg_store = st\<rparr>"

text \<open>\<open>loadTemplates\<close>, run by the mount effect and after every write.\<close>

definition load_templates :: "bool \<Rightarrow> 'b page_state \<Rightarrow> 'b page_state option" where
  "load_templates rd ps =
     map_option (\<lambda>s. ps\<lparr>pg_wf := s\<rparr>)
       (wf_step (LoadTemplates (fetch_templates rd (pg_store ps))) (pg_wf ps))"

text \<open>\<open>handleTemplateSave(template, file)\<close>: \<open>saveTemplate\<close>, then on success
  \<open>loadTemplates\<close> and back to the list.\<close>

definition page_template_save ::
  "save_io \<Rightarrow> bool \<Rightarrow> template \<Rightarrow> (string \<times> 'b) option \<Rightarrow> 'b page_state \<Rightarrow> 'b page_state option" where
  "page_template_save io rd t upload ps =
     (let (saved, st') = save_template io t upload (pg_store ps) in
      map_option (\<lambda>s. \<lparr>pg_wf = s, pg_store = st'\<rparr>)
        (wf_step (TemplateSave (map_option (\<lambda>_. fetch_templates rd st') saved)) (pg_wf ps)))"

text \<open>\<open>handleTemplateDelete(id)\<close>: \<open>deleteTemplate\<close>, whose failures are only logged,
  then \<open>loadTemplates\<close> in any case.\<close>

definition page_template_delete :: "delete_io \<Rightarrow> bool \<Rightarrow> string \<Rightarrow> 'b page_state \<Rightarrow> 'b page_state option" where
  "page_template_delete dio rd tid ps =
     (let st' = delete_template dio tid (pg_store ps) in
      map_option (\<lambda>s. \<lparr>pg_wf = s, pg_store = st'\<rparr>)
        (wf_step (TemplateDelete tid (fetch_templates rd st')) (pg_wf ps)))"

text \<open>\<open>handleTemplateRename(template, newName)\<close>: \<open>saveTemplate\<close> of the template with
  the new name and timestamp, then on success \<open>loadTemplates\<close>.\<close>

definition page_template_rename ::
  "save_io \<Rightarrow> bool \<Rightarrow> template \<Rightarrow> string \<Rightarrow> string \<Rightarrow> 'b page_state \<Rightarrow> 'b page_state option" where
  "page_template_rename io rd t newName now ps =
     (let (saved, st') = save_template io (t\<lparr>name := newName, updatedAt := now\<rparr>) None (pg_store ps) in
      map_option (\<lambda>s. \<lparr>pg_wf = s, pg_store = st'\<rparr>)
        (wf_step (TemplateRename t newName now (map_option (\<lambda>_. fetch_templates rd st') saved)) (pg_wf ps)))"

text \<open>The events of the page: the four that call the store, with the outcome of each
  remote call, and every other wizard event.\<close>

datatype 'b page_event =
    PageLoad bool
  | PageSave save_io bool template "(string \<times> 'b) option"
  | PageDelete delete_io bool string
  | PageRename save_io bool template string string
  | PageLocal wf_event

fun page_local :: "wf_event \<Rightarrow> bool" where
  "page_local (LoadTemplates loaded) = False"
| "page_local (TemplateSave r) = False"
| "page_local (TemplateDelete tid loaded) = False"
| "page_local (TemplateRename t n now r) = False"
| "page_local e = True"

fun page_step :: "'b page_event \<Rightarrow> 'b page_state \<Rightarrow> 'b page_state option" where
  "page_step (PageLoad rd) ps = load_templates rd ps"
| "page_step (PageSave io rd t upload) ps = page_template_save io rd t upload ps"
| "page_step (PageDelete dok rd tid) ps = page_template_delete dok rd tid ps"
| "page_step (PageRename io rd t n now) ps = page_template_rename io rd t n now ps"
| "page_step (PageLocal e) ps =
     (if page_local e then map_option (\<lambda>s. ps\<lparr>pg_wf := s\<rparr>) (wf_step e (pg_wf ps)) else None)"

fun page_run :: "'b page_state \<Rightarrow> 'b page_event list \<Rightarrow> 'b page_state option" where
  "page_run ps [] = Some ps"
| "page_run ps (e # es) = (case page_step e ps of None \<Rightarrow> None | Some ps' \<Rightarrow> page_run ps' es)"

text \<open>Whether the reloads an event makes succeed.\<close>

fun page_reads_ok :: "'b page_event \<Rightarrow> bool" where
  "page_reads_ok (PageLoad rd) = rd"
| "page_reads_ok (PageSave io rd t upload) = rd"
| "page_reads_ok (PageDelete dok rd tid) = rd"
| "page_reads_ok (PageRename io rd t n now) = rd"
| "page_reads_ok (PageLocal e) = True"

text \<open>The list the page shows is what \<open>getTemplates\<close> reads from the store.\<close>

definition page_synced :: "'b page_state \<Rightarrow> bool" where
  "page_synced ps \<longleftrightarrow> templates (pg_wf ps) = get_templates (pg_store ps)"

section \<open>The field mapper on the page\<close>

text \<open>The page mounts \<open>FieldMapper\<close> with the selected template's placeholders and
  the dataset headers, and passes \<open>handleMappingComplete\<close> as
  \<open>onMappingComplete\<close>: the mapper's outputs become \<open>MappingComplete\<close> events.\<close>

definition mapper_props :: "wf_state \<Rightarrow> (string list \<times> string list) option" where
  "mapper_props s =
     (if ScrFieldMapper \<in> set (screens s)
      then map_option (\<lambda>t. (placeholders t, dataHeaders s)) (selectedTemplate s) else None)"

section \<open>Page chrome\<close>

text \<open>\<open>Navbar\<close>: the initials of the constant user name,
  \<open>userName.split(" ").map(n => n[0]).join("").toUpperCase()\<close>; \<open>n[0]\<close> of an
  empty piece is \<open>undefined\<close>, which \<open>join\<close> writes as nothing. The logout item only
  logs.\<close>

definition USER_NAME :: string where
  "USER_NAME = ''Admin User''"

definition user_initials :: "string \<Rightarrow> string" where
  "user_initials userName = js_to_upper (concat (map (take 1) (js_split CHR '' '' userName)))"

text \<open>\<open>TemplateHeader\<close>: its two buttons call the page's \<open>handleCreateNew\<close> and
  \<open>handleUploadWord\<close>.\<close>

datatype header_action = HeaderCreateNew | HeaderUploadWord

definition header_callback :: "header_action \<Rightarrow> wf_event" where
  "header_callback a = (case a of HeaderCreateNew \<Rightarrow> CreateNew | HeaderUploadWord \<Rightarrow> UploadWord)"

section \<open>Lemmas\<close>

lemma screens_mapper: "ScrFieldMapper \<in> set (screens s) \<longleftrightarrow> on_field_mapper s"
  by (auto simp: screens_def on_field_mapper_def)

lemma screens_list: "ScrTemplateList \<in> set (screens s) \<longleftrightarrow> on_template_list s"
  by (auto simp: screens_def on_template_list_def)

text \<open>The wizard events that do not reload leave the list alone.\<close>

lemma wf_step_local_templates:
  "wf_step e s = Some s' \<Longrightarrow> page_local e \<Longrightarrow> templates s' = templates s"
  by (cases e)
    (auto simp: handle_template_select_def handle_data_loaded_def handle_manual_data_filled_def
       handle_mapping_complete_def handle_back_to_templates_def Let_def
       split: if_splits option.splits sum.splits)

lemma save_reload_synced:
  assumes "save_template io t up st = (saved, st')" "page_synced ps" "pg_store ps = st" "rd"
    and "handle_template_save (map_option (\<lambda>_. fetch_templates rd st') saved) (pg_wf ps) = s'"
  shows "templates s' = get_templates st'"
proof (cases saved)
  case None
  with assms(1) have "tpl_rows st' = tpl_rows st"
    using save_template_failed_rows [of io t up st] by simp
  then have "get_templates st' = get_templates st" by (rule get_templates_rows)
  with None assms show ?thesis
    by (simp add: handle_template_save_def page_synced_def)
next
  case (Some r)
  with assms show ?thesis by (auto simp: handle_template_save_def fetch_templates_def)
qed

lemma rename_reload_synced:
  assumes "save_template io t' None st = (saved, st')" "page_synced ps" "pg_store ps = st" "rd"
    and "handle_template_rename t n now (map_option (\<lambda>_. fetch_templates rd st') saved) (pg_wf ps) = s'"
  shows "templates s' = get_templates st'"
proof (cases saved)
  case None
  with assms(1) have "tpl_rows st' = tpl_rows st"
    using save_template_failed_rows [of io t' None st] by simp
  then have "get_templates st' = get_templates st" by (rule get_templates_rows)
  with None assms show ?thesis
    by (simp add: handle_template_rename_def page_synced_def)
next
  case (Some r)
  with assms show ?thesis by (auto simp: handle_template_rename_def fetch_templates_def Let_def)
qed

lemma page_step_synced:
  assumes "page_step e ps = Some ps'" "page_synced ps" "page_reads_ok e"
  shows "page_synced ps'"
proof (cases e)
  case (PageLoad rd)
  with assms show ?thesis
    by (auto simp: load_templates_def page_synced_def fetch_templates_def)
next
  case (PageSave io rd t up)
  obtain saved st' where sv: "save_template io t up (pg_store ps) = (saved, st')" by fastforce
  from assms(1) PageSave sv obtain s where
    s: "wf_step (TemplateSave (map_option (\<lambda>_. fetch_templates rd st') saved)) (pg_wf ps) = Some s"
    and ps': "ps' = \<lparr>pg_wf = s, pg_store = st'\<rparr>"
    by (auto simp: page_template_save_def)
  from s have "handle_template_save (map_option (\<lambda>_. fetch_templates rd st') saved) (pg_wf ps) = s"
    by (simp split: if_splits)
  with save_reload_synced [OF sv assms(2) refl] assms(3) PageSave ps' show ?thesis
    by (simp add: page_synced_def)
next
  case (PageDelete dok rd tid)
  from assms(1) PageDelete obtain s where
    s: "wf_step (TemplateDelete tid (fetch_templates rd (delete_template dok tid (pg_store ps)))) (pg_wf ps) = Some s"
    and ps': "ps' = \<lparr>pg_wf = s, pg_store = delete_template dok tid (pg_store ps)\<rparr>"
    by (auto simp: page_template_delete_def Let_def)
  from s have "templates s = fetch_templates rd (delete_template dok tid (pg_store ps))"
    by (auto simp: handle_template_delete_def Let_def split: if_splits)
  with assms(3) PageDelete ps' show ?thesis
    by (simp add: page_synced_def fetch_templates_def)
next
  case (PageRename io rd t n now)
  obtain saved st' where sv: "save_template io (t\<lparr>name := n, updatedAt := now\<rparr>) None (pg_store ps) = (saved, st')"
    by fastforce
  from assms(1) PageRename sv obtain s where
    s: "wf_step (TemplateRename t n now (map_option (\<lambda>_. fetch_templates rd st') saved)) (pg_wf ps) = Some s"
    and ps': "ps' = \<lparr>pg_wf = s, pg_store = st'\<rparr>"
    by (auto simp: page_template_rename_def)
  from s have "handle_template_rename t n now (map_option (\<lambda>_. fetch_templates rd st') saved) (pg_wf ps) = s"
    by (simp split: if_splits)
  with rename_reload_synced [OF sv assms(2) refl] assms(3) PageRename ps' show ?thesis
    by (simp add: page_synced_def)
next
  case (PageLocal ev)
  from assms(1) PageLocal obtain s where l: "page_local ev" and s: "wf_step ev (pg_wf ps) = Some s"
    and ps': "ps' = ps\<lparr>pg_wf := s\<rparr>"
    by (auto split: if_splits)
  from wf_step_local_templates [OF s l] assms(2) ps' show ?thesis
    by (simp add: page_synced_def)
qed

lemma page_run_synced:
  "page_run ps evs = Some ps' \<Longrightarrow> page_synced ps \<Longrightarrow> list_all page_reads_ok evs \<Longrightarrow> page_synced ps'"
proof (induction evs arbitrary: ps)
  case Nil
  then show ?case by simp
next
  case (Cons e es)
  from Cons.prems(1) obtain ps1 where st: "page_step e ps = Some ps1" and r: "page_run ps1 es = Some ps'"
    by (auto split: option.splits)
  from Cons.prems(3) have "page_reads_ok e" "list_all page_reads_ok es" by simp_all
  with page_step_synced [OF st Cons.prems(2)] Cons.IH [OF r] show ?case by simp
qed

lemma page_load_synced: "page_step (PageLoad True) ps = Some ps' \<Longrightarrow> page_synced ps'"
  by (auto simp: load_templates_def page_synced_def fetch_templates_def)

text \<open>The initials the navigation bar shows: for a name of non-empty words separated by
  single blanks, the upper-cased first letters; for \<open>Admin User\<close>, \<open>AU\<close>.\<close>

lemma user_initials_words:
  "ws \<noteq> [] \<Longrightarrow> \<forall>w \<in> set ws. w \<noteq> [] \<and> CHR '' '' \<notin> set w \<Longrightarrow>
   user_initials (js_join CHR '' '' ws) = js_to_upper (map hd ws)"
proof -
  assume ne: "ws \<noteq> []" and ws: "\<forall>w \<in> set ws. w \<noteq> [] \<and> CHR '' '' \<notin> set w"
  then have "js_split CHR '' '' (js_join CHR '' '' ws) = ws" by (simp add: js_split_join)
  moreover from ws have "concat (map (take 1) ws) = map hd ws"
    by (induction ws) (auto simp: take_Suc neq_Nil_conv)
  ultimately show ?thesis by (simp add: user_initials_def)
qed

lemma user_initials_admin: "user_initials USER_NAME = ''AU''"
  by (simp add: USER_NAME_def user_initials_def js_to_upper_def ascii_upper_def Let_def)

text \<open>The header's buttons are live on the template list.\<close>

lemma header_callback_enabled: "on_template_list s \<Longrightarrow> wf_step (header_callback a) s \<noteq> None"
  by (cases a) (simp_all add: header_callback_def)

text \<open>A failed read of the list shows the empty state, whatever the store holds.\<close>

lemma page_read_failure_empty:
  "page_run (page_init st) [PageLoad False] = Some ps \<Longrightarrow> templates (pg_wf ps) = []"
  by (auto simp: page_init_def load_templates_def fetch_templates_def)

section \<open>Properties\<close>

text \<open>
  C11. The page's template list mirrors the store: from the mount of the page, through any
  sequence of selections, saves, renames, deletes and wizard steps, in which the remote
  writes may fail but the reloads succeed, the list the page holds is exactly what
  \<open>getTemplates\<close> reads from the store.
\<close>

theorem page_templates_mirror_store:
  assumes "page_run (page_init st) (PageLoad True # evs) = Some ps" "list_all page_reads_ok evs"
  shows "templates (pg_wf ps) = get_templates (pg_store ps)"
proof -
  from assms(1) obtain ps1 where l: "page_step (PageLoad True) (page_init st) = Some ps1"
    and r: "page_run ps1 evs = Some ps"
    by (auto split: option.splits)
  from page_run_synced [OF r page_load_synced [OF l] assms(2)] show ?thesis
    by (simp add: page_synced_def)
qed

theorem page_templates_mirror_store_witness:
  "\<exists>ps. page_run (page_init \<lparr>tpl_rows = [], bucket = (Map.empty :: string \<rightharpoonup> unit)\<rparr>)
         [PageLoad True, PageLocal CreateNew,
          PageSave \<lparr>upload_ok = True, write_ok = True, save_now = ''t0''\<rparr> True hi_template None] = Some ps \<and>
       templates (pg_wf ps) = get_templates (pg_store ps) \<and> length (templates (pg_wf ps)) = 1"
proof -
  obtain ps where h: "page_run (page_init \<lparr>tpl_rows = [], bucket = (Map.empty :: string \<rightharpoonup> unit)\<rparr>)
         [PageLoad True, PageLocal CreateNew,
          PageSave \<lparr>upload_ok = True, write_ok = True, save_now = ''t0''\<rparr> True hi_template None] = Some ps"
    and n: "length (get_templates (pg_store ps)) = 1"
    by (simp add: page_init_def wf_init_def load_templates_def page_template_save_def fetch_templates_def
        store_defs get_templates_def on_template_list_def on_editor_def handle_template_save_def Let_def)
  have ok: "list_all page_reads_ok
     [PageLocal CreateNew, PageSave \<lparr>upload_ok = True, write_ok = True, save_now = ''t0''\<rparr> True hi_template (None :: (string \<times> unit) option)]"
    by simp
  from page_templates_mirror_store [OF h ok] n h show ?thesis by auto
qed

text \<open>
  C12. The field mapper and the wizard compose: on the mapping screen of a template whose
  placeholder names are distinct and free of regular-expression metacharacters, every
  mapping the mapper hands on, after any selections, is accepted by the page, which then
  shows the preview, alone, with the merge of the template, the dataset and that mapping.
\<close>

theorem mapper_completion_reaches_preview:
  assumes "mapper_props s = Some (phs, fs)" "selectedTemplate s = Some t"
    and "distinct phs" "list_all regex_literal phs"
    and "fm_run phs fs (auto_map phs fs) evs = Some (ms, outs)" "Some m \<in> set outs"
  shows "\<exists>s'. wf_step (MappingComplete m) s = Some s' \<and> screens s' = [ScrPreview] \<and>
              merge_all_documents t (dataset s) m = Inr (mergedDocuments s')"
proof -
  from assms(1,2) have on: "on_field_mapper s" and p: "phs = placeholders t"
    by (auto simp: mapper_props_def screens_mapper split: if_splits)
  from fm_run_outputs [OF assms(5) auto_map_inv [OF assms(3)]] assms(6)
  have inv: "mapping_inv phs m" and c: "is_complete phs m" by auto
  from complete_covers [OF inv c] have "set (map placeholder m) = set phs" .
  with assms(4) have "list_all (\<lambda>x. regex_literal (placeholder x)) m"
    by (simp add: list_all_iff) (metis imageI list.set_map)
  then obtain docs where d: "merge_all_documents t (dataset s) m = Inr docs"
    using merge_all_not_Inl [of m t "dataset s"] by (cases "merge_all_documents t (dataset s) m") auto
  from on have ne: "dataset s \<noteq> []" by (simp add: on_field_mapper_def)
  with merge_all_length [OF d] have "docs \<noteq> []" by auto
  with on assms(2) inv c p d ne show ?thesis
    by (auto simp: on_field_mapper_def handle_mapping_complete_def screens_def Let_def)
qed

theorem mapper_completion_reaches_preview_witness:
  "mapper_props (wf_init\<lparr>currentStep := 3, selectedTemplate := Some hi_template, dataMode := Some DatasetMode,
                          dataset := [[''Name'' \<mapsto> JStr ''A'']], dataHeaders := [''name'']\<rparr>) =
     Some ([''Name''], [''name'']) \<and>
   fm_run [''Name''] [''name''] (auto_map [''Name''] [''name'']) [FmContinue] =
     Some ([\<lparr>placeholder = ''Name'', dataField = ''name''\<rparr>], [Some [\<lparr>placeholder = ''Name'', dataField = ''name''\<rparr>]]) \<and>
   (\<exists>s'. wf_step (MappingComplete [\<lparr>placeholder = ''Name'', dataField = ''name''\<rparr>])
          (wf_init\<lparr>currentStep := 3, selectedTemplate := Some hi_template, dataMode := Some DatasetMode,
                   dataset := [[''Name'' \<mapsto> JStr ''A'']], dataHeaders := [''name'']\<rparr>) = Some s' \<and>
        screens s' = [ScrPreview])"
proof -
  have m: "mapper_props (wf_init\<lparr>currentStep := 3, selectedTemplate := Some hi_template, dataMode := Some DatasetMode,
                          dataset := [[''Name'' \<mapsto> JStr ''A'']], dataHeaders := [''name'']\<rparr>) =
     Some ([''Name''], [''name''])"
    by (simp add: mapper_props_def screens_def wf_init_def)
  have r: "fm_run [''Name''] [''name''] (auto_map [''Name''] [''name'']) [FmContinue] =
     Some ([\<lparr>placeholder = ''Name'', dataField = ''name''\<rparr>], [Some [\<lparr>placeholder = ''Name'', dataField = ''name''\<rparr>]])"
    by (simp add: auto_map_def auto_map_step_def js_to_lower_def ascii_lower_def is_complete_def
        handle_complete_def)
  have l: "list_all regex_literal [''Name'']"
    by (simp add: regex_literal_def js_regex_meta_def)
  have "\<exists>s'. wf_step (MappingComplete [\<lparr>placeholder = ''Name'', dataField = ''name''\<rparr>])
          (wf_init\<lparr>currentStep := 3, selectedTemplate := Some hi_template, dataMode := Some DatasetMode,
                   dataset := [[''Name'' \<mapsto> JStr ''A'']], dataHeaders := [''name'']\<rparr>) = Some s' \<and>
        screens s' = [ScrPreview] \<and>
        merge_all_documents hi_template
          (dataset (wf_init\<lparr>currentStep := 3, selectedTemplate := Some hi_template, dataMode := Some DatasetMode,
                   dataset := [[''Name'' \<mapsto> JStr ''A'']], dataHeaders := [''name'']\<rparr>))
          [\<lparr>placeholder = ''Name'', dataField = ''name''\<rparr>] = Inr (mergedDocuments s')"
    by (rule mapper_completion_reaches_preview [OF m _ _ l r]) simp_all
  with m r show ?thesis by blast
qed

end
