(* ===== verification/Spec2Isabelle.thy ===== *)
theory Spec2Isabelle
  imports Template_Types Extractor Substitution Batch_Merge Field_Mapper Packager Workflow Template_Store Template_Authoring Data_Input Template_List Page
begin

text \<open>
  \<^bold>\<open>Verification of the template merge engine of the document-merge application.\<close>

  The application (sources under src/src) lets a user pick a text or Word template with
  named placeholders, bind the placeholders to the columns of a dataset (or fill them in
  by hand), and export one rendered document per data row, singly or as a zip archive.
  Its parts and how they interact:
  \<^item> the Placeholder Extractor (src/lib/templateUtils.ts \<open>extractPlaceholders\<close>,
    src/lib/wordDocumentUtils.ts \<open>extractPlaceholdersFromWord\<close>) lists the names of a
    template;
  \<^item> the Field Mapping Resolver (src/components/FieldMapper.tsx) proposes and edits a
    mapping from those names to data fields;
  \<^item> the Row Merge Function (\<open>mergeSingleDocument\<close>) substitutes one row into a
    text template; the Batch Merge Orchestrator (\<open>mergeAllDocuments\<close>,
    \<open>mergeWordDocument\<close>, \<open>mergeAllWordDocuments\<close>) runs it over the dataset;
  \<^item> the Document Packager (src/components/DocumentPreview.tsx) names and archives the
    results;
  \<^item> the wizard page (src/pages/Index.tsx) holds the state that connects them.

  \<^medskip>\<^bold>\<open>Theories.\<close>
  \<^descr>[Prelude] the JavaScript primitives the engine calls, on strings as \<open>char list\<close>:
    \<open>trim\<close> and \<open>\s\<close> (\<open>is_js_space\<close>, \<open>js_trim\<close>), \<open>toLowerCase\<close>
    (\<open>js_to_lower\<close>), \<open>String(v)\<close> (\<open>js_to_string\<close>, \<open>string_of_nat\<close>), the
    \<open>||\<close> fallback (\<open>js_falsy\<close>, \<open>row_value\<close>) and insertion-ordered sets
    (\<open>ordered_set\<close>), with their shared lemmas (decimal printing is injective, trimming
    is idempotent, \<open>ordered_set\<close> is duplicate-free).
  \<^descr>[Template_Types] src/types/template.ts: \<open>Template\<close>, \<open>FieldMapping\<close> and
    \<open>MergedDocument\<close> as records, \<open>DataRow\<close> as a partial map to \<open>js_value\<close>.
  \<^descr>[Extractor] the global \<open>exec\<close> loop over \<open>/\{\{([^}]+)\}\}/g\<close> (and the
    single-brace expression of the Word path) as the terminating recursion
    \<open>scan_braces\<close> (measure: remaining length), then trim and \<open>Set\<close>. The loop as
    written, \<open>exec\<close> searching from \<open>lastIndex\<close> (\<open>find_match\<close>) until it
    returns null, is \<open>exec_loop\<close> with fuel; it returns the scan's matches within
    \<open>length + 1\<close> iterations, and the number of names is bounded by the text length.
    Lemmas: every
    well-formed placeholder after brace-free text is found exactly once; names are
    trimmed, distinct and free of a closing brace; concrete readings of unclosed and blank
    placeholders and of double braces under the Word expression.
  \<^descr>[Substitution] \<open>mergeSingleDocument\<close>: the expression
    \<open>\{\{\s*name\s*\}\}\<close> built per mapping with its backtracking match
    (\<open>match_lead\<close>, \<open>match_tail\<close>, \<open>match_at\<close>), \<open>PatternPlaceholder\<close> marking
    a name with a metacharacter as outside the modelled fragment, \<open>String.prototype.replace\<close> with flag \<open>g\<close>
    including \<open>$\<close>-pattern expansion (\<open>replace_all\<close>, \<open>expand_replacement\<close>),
    and the \<open>forEach\<close> over mappings (\<open>apply_mappings\<close>). Beside it an abstract
    specification: a template as a list of text and slot segments, rendered against the
    table of the first mapping of each name (\<open>mapping_table\<close>, \<open>render\<close>). The
    refinement theorem shows the code implements it for well-formed templates, literal
    names and values free of \<open>$\<close> and \<open>{\<close>; further lemmas show no delimiter is
    left, missing and falsy values become empty, blanks inside the braces are tolerated,
    values are read as replacement patterns and scanned again by later mappings.
  \<^descr>[Batch_Merge] \<open>mergeAllDocuments\<close> as \<open>merge_rows\<close> (a throwing row aborts
    the batch); the Word path as the per-row table \<open>word_data\<close> handed to the engine, a
    parameter \<open>('b, 'e) docx_render\<close> standing for PizZip and Docxtemplater. Lemmas: one
    output per row in order with ids \<open>doc-k\<close>, distinct ids, all-or-nothing failure,
    and agreement of the Word table with the plain-text table for distinct names.
  \<^descr>[Field_Mapper] the auto-mapping effect, \<open>handleMappingChange\<close>, the
    \<open>currentMapping\<close> lookup, \<open>isComplete\<close> and \<open>handleComplete\<close>. Lemmas: what
    auto-mapping binds, the invariant \<open>mapping_inv\<close> (one binding per placeholder,
    template placeholders only) preserved by both operations, override/lookup laws, and
    that under the invariant the length test of \<open>isComplete\<close> means full coverage;
    the well-typed state \<open>mapping_typed\<close> (every bound field is a data field) is
    preserved; \<open>field_mapper_view\<close> is what the table renders per placeholder.
  \<^descr>[Packager] artifact names, \<open>downloadSingleDocument\<close>, \<open>downloadAllAsZip\<close>
    (JSZip as an association list whose \<open>file\<close> replaces an entry of the same name),
    \<open>handlePrevious\<close>/\<open>handleNext\<close>. Storage fetch, engine and clock are
    parameters; each error the handlers throw and catch is a constructor of
    \<open>export_error\<close>. Lemmas: one distinct entry per document, the plain and Word
    archives, the Word failure policy, single artifact names, navigation bounds. The
    component \<open>dp_step\<close> (export card, \<open>isGenerating\<close>) never moves
    \<open>currentIndex\<close>: no control calls the navigation handlers, so Download This always
    exports the first document.
  \<^descr>[Workflow] the page state as the record \<open>wf_state\<close>, every handler as a
    function, and \<open>wf_step\<close> dispatching a user event only where the page renders its
    control (the list's callbacks while the list is shown; the page's handlers check
    nothing more). \<open>DataLoaded\<close>, the uploader's callback run when a
    \<open>Papa.parse\<close> settles, is accepted in every state, since the parse may settle after
    the uploader unmounted; \<open>MappingComplete\<close> carries the field mapper's contract.
    \<open>wf_reachable\<close> is the inductive closure from \<open>wf_init\<close>. By rule induction every
    reachable state satisfies \<open>wf_inv\<close>: the step structure, and merged documents that
    are the merge of the selected template and the current mappings with the rows they
    carry. A late parse can leave a stuck state (\<open>wizard_stuck\<close>: step 3 without a
    template or without a data mode); stuck states are closed under every event. Lemmas:
    the page renders at most one screen, none exactly when stuck; the template list is
    reachable again exactly from the reachable states that are not stuck; a parse settling
    on step 1 or 2 produces such a dead end; the \<open>STEPS\<close> table and
    \<open>StepIndicator\<close> mark exactly one step active.
  \<^descr>[Template_Store] the persistence of src/lib/templateUtils.ts over an explicit
    store: the rows of the \<open>templates\<close> table in insertion order and the
    \<open>word-templates\<close> bucket as a map from paths to files. \<open>saveTemplate\<close> (upload,
    then update or insert), \<open>getTemplates\<close>, \<open>getTemplate\<close>, \<open>deleteTemplate\<close>,
    \<open>getTemplateFile\<close>; the outcome of each remote call (\<open>save_io\<close>, \<open>delete_io\<close>)
    is a parameter. Lemmas: save then load (what survives and what is lost), failed saves,
    delete under every combination of call outcomes.
  \<^descr>[Template_Authoring] \<open>TemplateEditor\<close> (state, content changes, insertion of
    a placeholder, the guarded save) as a step function over editor events;
    \<open>WordTemplateUploader\<close> as the step function \<open>wu_step\<close> over its controls, with
    \<open>handleFile\<close> split at its \<open>await\<close> (\<open>word_file_start\<close>,
    \<open>word_extract_done\<close>) and the extractions in flight settling in any order; the
    search of \<open>TemplateList\<close>. Lemmas: a saved text template carries exactly the
    placeholders of its content, for every sequence of edits; a user who waits for each
    extraction saves every Word file with its own placeholders (invariant \<open>wu_inv\<close>
    over runs, \<open>wu_patient\<close>); a user who does not wait can save a file with another
    file's placeholders; the editor's Save button is enabled exactly when saving
    hands a template over.
  \<^descr>[Data_Input] \<open>DatasetUploader.handleFile\<close> with the CSV parser as a parameter,
    and the uploader as the step function \<open>du_step\<close> (drop zone, file input, clear,
    parses settling in any order); \<open>ManualFormFiller\<close>: form state, local-storage
    draft, input change, submit. Lemmas: the uploader hands the page only a clear or a
    parsed non-empty CSV among the files dropped or chosen; a clear does not cancel a parse in flight; submit succeeds
    exactly on a filled form.
  \<^descr>[Template_List] \<open>TemplateList\<close> with its search, \<open>TemplateCard\<close>'s buttons,
    \<open>RenameDialog\<close> and \<open>DeleteConfirmDialog\<close> (src/components/templates): one
    definition per handler, composed by \<open>tl_step\<close> where the list renders the control.
    Lemma: every callback to the page names a listed template, an edit only of a
    non-Word template, a rename only with a trimmed non-empty name; what the dialogs
    show agrees with what confirming them reports.
  \<^descr>[Page] the page composed with its store: \<open>page_step\<close> runs the mount effect
    and the handlers that call \<open>saveTemplate\<close>, \<open>deleteTemplate\<close> and
    \<open>getTemplates\<close> (\<open>fetch_templates\<close>, with its error branch) against the store of
    Template_Store, and every other wizard event on an unchanged store. Lemmas: the
    list the page holds mirrors the store across any run whose reloads succeed; the
    field mapper (\<open>fm_step\<close>), mounted with the page's props, only hands on mappings
    the page accepts, which lead to the preview with their merge. Also the page chrome:
    \<open>Navbar\<close>'s initials (split/join round trip of Prelude) and \<open>TemplateHeader\<close>'s
    buttons.
  \<^descr>[Spec2Isabelle] this theory: the wiring of the template list into the page
    (\<open>list_callback\<close>, Index.tsx) and properties spanning components: the design's
    batch export scenario; what a template written in the editor becomes after a save and
    a read back (empty content, a Word flag, no file: empty merges, failing exports); that
    no loaded template can be edited, neither from its card nor through any run of the
    list's callbacks.

  \<^medskip>\<^bold>\<open>Bounds and termination.\<close> The regular-expression scans and the global
  replace recurse on a strictly shorter remainder of the input (\<open>function\<close> with a
  \<open>measure\<close>). The \<open>while\<close> loop over \<open>exec\<close> is also modelled as written, with
  fuel: each match moves \<open>lastIndex\<close> strictly forward, so \<open>length s + 1\<close>
  iterations suffice, and \<open>exec_loop_terminates\<close> proves that this fuel gives
  \<open>Some\<close> (the matches), not only that a returning loop is right. Every other loop is a
  \<open>forEach\<close>, \<open>map\<close> or \<open>reduce\<close> over a list (structural recursion or
  \<open>foldl\<close>). Row values and indices are unbounded (\<open>int\<close>, \<open>nat\<close>); the preview
  index is an \<open>int\<close> because \<open>handleNext\<close> on an empty list yields \<open>-1\<close>.

  \<^medskip>\<^bold>\<open>What modelling showed.\<close> \<open>$\<close>-patterns in data values are expanded by
  \<open>replace\<close>; a number \<open>0\<close> renders as the empty string; substituted values are
  scanned again by later mappings; names are spliced into \<open>new RegExp\<close> unescaped; an
  unclosed \<open>{{\<close> swallows the next placeholder; a blank placeholder is extracted but
  never auto-mapped; choosing "Upload Dataset" after a manual fill opens the field mapper
  on the manual row; saving a text template drops its content and marks it as a Word
  template, so after a reload it merges to empty documents and cannot be exported; a file
  named \<open>.CSV\<close> passes the upload filter but is never parsed; the manual-form draft is
  shared by all templates; every loaded template is flagged as a Word template, so the
  Edit button of a card is never shown for one; the Word uploader can save a file with
  the placeholders of a file it read earlier, and clearing an uploaded CSV does not stop
  its parse from loading it, and a parse that settles after the user went back to the
  templates leaves a blank page from which no control leads back; the preview shows no document and never navigates, so
  Download This always exports the first one; \<open>deleteTemplate\<close> removes the file
  before the row and ignores both outcomes, so a failed row delete leaves a listed
  template without its file and a failed removal an orphan file; a
  failed \<open>getTemplates\<close> shows the empty state although templates exist.

  \<^medskip>\<^bold>\<open>Not modelled.\<close> Placeholder names that are not literal for
  \<open>new RegExp\<close> (holding a metacharacter): JavaScript may throw or compile them to a
  pattern matching other text; the model does not interpret them and returns \<open>Inl\<close>
  (outside the modelled fragment), and its statements about merges assume literal names
  or speak of \<open>Inl\<close> only as that boundary. The awaits inside one store-calling handler
  are not interleaved with other events. A stored draft that parses to a non-object
  (only another script could write one). Markup without logic: the Navbar's dropdown and its
  logout item (which only logs), the styling of StepIndicator, EmptyState and the cards,
  the preview tables, file sizes, icons and toasts; the search box \<open>TemplateSearch\<close>, imported by TemplateList
  but absent from the repository, is modelled from its use; the Supabase client, whose table and bucket
  are the explicit store of Template_Store and whose call outcomes are parameters; the
  libraries PizZip, Docxtemplater, JSZip, Papa Parse, file-saver and FileReader, entering
  as parameters (document engine, document text, CSV records); the browser download,
  toasts, \<open>crypto.randomUUID\<close> and the clock (parameters). Whitespace and case
  tables are modelled on ASCII, data numbers by their integral values. \<open>Promise.all\<close>
  reports the first rejection to settle; the model reports the first failing row, and its
  statements only speak of whether some row fails. The database's ordering of rows with
  equal \<open>updated_at\<close> is left to the stable sort of the model.

  \<^medskip>\<^bold>\<open>Conventions followed.\<close> Records for state, datatypes for tagged values and
  errors, sum types for thrown errors, \<open>function\<close>/\<open>termination\<close> for scanning loops
  (the guides Modelling_Programs, Termination_and_Loops, Pitfalls); a step function with
  an inductive reachability predicate and invariants by rule induction
  (guides/State_Machines, IMP Small_Step and Star, CISC-Kernel Step_invariants); an
  abstract specification with a functional refinement lemma (Isar_Examples
  Expr_Compiler, Context_Free_Grammar Replace_Terminals); lookup/update lemmas on maps
  (Unix Nested_Environment, BinaryTree_Map, Formal_SSA Mapping_Exts); an explicit store
  updated by function update (IMP OO, CHERI-C global environment); save/load round trips
  stated as projection after embedding (AutoCorrode byte encodings); string scanners over character lists and
  printed numbers (Posix-Lexing Lexer, IP_Address_toString, LL1_Parser Json_Parser); closed
  witnesses evaluated by simp (guides/Witnesses).
\<close>

section \<open>Wiring of the template list into the page\<close>

text \<open>The page renders \<open>TemplateList\<close> with its handlers as callbacks (Index.tsx,
  the list view): a callback of the list becomes the wizard event of that handler. The
  outcome of the persistence calls a handler awaits (\<open>loaded\<close>, \<open>r\<close>) and the
  clock are the event's parameters.\<close>

definition list_callback ::
  "string \<Rightarrow> template list option \<Rightarrow> template list \<Rightarrow> tl_output \<Rightarrow> wf_event option" where
  "list_callback now r loaded out =
     (case out of
        OutSelect t \<Rightarrow> Some (TemplateSelect t)
      | OutEdit t \<Rightarrow> Some (TemplateEdit t)
      | OutRename t n \<Rightarrow> Some (TemplateRename t n now r)
      | OutDelete tid \<Rightarrow> Some (TemplateDelete tid loaded)
      | OutNone \<Rightarrow> None)"

text \<open>An empty text merges to the empty text under mappings with literal names.\<close>

lemma apply_mappings_empty:
  "list_all (\<lambda>m. regex_literal (placeholder m)) ms \<Longrightarrow> apply_mappings row ms [] = Inr []"
  by (induction ms) auto

section \<open>End-to-end properties\<close>

text \<open>
  Batch export scenario of the design: template \<open>Hi {{Name}}\<close>, dataset
  \<open>[{Name: A}, {Name: B}]\<close> and mapping \<open>Name -> Name\<close> give the two documents
  \<open>Hi A\<close> and \<open>Hi B\<close>, archived as \<open>document-1.html\<close> and \<open>document-2.html\<close>.
\<close>

theorem batch_export_scenario:
  "merge_all_documents hi_template [[''Name'' \<mapsto> JStr ''A''], [''Name'' \<mapsto> JStr ''B'']]
     [\<lparr>placeholder = ''Name'', dataField = ''Name''\<rparr>] =
   Inr [\<lparr>doc_id = ''doc-0'', doc_content = ''Hi A'', rowData = [''Name'' \<mapsto> JStr ''A'']\<rparr>,
        \<lparr>doc_id = ''doc-1'', doc_content = ''Hi B'', rowData = [''Name'' \<mapsto> JStr ''B'']\<rparr>] \<and>
   download_all_as_zip (\<lambda>b d. Inr b) (\<lambda>p. None :: unit option) hi_template
     [\<lparr>doc_id = ''doc-0'', doc_content = ''Hi A'', rowData = [''Name'' \<mapsto> JStr ''A'']\<rparr>,
      \<lparr>doc_id = ''doc-1'', doc_content = ''Hi B'', rowData = [''Name'' \<mapsto> JStr ''B'']\<rparr>]
     [[''Name'' \<mapsto> JStr ''A''], [''Name'' \<mapsto> JStr ''B'']] [\<lparr>placeholder = ''Name'', dataField = ''Name''\<rparr>] 0 =
   (Inr (''merged-documents-0.zip'',
         [(''document-1.html'', ZipText ''Hi A''), (''document-2.html'', ZipText ''Hi B'')])
     :: unit export_error + string \<times> unit zip_archive)"
  by (simp add: batch_eval js_simps download_all_as_zip_def is_word_def archive_name_def
      document_file_name_def zip_file_def)

text \<open>
  C23. A text template does not survive persistence: a new template from the editor,
  saved without a file and read back by its id, has empty content and is flagged as a
  Word template with an empty file path. Merging it gives the empty document for every
  row and every mapping with literal names, and exporting it always fails for want of a
  template file.
\<close>

theorem text_template_lost_on_save:
  assumes "editor_save tm fresh now est = Some t" "find_row (template_id t) (tpl_rows st) = None"
    and "save_template io t None st = (Some r, st')"
  shows "\<exists>t'. get_template (template_id t) st' = Some t' \<and> content t' = [] \<and> is_word t' \<and>
           (\<forall>row ms. list_all (\<lambda>m. regex_literal (placeholder m)) ms \<longrightarrow>
              merge_single_document t' row ms = Inr []) \<and>
           (\<forall>engine fetch docs ds ms k. download_all_as_zip engine fetch t' docs ds ms k = Inl NoTemplatePath)"
proof -
  from assms(1) have wd: "wordDocumentData t = None"
    by (auto simp: editor_save_def split: if_splits)
  with assms(2,3) have w: "write_template io t None st = (Some r, st')"
    and r: "r = new_row t None (save_now io)" and st': "tpl_rows st' = tpl_rows st @ [r]"
    by (auto simp: save_template_def write_template_def Let_def split: if_splits)
  have "row_id r = template_id t" "storage_path r = []" by (simp_all add: r new_row_def)
  with st' assms(2) have g: "get_template (template_id t) st' = Some (row_to_template r)"
    by (simp add: get_template_def find_row_snoc)
  let ?t' = "row_to_template r"
  have c: "content ?t' = []" and iw: "is_word ?t'" and p: "wordDocumentData ?t' = Some []"
    using \<open>storage_path r = []\<close> by (simp_all add: row_to_template_def is_word_def)
  have "\<forall>row ms. list_all (\<lambda>m. regex_literal (placeholder m)) ms \<longrightarrow> merge_single_document ?t' row ms = Inr []"
    using c by (simp add: merge_single_document_def apply_mappings_empty)
  moreover have "\<forall>engine fetch docs ds ms k. download_all_as_zip engine fetch ?t' docs ds ms k = Inl NoTemplatePath"
    using iw p by (simp add: download_all_as_zip_def fetch_template_def)
  ultimately show ?thesis using g c iw by blast
qed

theorem text_template_lost_on_save_witness:
  "\<exists>r st' t'. save_template \<lparr>upload_ok = True, write_ok = True, save_now = ''t0''\<rparr>
       (the (editor_save None ''t1'' ''t0'' \<lparr>ed_name = ''Greeting'', ed_content = ''Hi {{Name}}'', detected = [''Name'']\<rparr>))
       None \<lparr>tpl_rows = [], bucket = (Map.empty :: string \<rightharpoonup> unit)\<rparr> = (Some r, st') \<and>
     get_template ''t1'' st' = Some t' \<and> content t' = [] \<and>
     merge_single_document t' [''Name'' \<mapsto> JStr ''A''] [\<lparr>placeholder = ''Name'', dataField = ''Name''\<rparr>] = Inr []"
proof -
  let ?est = "\<lparr>ed_name = ''Greeting'', ed_content = ''Hi {{Name}}'', detected = [''Name'']\<rparr>"
  let ?st = "\<lparr>tpl_rows = [], bucket = (Map.empty :: string \<rightharpoonup> unit)\<rparr>"
  obtain t where e: "editor_save None ''t1'' ''t0'' ?est = Some t" and i: "template_id t = ''t1''"
    by (simp add: editor_save_def js_trim_def is_js_space_def)
  have f: "find_row (template_id t) (tpl_rows ?st) = None" by (simp add: find_row_def)
  obtain r st' where sv: "save_template \<lparr>upload_ok = True, write_ok = True, save_now = ''t0''\<rparr> t None ?st = (Some r, st')"
    using e by (simp add: editor_save_def store_defs split: if_splits)
  have l: "list_all (\<lambda>m. regex_literal (placeholder m)) [\<lparr>placeholder = ''Name'', dataField = ''Name''\<rparr>]"
    by (simp add: regex_literal_def js_regex_meta_def)
  from text_template_lost_on_save [OF e f sv] l e i sv show ?thesis by auto
qed

text \<open>
  C13. Text templates cannot be edited once stored: every template the page loads is
  flagged as a Word template, so no card of the list offers the edit button, and no run
  of the list over the loaded templates makes the callback that opens the page's editor.
\<close>

theorem loaded_templates_not_editable:
  "list_all (\<lambda>t. CardEditAction \<notin> set (card_actions t)) (get_templates st) \<and>
   (\<forall>evs ls outs. tl_run (get_templates st) tl_init evs = Some (ls, outs) \<longrightarrow>
      (\<forall>out \<in> set outs. \<forall>t. list_callback now r loaded out \<noteq> Some (TemplateEdit t)))"
proof -
  have a: "list_all (\<lambda>t. CardEditAction \<notin> set (card_actions t)) (get_templates st)"
    by (auto simp: list_all_iff card_edit_not_word dest: get_templates_word)
  have "\<forall>out \<in> set outs. \<forall>t. list_callback now r loaded out \<noteq> Some (TemplateEdit t)"
    if run: "tl_run (get_templates st) tl_init evs = Some (ls, outs)" for evs ls outs
  proof -
    have "tl_ok (get_templates st) tl_init" by (simp add: tl_ok_def tl_init_def)
    with run have ok: "list_all (out_ok (get_templates st)) outs" by (rule tl_run_ok)
    show ?thesis
    proof (intro ballI allI notI)
      fix out t assume o: "out \<in> set outs" and c: "list_callback now r loaded out = Some (TemplateEdit t)"
      from c have "out = OutEdit t" by (cases out) (simp_all add: list_callback_def)
      with o ok have "t \<in> set (get_templates st)" "isWordTemplate t \<noteq> Some True"
        by (auto simp: list_all_iff)
      then show False by (simp add: get_templates_word)
    qed
  qed
  with a show ?thesis by blast
qed

theorem loaded_templates_not_editable_witness:
  "tl_run (get_templates \<lparr>tpl_rows = [\<lparr>row_id = ''7'', row_name = ''L'', row_placeholders = [], storage_path = [],
          created_at = [], updated_at = []\<rparr>], bucket = (Map.empty :: string \<rightharpoonup> unit)\<rparr>) tl_init [] = Some (tl_init, []) \<and>
   list_all (\<lambda>t. CardEditAction \<notin> set (card_actions t))
     (get_templates \<lparr>tpl_rows = [\<lparr>row_id = ''7'', row_name = ''L'', row_placeholders = [], storage_path = [],
          created_at = [], updated_at = []\<rparr>], bucket = (Map.empty :: string \<rightharpoonup> unit)\<rparr>)"
  using loaded_templates_not_editable [of "\<lparr>tpl_rows = [\<lparr>row_id = ''7'', row_name = ''L'', row_placeholders = [], storage_path = [],
          created_at = [], updated_at = []\<rparr>], bucket = (Map.empty :: string \<rightharpoonup> unit)\<rparr>" "''now''" None "[]"]
  by simp

end
